(* ===== verification/Go_Prelude.thy ===== *)
theory Go_Prelude
  imports Complex_Main "HOL-Library.Char_ord" "HOL-Library.List_Lexorder" "HOL-Library.Multiset"
    "HOL-Library.Word"
begin

section \<open>What the program uses of Go: strings, JSON values, maps and formatting\<close>

text \<open>
  The vocabulary the component theories share. A Go string is a byte sequence, here a
  \<^typ>\<open>string\<close> whose characters are bytes; a Go map that the code ranges over is an
  association list with distinct keys whose order stands for Go's unspecified iteration order; a
  value of type \<^verbatim>\<open>any\<close> or \<^verbatim>\<open>json.RawMessage\<close> is a \<open>json\<close> tree. The string functions
  are those of Go's \<^verbatim>\<open>strings\<close> package that the sources call, and the decoders those of
  \<^verbatim>\<open>encoding/json\<close>.
\<close>

named_theorems go_string_simps \<open>characterisations of the string functions\<close>

subsection \<open>Strings\<close>

text \<open>\<^verbatim>\<open>strings.CutPrefix\<close> and \<^verbatim>\<open>strings.HasPrefix\<close>.\<close>

fun cut_prefix :: "string \<Rightarrow> string \<Rightarrow> string option" where
  "cut_prefix [] s = Some s"
| "cut_prefix (p # ps) [] = None"
| "cut_prefix (p # ps) (c # cs) = (if p = c then cut_prefix ps cs else None)"

definition has_prefix :: "string \<Rightarrow> string \<Rightarrow> bool" where
  "has_prefix p s \<longleftrightarrow> cut_prefix p s \<noteq> None"

lemma cut_prefix_Some: "cut_prefix p s = Some r \<longleftrightarrow> s = p @ r"
  by (induction p s rule: cut_prefix.induct) auto

lemma cut_prefix_append [simp]: "cut_prefix p (p @ r) = Some r"
  by (simp add: cut_prefix_Some)

lemma has_prefix_iff [go_string_simps]: "has_prefix p s \<longleftrightarrow> (\<exists>r. s = p @ r)"
  unfolding has_prefix_def by (auto simp: cut_prefix_Some)

lemma cut_prefix_None: "cut_prefix p s = None \<longleftrightarrow> \<not> has_prefix p s"
  by (simp add: has_prefix_def)

text \<open>\<^verbatim>\<open>strings.Contains\<close> and \<^verbatim>\<open>strings.Index\<close>, the latter as the text after the first match.\<close>

fun after_first :: "string \<Rightarrow> string \<Rightarrow> string option" where
  "after_first sub [] = cut_prefix sub []"
| "after_first sub (c # cs) =
     (case cut_prefix sub (c # cs) of Some r \<Rightarrow> Some r | None \<Rightarrow> after_first sub cs)"

definition contains_str :: "string \<Rightarrow> string \<Rightarrow> bool" where
  "contains_str sub s \<longleftrightarrow> after_first sub s \<noteq> None"

lemma after_first_Some: "after_first sub s = Some r \<Longrightarrow> \<exists>pre. s = pre @ sub @ r"
proof (induction sub s arbitrary: r rule: after_first.induct)
  case (1 sub)
  then show ?case by (auto simp: cut_prefix_Some)
next
  case (2 sub c cs)
  show ?case
  proof (cases "cut_prefix sub (c # cs)")
    case None
    with "2.prems" have "after_first sub cs = Some r" by simp
    with "2.IH" [OF None] obtain pre where "cs = pre @ sub @ r" by blast
    then show ?thesis by (metis append_Cons)
  next
    case (Some r')
    with "2.prems" have "c # cs = sub @ r" by (simp add: cut_prefix_Some)
    then show ?thesis by (metis append_Nil)
  qed
qed

lemma after_first_exists: "\<exists>r. after_first sub (pre @ sub @ post) = Some r"
proof (induction pre)
  case Nil
  have cut: "cut_prefix sub (sub @ post) = Some post" by simp
  show ?case
  proof (cases "sub @ post")
    case Nil
    with cut show ?thesis by simp
  next
    case (Cons a rest)
    with cut have "cut_prefix sub (a # rest) = Some post" by metis
    with Cons show ?thesis by simp
  qed
next
  case (Cons a pre)
  then show ?case by (auto split: option.split)
qed

lemma contains_str_iff [go_string_simps]:
  "contains_str sub s \<longleftrightarrow> (\<exists>pre post. s = pre @ sub @ post)"
  unfolding contains_str_def using after_first_Some after_first_exists by fastforce

text \<open>A match leaves a shorter rest, which is what ends the loops that scan for the next one.\<close>

lemma after_first_shorter: "after_first sub s = Some r \<Longrightarrow> length r \<le> length s - length sub"
  by (drule after_first_Some) auto

text \<open>\<^verbatim>\<open>strings.Cut\<close> at a one-byte separator.\<close>

fun cut_char :: "char \<Rightarrow> string \<Rightarrow> (string \<times> string) option" where
  "cut_char sep [] = None"
| "cut_char sep (c # cs) =
     (if c = sep then Some ([], cs)
      else map_option (\<lambda>(a, b). (c # a, b)) (cut_char sep cs))"

lemma cut_char_Some: "cut_char sep s = Some (a, b) \<longleftrightarrow> s = a @ sep # b \<and> sep \<notin> set a"
proof (induction s arbitrary: a)
  case Nil
  then show ?case by simp
next
  case (Cons c cs)
  then show ?case by (cases a) (auto split: if_splits)
qed

lemma cut_char_None: "cut_char sep s = None \<longleftrightarrow> sep \<notin> set s"
  by (induction s) auto

text \<open>\<^verbatim>\<open>strings.Join\<close>.\<close>

fun join_str :: "string \<Rightarrow> string list \<Rightarrow> string" where
  "join_str sep [] = []"
| "join_str sep [x] = x"
| "join_str sep (x # xs) = x @ sep @ join_str sep xs"

text \<open>
  \<^verbatim>\<open>strings.TrimSpace\<close> removes Unicode white space, which in UTF-8 is the ASCII space and control
  bytes and the encodings of U+0085, U+00A0, U+1680, U+2000 to U+200A, U+2028, U+2029, U+202F,
  U+205F and U+3000.
\<close>

definition space_bytes :: "string list" where
  "space_bytes =
     [[CHR 0x09], [CHR 0x0A], [CHR 0x0B], [CHR 0x0C], [CHR 0x0D], [CHR 0x20],
      [CHR 0xC2, CHR 0x85], [CHR 0xC2, CHR 0xA0], [CHR 0xE1, CHR 0x9A, CHR 0x80],
      [CHR 0xE2, CHR 0x80, CHR 0x80], [CHR 0xE2, CHR 0x80, CHR 0x81], [CHR 0xE2, CHR 0x80, CHR 0x82],
      [CHR 0xE2, CHR 0x80, CHR 0x83], [CHR 0xE2, CHR 0x80, CHR 0x84], [CHR 0xE2, CHR 0x80, CHR 0x85],
      [CHR 0xE2, CHR 0x80, CHR 0x86], [CHR 0xE2, CHR 0x80, CHR 0x87], [CHR 0xE2, CHR 0x80, CHR 0x88],
      [CHR 0xE2, CHR 0x80, CHR 0x89], [CHR 0xE2, CHR 0x80, CHR 0x8A], [CHR 0xE2, CHR 0x80, CHR 0xA8],
      [CHR 0xE2, CHR 0x80, CHR 0xA9], [CHR 0xE2, CHR 0x80, CHR 0xAF], [CHR 0xE2, CHR 0x81, CHR 0x9F],
      [CHR 0xE3, CHR 0x80, CHR 0x80]]"

fun first_cut :: "string list \<Rightarrow> string \<Rightarrow> string option" where
  "first_cut [] s = None"
| "first_cut (p # ps) s =
     (case cut_prefix p s of Some r \<Rightarrow> Some r | None \<Rightarrow> first_cut ps s)"

lemma first_cut_shorter:
  "first_cut ps s = Some r \<Longrightarrow> [] \<notin> set ps \<Longrightarrow> length r < length s"
  by (induction ps) (auto split: option.splits simp: cut_prefix_Some)

lemma space_bytes_nonempty: "[] \<notin> set space_bytes" "[] \<notin> set (map rev space_bytes)"
  by (simp_all add: space_bytes_def)

function trim_by :: "string list \<Rightarrow> string \<Rightarrow> string" where
  "trim_by ps s =
     (if [] \<in> set ps then s
      else case first_cut ps s of None \<Rightarrow> s | Some r \<Rightarrow> trim_by ps r)"
  by pat_completeness auto
termination
  by (relation "measure (length \<circ> snd)") (auto dest: first_cut_shorter)

declare trim_by.simps [simp del]

definition trim_space :: "string \<Rightarrow> string" where
  "trim_space s = rev (trim_by (map rev space_bytes) (rev (trim_by space_bytes s)))"

lemma trim_by_done: "[] \<notin> set ps \<Longrightarrow> first_cut ps (trim_by ps s) = None"
proof (induction ps s rule: trim_by.induct)
  case (1 ps s)
  then show ?case by (subst trim_by.simps) (auto split: option.splits)
qed

lemma trim_by_suffix: "\<exists>pre. s = pre @ trim_by ps s"
proof (induction ps s rule: trim_by.induct)
  case (1 ps s)
  have cut: "first_cut ps s = Some r \<Longrightarrow> \<exists>pre. s = pre @ r" for r
    by (induction ps) (auto split: option.splits simp: cut_prefix_Some)
  show ?case
  proof (cases "[] \<in> set ps \<or> first_cut ps s = None")
    case True
    then show ?thesis by (subst trim_by.simps) auto
  next
    case False
    then obtain r where r: "first_cut ps s = Some r" "[] \<notin> set ps" by auto
    from cut [OF r(1)] obtain pre where "s = pre @ r" by blast
    moreover from "1.IH" r obtain pre' where "r = pre' @ trim_by ps r" by blast
    ultimately have "s = (pre @ pre') @ trim_by ps r" by simp
    with r show ?thesis by (subst trim_by.simps) auto
  qed
qed

lemma trim_space_infix: "\<exists>pre post. s = pre @ trim_space s @ post"
proof -
  obtain pre where 1: "s = pre @ trim_by space_bytes s" using trim_by_suffix by blast
  obtain post where "rev (trim_by space_bytes s) = post @ rev (trim_space s)"
    unfolding trim_space_def using trim_by_suffix by fastforce
  then have "trim_by space_bytes s = trim_space s @ rev post"
    by (metis rev_append rev_rev_ident)
  with 1 show ?thesis by metis
qed

text \<open>
  The part of \<^verbatim>\<open>strings.ToLower\<close> and \<^verbatim>\<open>strings.EqualFold\<close> that decides a comparison with an ASCII
  word: ASCII letters fold, and so do the two code points outside ASCII whose lower case is an ASCII
  letter, U+0130 and the Kelvin sign U+212A. No other code point becomes ASCII.
\<close>

definition lower_char :: "char \<Rightarrow> char" where
  "lower_char c = (if 65 \<le> (of_char c :: nat) \<and> (of_char c :: nat) \<le> 90 then char_of ((of_char c :: nat) + 32) else c)"

fun to_lower :: "string \<Rightarrow> string" where
  "to_lower [] = []"
| "to_lower (a # cs) =
     (case cs of
        b # cs' \<Rightarrow>
          if a = CHR 0xC4 \<and> b = CHR 0xB0 then CHR ''i'' # to_lower cs'
          else (case cs' of
                  c # cs'' \<Rightarrow>
                    if a = CHR 0xE2 \<and> b = CHR 0x84 \<and> c = CHR 0xAA then CHR ''k'' # to_lower cs''
                    else lower_char a # to_lower cs
                | [] \<Rightarrow> lower_char a # to_lower cs)
      | [] \<Rightarrow> [lower_char a])"

text \<open>Decimal formatting, Go's \<^verbatim>\<open>%d\<close>.\<close>

definition digit_char :: "nat \<Rightarrow> char" where
  "digit_char d = char_of (48 + d)"

fun show_nat :: "nat \<Rightarrow> string" where
  "show_nat n = (if n < 10 then [digit_char n] else show_nat (n div 10) @ [digit_char (n mod 10)])"

declare show_nat.simps [simp del]

definition show_int :: "int \<Rightarrow> string" where
  "show_int i = (if i < 0 then CHR ''-'' # show_nat (nat (- i)) else show_nat (nat i))"

text \<open>
  Go's \<^verbatim>\<open>%q\<close>: quotes, backslashes and control bytes are escaped. Bytes above ASCII are kept, which is
  what \<^verbatim>\<open>%q\<close> does for printable characters.
\<close>

definition hex_digit :: "nat \<Rightarrow> char" where
  "hex_digit d = (if d < 10 then char_of (48 + d) else char_of (87 + d))"

definition quote_char :: "char \<Rightarrow> string" where
  "quote_char c =
     (if c = CHR 0x22 then [CHR 0x5C, CHR 0x22]
      else if c = CHR 0x5C then [CHR 0x5C, CHR 0x5C]
      else if c = CHR 0x07 then [CHR 0x5C, CHR ''a'']
      else if c = CHR 0x08 then [CHR 0x5C, CHR ''b'']
      else if c = CHR 0x0C then [CHR 0x5C, CHR ''f'']
      else if c = CHR 0x0A then [CHR 0x5C, CHR ''n'']
      else if c = CHR 0x0D then [CHR 0x5C, CHR ''r'']
      else if c = CHR 0x09 then [CHR 0x5C, CHR ''t'']
      else if c = CHR 0x0B then [CHR 0x5C, CHR ''v'']
      else if (of_char c :: nat) < 32 \<or> c = CHR 0x7F
        then [CHR 0x5C, CHR ''x'', hex_digit (of_char c div 16), hex_digit (of_char c mod 16)]
      else [c])"

definition go_quote :: "string \<Rightarrow> string" where
  "go_quote s = [CHR 0x22] @ concat (map quote_char s) @ [CHR 0x22]"

subsection \<open>JSON values\<close>

text \<open>
  A decoded JSON value. A number literal with neither fraction nor exponent is a \<open>JInt\<close> and any other
  a \<open>JFloat\<close> with its value, because \<^verbatim>\<open>encoding/json\<close> decodes only the former into an integer field.
  An object is an association list of its members.
\<close>

datatype json =
    JNull
  | JBool bool
  | JInt int
  | JFloat rat
  | JStr string
  | JArr "json list"
  | JObj "(string \<times> json) list"

text \<open>
  A \<^verbatim>\<open>json.RawMessage\<close> taken from a decoded message: \<open>None\<close> when the member was absent, and then
  \<^verbatim>\<open>json.Unmarshal\<close> fails on the empty input; otherwise a well-formed value.
\<close>

type_synonym raw = "json option"

text \<open>
  Decoding an object into a struct: a member fills the field whose name it equals under case folding,
  and the last such member wins.
\<close>

definition jfield :: "string \<Rightarrow> (string \<times> json) list \<Rightarrow> json option" where
  "jfield name kvs =
     (case filter (\<lambda>(k, _). to_lower k = to_lower name) kvs of
        [] \<Rightarrow> None
      | x # xs \<Rightarrow> Some (snd (last (x # xs))))"

text \<open>Field decoders: an absent member and \<^verbatim>\<open>null\<close> leave the zero value, another kind is an error.\<close>

definition in_int64 :: "int \<Rightarrow> bool" where
  "in_int64 i \<longleftrightarrow> - (2 ^ 63) \<le> i \<and> i < 2 ^ 63"

fun dec_string :: "json option \<Rightarrow> string option" where
  "dec_string None = Some []"
| "dec_string (Some JNull) = Some []"
| "dec_string (Some (JStr s)) = Some s"
| "dec_string (Some _) = None"

fun dec_bool :: "json option \<Rightarrow> bool option" where
  "dec_bool None = Some False"
| "dec_bool (Some JNull) = Some False"
| "dec_bool (Some (JBool b)) = Some b"
| "dec_bool (Some _) = None"

fun dec_int64 :: "json option \<Rightarrow> int option" where
  "dec_int64 None = Some 0"
| "dec_int64 (Some JNull) = Some 0"
| "dec_int64 (Some (JInt i)) = (if in_int64 i then Some i else None)"
| "dec_int64 (Some _) = None"

fun dec_float :: "json option \<Rightarrow> rat option" where
  "dec_float None = Some 0"
| "dec_float (Some JNull) = Some 0"
| "dec_float (Some (JInt i)) = Some (of_int i)"
| "dec_float (Some (JFloat r)) = Some r"
| "dec_float (Some _) = None"

text \<open>Decoding into a field of type \<^verbatim>\<open>any\<close> always succeeds; an absent member leaves \<^verbatim>\<open>nil\<close>.\<close>

definition dec_any :: "json option \<Rightarrow> json" where
  "dec_any j = (case j of None \<Rightarrow> JNull | Some v \<Rightarrow> v)"

text \<open>Decoding into a struct: an object gives its members, \<^verbatim>\<open>null\<close> leaves the zero struct.\<close>

fun dec_struct :: "json option \<Rightarrow> (string \<times> json) list option" where
  "dec_struct (Some (JObj kvs)) = Some kvs"
| "dec_struct (Some JNull) = Some []"
| "dec_struct _ = None"

text \<open>Decoding a whole document into a slice; \<^verbatim>\<open>null\<close> gives the nil slice.\<close>

fun dec_slice :: "json option \<Rightarrow> json list option" where
  "dec_slice (Some (JArr xs)) = Some xs"
| "dec_slice (Some JNull) = Some []"
| "dec_slice _ = None"

text \<open>Decoding every element of a slice, failing as soon as one fails.\<close>

fun dec_each :: "(json \<Rightarrow> 'a option) \<Rightarrow> json list \<Rightarrow> 'a list option" where
  "dec_each f [] = Some []"
| "dec_each f (x # xs) =
     (case f x of
        None \<Rightarrow> None
      | Some y \<Rightarrow> map_option (\<lambda>ys. y # ys) (dec_each f xs))"

lemma dec_each_length: "dec_each f xs = Some ys \<Longrightarrow> length ys = length xs"
  by (induction xs arbitrary: ys) (auto split: option.splits)

subsection \<open>Maps as association lists\<close>

text \<open>
  A Go map literal or decoded object the code ranges over. Two iteration orders of the same map are
  permutations of each other, so independence of Go's iteration order is invariance under
  \<^term>\<open>mset\<close> for lists with distinct keys.
\<close>

type_synonym 'v gomap = "(string \<times> 'v) list"

abbreviation keys_of :: "'v gomap \<Rightarrow> string list" where
  "keys_of m \<equiv> map fst m"

lemma map_of_perm:
  assumes "mset m = mset m'" and "distinct (map fst m)"
  shows "map_of m = map_of m'"
proof -
  from assms(1) have "set m = set m'" by (rule mset_eq_setD)
  moreover from assms have "distinct (map fst m')"
    by (metis mset_eq_imp_distinct_iff mset_map)
  ultimately show ?thesis using assms(2) by (metis map_of_inject_set)
qed

lemma mset_keys_perm: "mset m = mset m' \<Longrightarrow> mset (map fst m) = mset (map fst m')"
  by simp

text \<open>Sorting a permutation gives the same list: what \<^verbatim>\<open>sort.Strings\<close> makes of a ranged-over map.\<close>

lemma sort_perm:
  fixes xs ys :: "string list"
  shows "mset xs = mset ys \<Longrightarrow> sort xs = sort ys"
  by (rule properties_for_sort) (simp_all add: mset_sort)

text \<open>A prefix is determined by its length.\<close>

lemma take_length_eq: "ys = take n xs \<Longrightarrow> ys = take (length ys) xs"
  by (simp add: min_def)

lemma sort_empty [simp]: "sort (xs :: string list) = [] \<longleftrightarrow> xs = []"
  by (metis set_empty set_sort)

text \<open>Assignment to a map entry, and decoding an object into a map: a later member replaces an earlier one.\<close>

definition map_del :: "'k \<Rightarrow> ('k \<times> 'v) list \<Rightarrow> ('k \<times> 'v) list" where
  "map_del k m = filter (\<lambda>(k', _). k' \<noteq> k) m"

definition map_put :: "'k \<Rightarrow> 'v \<Rightarrow> ('k \<times> 'v) list \<Rightarrow> ('k \<times> 'v) list" where
  "map_put k v m = (k, v) # map_del k m"

lemma map_del_Nil [simp]: "map_del k [] = []"
  by (simp add: map_del_def)

lemma map_of_map_del: "map_of (map_del k m) k' = (if k' = k then None else map_of m k')"
  by (induction m) (auto simp: map_del_def)

lemma set_map_del: "set (map_del k m) = {p \<in> set m. fst p \<noteq> k}"
  by (auto simp: map_del_def)

lemma map_del_absent: "k \<notin> fst ` set m \<Longrightarrow> map_del k m = m"
  by (force simp: map_del_def filter_id_conv)

lemma map_of_map_put: "map_of (map_put k v m) k' = (if k' = k then Some v else map_of m k')"
  by (simp add: map_put_def map_of_map_del)

lemma distinct_map_del: "distinct (map f m) \<Longrightarrow> distinct (map f (map_del k m))"
  by (simp add: map_del_def distinct_map_filter)

lemma distinct_map_put: "distinct (map fst m) \<Longrightarrow> distinct (map fst (map_put k v m))"
  by (auto simp: map_put_def set_map_del distinct_map_del)

fun dec_map :: "(json \<Rightarrow> 'v option) \<Rightarrow> (string \<times> json) list \<Rightarrow> 'v gomap \<Rightarrow> 'v gomap option" where
  "dec_map f [] m = Some m"
| "dec_map f ((k, v) # kvs) m =
     (case f v of None \<Rightarrow> None | Some x \<Rightarrow> dec_map f kvs (map_put k x m))"

lemma dec_map_distinct: "dec_map f kvs m = Some m' \<Longrightarrow> distinct (keys_of m) \<Longrightarrow> distinct (keys_of m')"
  by (induction f kvs m rule: dec_map.induct) (auto split: option.splits simp: distinct_map_put)

lemma dec_map_lookup:
  "dec_map f kvs m = Some m' \<Longrightarrow> k \<notin> set (map fst kvs) \<Longrightarrow> map_of m' k = map_of m k"
  by (induction f kvs m rule: dec_map.induct) (auto split: option.splits simp: map_of_map_put)

text \<open>A member that \<^verbatim>\<open>omitempty\<close> leaves out.\<close>

definition opt_str :: "string \<Rightarrow> string \<Rightarrow> (string \<times> json) list" where
  "opt_str k s = (if s = [] then [] else [(k, JStr s)])"

text \<open>A member of an object is smaller than the object, for recursion over trees.\<close>

lemma json_member_size: "p \<in> set kvs \<Longrightarrow> size (snd p) < Suc (size_list (size_prod (\<lambda>s. 0) size) kvs)"
  by (induction kvs) auto

end
