(* ===== verification/Dispatch.thy ===== *)
theory Dispatch
  imports Go_Prelude
begin

section \<open>Concerns, operations and their resolution\<close>

text \<open>
  \<^verbatim>\<open>internal/tools/dispatch.go\<close>: the description of an operation and of a concern, the set of
  argument names an operation accepts, and \<^verbatim>\<open>Resolve\<close>, which selects an operation by name and
  refuses a call with an argument the operation does not declare or without one it requires. The
  three error values carry what the three error messages interpolate.
\<close>

subsection \<open>Data\<close>

record op_filter =
  f_arg :: string
  f_field :: string
  f_operator :: string

record op =
  op_name :: string
  op_summary :: string
  op_method :: string
  op_args :: "string list"
  op_required :: "string list"
  op_project :: "string list"
  op_filters :: "op_filter list"
  op_options :: "json gomap option"

record concern =
  c_name :: string
  c_title :: string
  c_description :: string
  c_ops :: "op list"

text \<open>An operation all of whose optional declarations are left at Go's zero value.\<close>

definition op_zero :: op where
  "op_zero = \<lparr>op_name = [], op_summary = [], op_method = [], op_args = [], op_required = [],
     op_project = [], op_filters = [], op_options = None\<rparr>"

datatype resolve_error =
    UnknownOperation string string "string list"   \<comment> \<open>operation, concern, valid operations\<close>
  | NotAccepted string "string list" "string list"  \<comment> \<open>operation, unexpected, accepted\<close>
  | Requires string "string list"                   \<comment> \<open>operation, missing\<close>

subsection \<open>Operations\<close>

definition OpNames :: "concern \<Rightarrow> string list" where
  "OpNames c = map op_name (c_ops c)"

text \<open>One pass of the loop that collects names not seen before.\<close>

definition add_unseen :: "string list \<Rightarrow> string list \<Rightarrow> string list" where
  "add_unseen out xs = foldl (\<lambda>out a. if a \<in> set out then out else out @ [a]) out xs"

definition acceptedArgs :: "op \<Rightarrow> string list" where
  "acceptedArgs op = add_unseen (add_unseen [] (op_args op)) (map f_arg (op_filters op))"

text \<open>A required argument counts as supplied when it is there, not \<^verbatim>\<open>nil\<close> and not the empty string.\<close>

definition supplied :: "json gomap \<Rightarrow> string \<Rightarrow> bool" where
  "supplied args name =
     (case map_of args name of None \<Rightarrow> False | Some v \<Rightarrow> v \<noteq> JNull \<and> v \<noteq> JStr [])"

definition Resolve :: "concern \<Rightarrow> string \<Rightarrow> json gomap \<Rightarrow> resolve_error + op" where
  "Resolve c opName args =
     (case find (\<lambda>op. op_name op = opName) (c_ops c) of
        None \<Rightarrow> Inl (UnknownOperation opName (c_name c) (OpNames c))
      | Some op \<Rightarrow>
          let accepted = acceptedArgs op;
              unexpected = filter (\<lambda>n. n \<notin> set accepted) (keys_of args);
              missing = filter (\<lambda>n. \<not> supplied args n) (op_required op)
          in if unexpected \<noteq> [] then Inl (NotAccepted opName (sort unexpected) accepted)
             else if missing \<noteq> [] then Inl (Requires opName (sort missing))
             else Inr op)"

text \<open>The tool description a model reads: one line per operation, in declaration order.\<close>

definition op_line :: "op \<Rightarrow> string" where
  "op_line op =
     ''  '' @ op_name op @ '' '' @ [CHR 0xE2, CHR 0x80, CHR 0x94] @ '' '' @ op_summary op @
     (if op_required op \<noteq> [] then '' (requires '' @ join_str '', '' (op_required op) @ '')'' else []) @
     [CHR 0x0A]"

definition ToolDescription :: "concern \<Rightarrow> string" where
  "ToolDescription c =
     c_description c @ [CHR 0x0A, CHR 0x0A] @ ''Operations:'' @ [CHR 0x0A] @
     concat (map op_line (c_ops c))"

subsection \<open>The accept set\<close>

lemma set_add_unseen: "set (add_unseen out xs) = set out \<union> set xs"
  unfolding add_unseen_def by (induction xs arbitrary: out) auto

lemma distinct_add_unseen: "distinct out \<Longrightarrow> distinct (add_unseen out xs)"
  unfolding add_unseen_def by (induction xs arbitrary: out) auto

lemma set_acceptedArgs: "set (acceptedArgs op) = set (op_args op) \<union> f_arg ` set (op_filters op)"
  by (simp add: acceptedArgs_def set_add_unseen)

lemma distinct_acceptedArgs: "distinct (acceptedArgs op)"
  by (simp add: acceptedArgs_def distinct_add_unseen)

subsection \<open>Resolution\<close>

lemma find_op_Some:
  assumes "find (\<lambda>op. op_name op = n) ops = Some op"
  shows "op \<in> set ops \<and> op_name op = n"
  using assms by (auto simp: find_Some_iff)

lemma find_op_distinct:
  assumes "distinct (map op_name ops)" and "op \<in> set ops"
  shows "find (\<lambda>o'. op_name o' = op_name op) ops = Some op"
  using assms by (induction ops) (auto simp: image_iff)

lemma filter_empty_subset: "filter (\<lambda>n. n \<notin> A) xs = [] \<longleftrightarrow> set xs \<subseteq> A"
  by (auto simp: filter_empty_conv)

lemma filter_unsupplied_empty:
  "filter (\<lambda>n. \<not> supplied args n) xs = [] \<longleftrightarrow> set xs \<subseteq> {n. supplied args n}"
  by (auto simp: filter_empty_conv)

lemmas resolve_simps = Resolve_def Let_def filter_empty_subset filter_unsupplied_empty

lemma Resolve_in_ops: "Resolve c n args = Inr op \<Longrightarrow> op \<in> set (c_ops c) \<and> op_name op = n"
  by (auto simp: resolve_simps dest: find_op_Some split: option.splits if_splits)

lemma supplied_perm: "map_of args = map_of args' \<Longrightarrow> supplied args = supplied args'"
  by (rule ext) (simp add: supplied_def)

subsection \<open>The interface to the tools\<close>

text \<open>
  What a tool built on a concern relies on: resolution yields one of the table's operations, the one
  named, and only for arguments it declares. Whatever holds of every operation of the table then holds
  of the resolved one.
\<close>

locale op_table =
  fixes ops :: "'c \<Rightarrow> op list"
    and resolve :: "'c \<Rightarrow> string \<Rightarrow> json gomap \<Rightarrow> 'e + op"
  assumes resolve_from_table: "resolve c n args = Inr op \<Longrightarrow> op \<in> set (ops c) \<and> op_name op = n"
    and resolve_declared: "resolve c n args = Inr op \<Longrightarrow> set (keys_of args) \<subseteq> set (acceptedArgs op)"
begin

lemma resolved_all: "list_all P (ops c) \<Longrightarrow> resolve c n args = Inr op \<Longrightarrow> P op"
  by (auto simp: list_all_iff dest: resolve_from_table)

lemma undeclared_refused:
  "a \<in> set (keys_of args) \<Longrightarrow> list_all (\<lambda>op. a \<notin> set (acceptedArgs op)) (ops c) \<Longrightarrow>
     \<exists>e. resolve c n args = Inl e"
proof (cases "resolve c n args")
  case (Inr op)
  assume a: "a \<in> set (keys_of args)" and none: "list_all (\<lambda>op. a \<notin> set (acceptedArgs op)) (ops c)"
  from none Inr have "a \<notin> set (acceptedArgs op)" by (rule resolved_all)
  with a resolve_declared [OF Inr] show ?thesis by blast
qed simp

end

interpretation concerns: op_table c_ops Resolve
proof unfold_locales
  fix c n args op
  assume r: "Resolve c n args = Inr op"
  then show "op \<in> set (c_ops c) \<and> op_name op = n" by (rule Resolve_in_ops)
  from r show "set (keys_of args) \<subseteq> set (acceptedArgs op)"
    by (auto simp: resolve_simps split: option.splits if_splits)
qed

subsection \<open>Properties\<close>

text \<open>
  A call resolves to an operation exactly when that operation is the first of the concern with the
  requested name, every supplied argument is one the operation declares, positionally or as a filter,
  and every required argument is supplied with a value.
\<close>

theorem Resolve_ok_iff:
  "Resolve c n args = Inr op \<longleftrightarrow>
     find (\<lambda>o'. op_name o' = n) (c_ops c) = Some op \<and>
     set (keys_of args) \<subseteq> set (op_args op) \<union> f_arg ` set (op_filters op) \<and>
     set (op_required op) \<subseteq> {a. supplied args a}"
  by (auto simp: resolve_simps set_acceptedArgs split: option.splits)

text \<open>
  The outcome, error values included, does not depend on the order in which Go happens to range
  over the argument map: the names are sorted before they are reported.
\<close>

theorem Resolve_order_independent:
  assumes "mset args = mset args'" and "distinct (keys_of args)"
  shows "Resolve c n args = Resolve c n args'"
proof -
  have m: "map_of args = map_of args'" using assms by (rule map_of_perm)
  have keys: "sort (filter P (keys_of args)) = sort (filter P (keys_of args'))" for P
    by (rule sort_perm) (metis mset_filter mset_keys_perm [OF assms(1)])
  have empty: "filter P (keys_of args) = [] \<longleftrightarrow> filter P (keys_of args') = []" for P
    using mset_keys_perm [OF assms(1)] by (metis mset_filter mset_zero_iff)
  show ?thesis
    unfolding Resolve_def Let_def by (simp add: keys empty supplied_perm [OF m] split: option.split)
qed

lemma Resolve_order_independent_witness:
  "Resolve \<lparr>c_name = ''c'', c_title = [], c_description = [],
             c_ops = [op_zero\<lparr>op_name := ''o'', op_args := [''id'']\<rparr>]\<rparr> ''o''
       [(''zz'', JStr ''1''), (''aa'', JStr ''2'')] = Inl (NotAccepted ''o'' [''aa'', ''zz''] [''id'']) \<and>
   Resolve \<lparr>c_name = ''c'', c_title = [], c_description = [],
             c_ops = [op_zero\<lparr>op_name := ''o'', op_args := [''id'']\<rparr>]\<rparr> ''o''
       [(''aa'', JStr ''2''), (''zz'', JStr ''1'')] = Inl (NotAccepted ''o'' [''aa'', ''zz''] [''id''])"
proof -
  let ?c = "\<lparr>c_name = ''c'', c_title = [], c_description = [],
             c_ops = [op_zero\<lparr>op_name := ''o'', op_args := [''id'']\<rparr>]\<rparr>"
  have "Resolve ?c ''o'' [(''zz'', JStr ''1''), (''aa'', JStr ''2'')] =
        Resolve ?c ''o'' [(''aa'', JStr ''2''), (''zz'', JStr ''1'')]"
    by (rule Resolve_order_independent) (simp_all add: add_mset_commute)
  moreover have "Resolve ?c ''o'' [(''aa'', JStr ''2''), (''zz'', JStr ''1'')] =
      Inl (NotAccepted ''o'' [''aa'', ''zz''] [''id''])"
    by (simp add: Resolve_def op_zero_def acceptedArgs_def add_unseen_def)
  ultimately show ?thesis by simp
qed

text \<open>
  A refusal says exactly what was wrong: an unknown operation only when no operation has the name;
  the unexpected names are, in order, the supplied names the operation does not declare; the missing
  names are, in order, the required names without a value.
\<close>

theorem Resolve_refusal_exact:
  "case Resolve c n args of
     Inl (UnknownOperation n' cn valid) \<Rightarrow>
       n' = n \<and> cn = c_name c \<and> valid = map op_name (c_ops c) \<and> n \<notin> set valid
   | Inl (NotAccepted n' bad accepted) \<Rightarrow>
       n' = n \<and> sorted bad \<and> bad \<noteq> [] \<and> set bad = set (keys_of args) - set accepted \<and> distinct accepted
   | Inl (Requires n' missing) \<Rightarrow>
       n' = n \<and> sorted missing \<and> missing \<noteq> [] \<and> set missing \<inter> {a. supplied args a} = {}
   | Inr op \<Rightarrow> set (op_required op) \<subseteq> {a. supplied args a}"
proof (cases "find (\<lambda>op. op_name op = n) (c_ops c)")
  case None
  then have "n \<notin> op_name ` set (c_ops c)" by (auto simp: find_None_iff)
  with None show ?thesis by (simp add: Resolve_def OpNames_def)
next
  case (Some op)
  then show ?thesis
    by (auto simp: Resolve_def Let_def distinct_acceptedArgs filter_empty_conv)
qed

end
