(* ===== verification/Safety.thy ===== *)
theory Safety
  imports Go_Prelude
begin

section \<open>The permanent denylist\<close>

text \<open>
  \<^verbatim>\<open>internal/tools/safety.go\<close>: the denials, which are a constant of the program, the check every
  path to a middleware method runs, and the refusal it returns. An entry denies a method in every
  form, or only the calls in which one boolean argument is true. The locale \<open>deny_gate\<close> states what
  the handlers rely on: a refusal never goes away when arguments are added.
\<close>

subsection \<open>The entries and the check\<close>

record denial =
  dn_method :: string
  dn_arg :: string
  dn_reason :: string

definition denials :: "denial list" where
  "denials =
     [\<lparr>dn_method = ''pool.export'', dn_arg = [],
       dn_reason = ''exporting a pool removes access to every byte on it''\<rparr>,
      \<lparr>dn_method = ''pool.dataset.delete'', dn_arg = [],
       dn_reason = ''deleting a dataset destroys its data and snapshots''\<rparr>,
      \<lparr>dn_method = ''disk.wipe'', dn_arg = [],
       dn_reason = ''wiping a disk is unrecoverable''\<rparr>,
      \<lparr>dn_method = ''boot.detach'', dn_arg = [],
       dn_reason = ''detaching a boot device can leave the system unbootable''\<rparr>,
      \<lparr>dn_method = ''pool.dataset.destroy_snapshots'', dn_arg = [],
       dn_reason = ''destroying snapshots removes the ability to recover''\<rparr>,
      \<lparr>dn_method = ''app.delete'', dn_arg = ''remove_ixvolumes'',
       dn_reason = ''removing an app's volumes destroys its data; deleting the app alone is recoverable''\<rparr>,
      \<lparr>dn_method = ''pool.dataset.delete'', dn_arg = ''recursive'',
       dn_reason = ''recursive deletion destroys every child dataset''\<rparr>,
      \<lparr>dn_method = ''filesystem.setacl'', dn_arg = ''recursive'',
       dn_reason = ''applying an ACL recursively rewrites permissions on every child and cannot be undone without knowing the previous ones''\<rparr>,
      \<lparr>dn_method = ''filesystem.setacl'', dn_arg = ''traverse'',
       dn_reason = ''traversing filesystem boundaries extends an ACL change beyond the dataset it was aimed at''\<rparr>,
      \<lparr>dn_method = ''filesystem.setacl'', dn_arg = ''stripacl'',
       dn_reason = ''stripping an ACL discards the existing permissions rather than editing them''\<rparr>]"

datatype denied_error = DeniedError (de_method: string) (de_arg: string) (de_reason: string)

text \<open>The message of a refusal.\<close>

definition denied_error_text :: "denied_error \<Rightarrow> string" where
  "denied_error_text e =
     (if de_arg e \<noteq> []
      then ''refusing '' @ de_method e @ '' with '' @ de_arg e @ ''=true: '' @ de_reason e @
           ''. This cannot be enabled by configuration; use the TrueNAS web interface if you need it.''
      else ''refusing '' @ de_method e @ '': '' @ de_reason e @
           ''. This cannot be enabled by configuration; use the TrueNAS web interface if you need it.'')"

text \<open>\<^verbatim>\<open>isTrue\<close> of a map lookup: an absent key gives \<^verbatim>\<open>nil\<close>, which is not a boolean.\<close>

definition isTrue :: "json option \<Rightarrow> bool" where
  "isTrue v \<longleftrightarrow> v = Some (JBool True)"

fun check_denials :: "denial list \<Rightarrow> string \<Rightarrow> json gomap \<Rightarrow> denied_error option" where
  "check_denials [] meth args = None"
| "check_denials (d # ds) meth args =
     (if dn_method d \<noteq> meth then check_denials ds meth args
      else if dn_arg d = [] then Some (DeniedError (dn_method d) [] (dn_reason d))
      else if isTrue (map_of args (dn_arg d)) then Some (DeniedError (dn_method d) (dn_arg d) (dn_reason d))
      else check_denials ds meth args)"

definition CheckDenied :: "string \<Rightarrow> json gomap \<Rightarrow> denied_error option" where
  "CheckDenied meth args = check_denials denials meth args"

definition DeniedMethods :: "string list" where
  "DeniedMethods = map dn_method (filter (\<lambda>d. dn_arg d = []) denials)"

subsection \<open>What the check decides\<close>

text \<open>An entry applies to a call: its method matches and its argument, if it names one, is true.\<close>

definition applies :: "denial \<Rightarrow> string \<Rightarrow> json gomap \<Rightarrow> bool" where
  "applies d meth args \<longleftrightarrow>
     dn_method d = meth \<and> (dn_arg d = [] \<or> isTrue (map_of args (dn_arg d)))"

lemma check_denials_None:
  "check_denials ds meth args = None \<longleftrightarrow> (\<forall>d \<in> set ds. \<not> applies d meth args)"
  by (induction ds) (auto simp: applies_def)

lemma check_denials_Some:
  "check_denials ds meth args = Some e \<Longrightarrow>
     \<exists>d \<in> set ds. applies d meth args \<and> e = DeniedError meth (dn_arg d) (dn_reason d)"
  by (induction ds) (auto simp: applies_def split: if_splits)

lemma check_denials_mono:
  assumes "check_denials ds meth args = Some e"
    and "\<And>a. isTrue (map_of args a) \<Longrightarrow> isTrue (map_of args' a)"
  shows "check_denials ds meth args' \<noteq> None"
proof -
  from check_denials_Some [OF assms(1)] obtain d where "d \<in> set ds" "applies d meth args" by blast
  with assms(2) have "applies d meth args'" by (auto simp: applies_def)
  with \<open>d \<in> set ds\<close> show ?thesis by (auto simp: check_denials_None)
qed

subsection \<open>The interface of the gate\<close>

text \<open>
  What a handler knows of the check it calls: an argument map in which every true flag stays true is
  refused whenever the smaller one was. So a method refused for no arguments at all is refused in
  every call, and a call let through is let through with fewer flags set.
\<close>

locale deny_gate =
  fixes denied :: "string \<Rightarrow> json gomap \<Rightarrow> 'e option"
  assumes denied_mono:
    "denied meth args = Some e \<Longrightarrow> (\<And>a. isTrue (map_of args a) \<Longrightarrow> isTrue (map_of args' a)) \<Longrightarrow>
       denied meth args' \<noteq> None"
begin

lemma denied_always: "denied meth [] \<noteq> None \<Longrightarrow> denied meth args \<noteq> None"
  using denied_mono [of meth "[]" _ args] by (auto simp: isTrue_def)

lemma permitted_bare: "denied meth args = None \<Longrightarrow> denied meth [] = None"
  using denied_always by blast

lemma permitted_fewer:
  assumes "denied meth args = None" and "\<And>a. isTrue (map_of args' a) \<Longrightarrow> isTrue (map_of args a)"
  shows "denied meth args' = None"
  using denied_mono [of meth args' _ args] assms by (cases "denied meth args'") auto

end

interpretation gate: deny_gate CheckDenied
  by unfold_locales (auto simp: CheckDenied_def dest: check_denials_mono)

text \<open>A refusal names the method it was asked about, and an argument only when that argument is true.\<close>

lemma CheckDenied_names_cause:
  assumes "CheckDenied meth args = Some e"
  shows "de_method e = meth \<and> (de_arg e = [] \<or> isTrue (map_of args (de_arg e)))"
  using check_denials_Some [OF assms [unfolded CheckDenied_def]] by (auto simp: applies_def)

lemma DeniedMethods_eq:
  "DeniedMethods = [''pool.export'', ''pool.dataset.delete'', ''disk.wipe'', ''boot.detach'',
     ''pool.dataset.destroy_snapshots'']"
  by (simp add: DeniedMethods_def denials_def)

lemma denied_bare_iff: "CheckDenied meth [] = None \<longleftrightarrow> meth \<notin> set DeniedMethods"
  by (auto simp: CheckDenied_def check_denials_None DeniedMethods_def applies_def isTrue_def)

lemma CheckDenied_unlisted: "meth \<notin> set (map dn_method denials) \<Longrightarrow> CheckDenied meth args = None"
  by (auto simp: CheckDenied_def check_denials_None applies_def)

subsection \<open>Properties\<close>

text \<open>
  C5. The denylist as a whole: a call is let through exactly when its method is none of the five
  unrecoverable ones and it is neither an app deletion that also removes volumes nor an ACL change
  that is recursive, traverses file systems or strips the ACL. No other argument matters.
\<close>

theorem CheckDenied_decides:
  "CheckDenied meth args = None \<longleftrightarrow>
     meth \<notin> {''pool.export'', ''pool.dataset.delete'', ''disk.wipe'', ''boot.detach'',
              ''pool.dataset.destroy_snapshots''} \<and>
     \<not> (meth = ''app.delete'' \<and> isTrue (map_of args ''remove_ixvolumes'')) \<and>
     \<not> (meth = ''filesystem.setacl'' \<and>
          (isTrue (map_of args ''recursive'') \<or> isTrue (map_of args ''traverse'') \<or>
           isTrue (map_of args ''stripacl'')))"
  by (cases "meth = ''app.delete''"; cases "meth = ''filesystem.setacl''";
      auto simp: CheckDenied_def check_denials_None denials_def applies_def)

end
