(* ===== verification/Concerns.thy ===== *)
theory Concerns
  imports Dispatch Safety
begin

section \<open>The read surface\<close>

text \<open>
  \<^verbatim>\<open>internal/tools/concerns.go\<close>: the eight concern tables, with every operation as the source declares
  it (name, summary, middleware method, arguments, filters, projection and constant options), and what
  makes the tables usable by the resolver and harmless: names are unique, every operation can be called
  with the arguments it requires, and no operation reaches a denied method.
\<close>

subsection \<open>The tables\<close>

definition Storage :: concern where
  "Storage =
     \<lparr>c_name = ''storage'',
      c_title = ''Storage: pools, datasets, snapshots'',
      c_description = ''Read pools, datasets, and snapshots on the TrueNAS target.'',
      c_ops =
       [op_zero\<lparr>op_name := ''list_pools'',
          op_summary := ''every pool with its capacity and health'',
          op_method := ''pool.query''\<rparr>,
        op_zero\<lparr>op_name := ''show_pool'',
          op_summary := ''one pool in full'',
          op_method := ''pool.get_instance'',
          op_args := [''id''],
          op_required := [''id'']\<rparr>,
        op_zero\<lparr>op_name := ''list_datasets'',
          op_summary := ''datasets with usage; narrow with pool'',
          op_method := ''pool.dataset.query'',
          op_filters := [\<lparr>f_arg = ''pool'', f_field = ''pool'', f_operator = ''=''\<rparr>]\<rparr>,
        op_zero\<lparr>op_name := ''show_dataset'',
          op_summary := ''one dataset in full, by name such as tank/media'',
          op_method := ''pool.dataset.get_instance'',
          op_args := [''id''],
          op_required := [''id'']\<rparr>,
        op_zero\<lparr>op_name := ''list_snapshots'',
          op_summary := ''snapshots; narrow with dataset'',
          op_method := ''pool.snapshot.query'',
          op_filters := [\<lparr>f_arg = ''dataset'', f_field = ''dataset'', f_operator = ''=''\<rparr>]\<rparr>]\<rparr>"

definition System :: concern where
  "System =
     \<lparr>c_name = ''system'',
      c_title = ''System health and alerts'',
      c_description = ''Read the TrueNAS target's identity, health, and alerts.'',
      c_ops =
       [op_zero\<lparr>op_name := ''info'',
          op_summary := ''version, hostname, uptime, and hardware'',
          op_method := ''system.info''\<rparr>,
        op_zero\<lparr>op_name := ''alerts'',
          op_summary := ''current alerts, the first thing to check when something is wrong'',
          op_method := ''alert.list''\<rparr>,
        op_zero\<lparr>op_name := ''list_services'',
          op_summary := ''services and whether they are running'',
          op_method := ''service.query''\<rparr>,
        op_zero\<lparr>op_name := ''update_status'',
          op_summary := ''whether a TrueNAS update is available'',
          op_method := ''update.status''\<rparr>,
        op_zero\<lparr>op_name := ''version'',
          op_summary := ''the exact TrueNAS release running'',
          op_method := ''system.version''\<rparr>,
        op_zero\<lparr>op_name := ''audit_log'',
          op_summary := ''recent audited actions, for seeing what changed on the system'',
          op_method := ''audit.query'',
          op_project := [''message_timestamp'', ''event'', ''username'', ''address'', ''service'', ''success'', ''event_data''],
          op_options := Some [(''query-options'', JObj [(''order_by'', JArr [JStr ''-message_timestamp''])])]\<rparr>]\<rparr>"

definition Apps :: concern where
  "Apps =
     \<lparr>c_name = ''apps'',
      c_title = ''Installed applications'',
      c_description = ''Read installed applications, their state, and what needs updating.'',
      c_ops =
       [op_zero\<lparr>op_name := ''list'',
          op_summary := ''installed apps with their state'',
          op_method := ''app.query'',
          op_project := [''name'', ''state'', ''version'', ''upgrade_available'', ''image_updates_available'']\<rparr>,
        op_zero\<lparr>op_name := ''show'',
          op_summary := ''one app in full'',
          op_method := ''app.get_instance'',
          op_args := [''name''],
          op_required := [''name'']\<rparr>,
        op_zero\<lparr>op_name := ''config'',
          op_summary := ''an app's current configuration; app.update expects this same object back in full as values, not a partial patch'',
          op_method := ''app.config'',
          op_args := [''name''],
          op_required := [''name'']\<rparr>,
        op_zero\<lparr>op_name := ''outdated_images'',
          op_summary := ''whether one app is running images that are out of date'',
          op_method := ''app.outdated_docker_images'',
          op_args := [''name''],
          op_required := [''name'']\<rparr>,
        op_zero\<lparr>op_name := ''upgrade_summary'',
          op_summary := ''what upgrading an app would change, before doing it'',
          op_method := ''app.upgrade_summary'',
          op_args := [''name''],
          op_required := [''name'']\<rparr>,
        op_zero\<lparr>op_name := ''rollback_versions'',
          op_summary := ''which versions an app can be rolled back to'',
          op_method := ''app.rollback_versions'',
          op_args := [''name''],
          op_required := [''name'']\<rparr>,
        op_zero\<lparr>op_name := ''used_ports'',
          op_summary := ''host ports already taken, useful before exposing a new app'',
          op_method := ''app.used_ports''\<rparr>,
        op_zero\<lparr>op_name := ''containers'',
          op_summary := ''the containers an app runs, with their service names and IDs'',
          op_method := ''app.container_ids'',
          op_args := [''name''],
          op_required := [''name'']\<rparr>,
        op_zero\<lparr>op_name := ''logs'',
          op_summary := ''the bounded tail of one app container's logs, with timestamps'',
          op_args := [''name'', ''container''],
          op_required := [''name'']\<rparr>,
        op_zero\<lparr>op_name := ''images'',
          op_summary := ''every image's digest and tags, plus a per-image update_available boolean; match a tag from containers against repo_tags to learn exactly which image a running container executes. Prefer update_available here over outdated_images, whose empty result cannot distinguish \"nothing outdated\" from \"could not tell\"'',
          op_method := ''app.image.query'',
          op_project := [''id'', ''repo_tags'', ''repo_digests'', ''update_available'']\<rparr>]\<rparr>"

definition Catalog :: concern where
  "Catalog =
     \<lparr>c_name = ''catalog'',
      c_title = ''Applications available to install'',
      c_description = ''Browse the catalog of applications that can be installed. Distinct from apps, which covers only what is already installed on this system.'',
      c_ops =
       [op_zero\<lparr>op_name := ''list'',
          op_summary := ''browse the catalog; narrow with category'',
          op_method := ''app.available'',
          op_project := [''name'', ''title'', ''categories'', ''train'', ''latest_version'', ''latest_app_version'', ''installed''],
          op_filters := [\<lparr>f_arg = ''category'', f_field = ''categories'', f_operator = ''rin''\<rparr>]\<rparr>,
        op_zero\<lparr>op_name := ''categories'',
          op_summary := ''the category vocabulary, so list can be narrowed without guessing a name'',
          op_method := ''app.categories''\<rparr>,
        op_zero\<lparr>op_name := ''show'',
          op_summary := ''one catalog entry in full, by name'',
          op_method := ''app.available'',
          op_required := [''name''],
          op_filters := [\<lparr>f_arg = ''name'', f_field = ''name'', f_operator = ''=''\<rparr>]\<rparr>]\<rparr>"

definition Virtualization :: concern where
  "Virtualization =
     \<lparr>c_name = ''virtualization'',
      c_title = ''Virtual machines and system containers'',
      c_description = ''Read virtual machines and system containers on the TrueNAS target.'',
      c_ops =
       [op_zero\<lparr>op_name := ''list_vms'',
          op_summary := ''virtual machines and their state'',
          op_method := ''vm.query''\<rparr>,
        op_zero\<lparr>op_name := ''show_vm'',
          op_summary := ''one virtual machine in full'',
          op_method := ''vm.get_instance'',
          op_args := [''id''],
          op_required := [''id'']\<rparr>,
        op_zero\<lparr>op_name := ''vm_devices'',
          op_summary := ''devices attached to virtual machines'',
          op_method := ''vm.device.query''\<rparr>,
        op_zero\<lparr>op_name := ''list_containers'',
          op_summary := ''system containers and their state'',
          op_method := ''container.query''\<rparr>,
        op_zero\<lparr>op_name := ''show_container'',
          op_summary := ''one system container in full'',
          op_method := ''container.get_instance'',
          op_args := [''id''],
          op_required := [''id'']\<rparr>,
        op_zero\<lparr>op_name := ''container_devices'',
          op_summary := ''devices attached to containers'',
          op_method := ''container.device.query''\<rparr>]\<rparr>"

definition Sharing :: concern where
  "Sharing =
     \<lparr>c_name = ''sharing'',
      c_title = ''File shares: SMB, NFS, web'',
      c_description = ''Read the shares exposing this system's data, and who can reach them.'',
      c_ops =
       [op_zero\<lparr>op_name := ''list_smb'',
          op_summary := ''SMB shares'',
          op_method := ''sharing.smb.query''\<rparr>,
        op_zero\<lparr>op_name := ''show_smb'',
          op_summary := ''one SMB share in full'',
          op_method := ''sharing.smb.get_instance'',
          op_args := [''id''],
          op_required := [''id'']\<rparr>,
        op_zero\<lparr>op_name := ''smb_acl'',
          op_summary := ''who may access an SMB share'',
          op_method := ''sharing.smb.getacl'',
          op_args := [''id''],
          op_required := [''id'']\<rparr>,
        op_zero\<lparr>op_name := ''list_nfs'',
          op_summary := ''NFS exports'',
          op_method := ''sharing.nfs.query''\<rparr>,
        op_zero\<lparr>op_name := ''show_nfs'',
          op_summary := ''one NFS export in full'',
          op_method := ''sharing.nfs.get_instance'',
          op_args := [''id''],
          op_required := [''id'']\<rparr>,
        op_zero\<lparr>op_name := ''list_web'',
          op_summary := ''web shares'',
          op_method := ''sharing.webshare.query''\<rparr>]\<rparr>"

definition Backup :: concern where
  "Backup =
     \<lparr>c_name = ''backup'',
      c_title = ''Backups: cloud sync, replication, rsync, snapshot tasks'',
      c_description = ''Read the tasks that copy this system's data elsewhere.'',
      c_ops =
       [op_zero\<lparr>op_name := ''list_cloud_syncs'',
          op_summary := ''cloud sync tasks and their last result'',
          op_method := ''cloudsync.query''\<rparr>,
        op_zero\<lparr>op_name := ''show_cloud_sync'',
          op_summary := ''one cloud sync task in full'',
          op_method := ''cloudsync.get_instance'',
          op_args := [''id''],
          op_required := [''id'']\<rparr>,
        op_zero\<lparr>op_name := ''cloud_credentials'',
          op_summary := ''configured cloud credentials, without secrets'',
          op_method := ''cloudsync.credentials.query''\<rparr>,
        op_zero\<lparr>op_name := ''list_replications'',
          op_summary := ''replication tasks and their state'',
          op_method := ''replication.query''\<rparr>,
        op_zero\<lparr>op_name := ''show_replication'',
          op_summary := ''one replication task in full'',
          op_method := ''replication.get_instance'',
          op_args := [''id''],
          op_required := [''id'']\<rparr>,
        op_zero\<lparr>op_name := ''list_rsync_tasks'',
          op_summary := ''rsync tasks'',
          op_method := ''rsynctask.query''\<rparr>,
        op_zero\<lparr>op_name := ''list_snapshot_tasks'',
          op_summary := ''periodic snapshot tasks and retention'',
          op_method := ''pool.snapshottask.query''\<rparr>]\<rparr>"

definition Filesystem :: concern where
  "Filesystem =
     \<lparr>c_name = ''filesystem'',
      c_title = ''Files and permissions'',
      c_description = ''Inspect paths on the TrueNAS target: contents, size, and access control.'',
      c_ops =
       [op_zero\<lparr>op_name := ''list_directory'',
          op_summary := ''what is in a path'',
          op_method := ''filesystem.listdir'',
          op_args := [''path''],
          op_required := [''path'']\<rparr>,
        op_zero\<lparr>op_name := ''stat'',
          op_summary := ''size, timestamps, and ownership of one path'',
          op_method := ''filesystem.stat'',
          op_args := [''path''],
          op_required := [''path'']\<rparr>,
        op_zero\<lparr>op_name := ''space'',
          op_summary := ''space used and available at a path'',
          op_method := ''filesystem.statfs'',
          op_args := [''path''],
          op_required := [''path'']\<rparr>,
        op_zero\<lparr>op_name := ''acl'',
          op_summary := ''who may access a path'',
          op_method := ''filesystem.getacl'',
          op_args := [''path''],
          op_required := [''path'']\<rparr>,
        op_zero\<lparr>op_name := ''read'',
          op_summary := ''the text of one file, cut off at 64 KiB; needs a full-admin API key'',
          op_args := [''path''],
          op_required := [''path'']\<rparr>]\<rparr>"

definition ReadConcerns :: "concern list" where
  "ReadConcerns =
     [Storage, System, Apps, Sharing, Virtualization, Backup, Filesystem, Catalog]"

lemmas concern_defs =
  Storage_def System_def Apps_def Catalog_def Virtualization_def Sharing_def Backup_def Filesystem_def

subsection \<open>Well-formed tables\<close>

text \<open>
  The argument names a dispatch tool can supply, those that become the one positional parameter, and
  what the resolver and the parameter builder need of an operation and of a concern.
\<close>

definition dispatch_args :: "string list" where
  "dispatch_args = [''id'', ''name'', ''container'', ''pool'', ''dataset'', ''path'', ''category'']"

definition positional_args :: "string list" where
  "positional_args = [''id'', ''name'', ''path'']"

definition op_wf :: "op \<Rightarrow> bool" where
  "op_wf op \<longleftrightarrow>
     op_name op \<noteq> [] \<and>
     set (op_required op) \<subseteq> set (acceptedArgs op) \<and> distinct (op_required op) \<and>
     set (acceptedArgs op) \<subseteq> set dispatch_args \<and>
     length (filter (\<lambda>a. a \<in> set positional_args) (op_args op)) \<le> 1 \<and>
     (op_options op = None \<or> op_filters op = [] \<and> op_args op = []) \<and>
     CheckDenied (op_method op) [] = None"

definition concern_wf :: "concern \<Rightarrow> bool" where
  "concern_wf c \<longleftrightarrow> distinct (OpNames c) \<and> list_all op_wf (c_ops c)"

text \<open>The operations the dispatcher does not send to the middleware as a plain call.\<close>

definition special_ops :: "(string \<times> string) list" where
  "special_ops = [(''apps'', ''logs''), (''filesystem'', ''read'')]"

lemmas table_simps =
  concern_defs OpNames_def acceptedArgs_def add_unseen_def op_zero_def dispatch_args_def
  positional_args_def special_ops_def

lemma op_wf_zero [simp]: "CheckDenied [] [] = None"
  by (simp add: denied_bare_iff DeniedMethods_eq)

lemma concern_wf_each:
  "concern_wf Storage" "concern_wf System" "concern_wf Apps" "concern_wf Sharing"
  "concern_wf Virtualization" "concern_wf Backup" "concern_wf Filesystem" "concern_wf Catalog"
  by (simp_all add: concern_wf_def op_wf_def table_simps denied_bare_iff DeniedMethods_eq)

lemma ReadConcerns_concern_wf: "list_all concern_wf ReadConcerns"
  by (simp add: ReadConcerns_def concern_wf_each)

lemma op_supplied_resolves:
  assumes wf: "concern_wf c" and op: "op \<in> set (c_ops c)" and v: "v \<noteq> []"
  shows "Resolve c (op_name op) (map (\<lambda>a. (a, JStr v)) (op_required op)) = Inr op"
proof -
  let ?args = "map (\<lambda>a. (a, JStr v)) (op_required op)"
  from wf op have find: "find (\<lambda>o'. op_name o' = op_name op) (c_ops c) = Some op"
    by (intro find_op_distinct) (simp_all add: concern_wf_def OpNames_def)
  from wf op have req: "set (op_required op) \<subseteq> set (acceptedArgs op)"
    by (auto simp: concern_wf_def op_wf_def list_all_iff)
  have "map_of ?args a = (if a \<in> set (op_required op) then Some (JStr v) else None)" for a
    by (induction "op_required op") (auto simp: map_of_map_restrict restrict_map_def)
  with v have "set (op_required op) \<subseteq> {a. supplied ?args a}" by (auto simp: supplied_def)
  with find req show ?thesis
    by (auto simp: resolve_simps comp_def)
qed

subsection \<open>Properties\<close>


text \<open>
  No operation is unreachable: each one of each concern resolves, to itself, when its required
  arguments are supplied with any non-empty value and nothing else is.
\<close>

theorem every_op_resolves:
  assumes "v \<noteq> []"
  shows "list_all (\<lambda>c. list_all (\<lambda>op.
           Resolve c (op_name op) (map (\<lambda>a. (a, JStr v)) (op_required op)) = Inr op) (c_ops c)) ReadConcerns"
  using ReadConcerns_concern_wf op_supplied_resolves [OF _ _ assms] by (auto simp: list_all_iff)

lemma every_op_resolves_witness:
  "Resolve Storage ''show_pool'' [(''id'', JStr ''7'')] =
     Inr (op_zero\<lparr>op_name := ''show_pool'', op_summary := ''one pool in full'',
           op_method := ''pool.get_instance'', op_args := [''id''], op_required := [''id'']\<rparr>)"
  using every_op_resolves [of "''7''"]
  by (simp add: ReadConcerns_def Storage_def op_zero_def)

end
