(* ===== verification/Middleware.thy ===== *)
theory Middleware
  imports Go_Prelude
begin

section \<open>Errors and the middleware as the callers see it\<close>

text \<open>
  \<^verbatim>\<open>internal/truenas/errors.go\<close> and the error handling of \<^verbatim>\<open>internal/truenas/client.go\<close>: the sentinel
  errors, the target's own error, what \<^verbatim>\<open>errors.Is\<close> and \<^verbatim>\<open>errors.As\<close> see of a chain, how a target error
  is classified and how the API key is kept out of an error text.

  The middleware itself is not part of the program, so it is a parameter of every definition that
  calls it: a function from the calls made so far and the present call to an error or a result. A
  handler takes the calls made before it and returns those made after it, so that what it sends, and in
  which order, is part of its value.
\<close>

subsection \<open>Error values\<close>

datatype sentinel =
    ErrUnreachable | ErrUnauthenticated | ErrExpired | ErrOTPRequired | ErrRateLimited
  | ErrUnauthorized | ErrInterrupted | ErrClosed | ErrJobNotFound | ErrUnsupportedVersion
  | ErrContextCanceled | ErrDeadlineExceeded

definition sentinel_text :: "sentinel \<Rightarrow> string" where
  "sentinel_text s = (case s of
     ErrUnreachable \<Rightarrow> ''target unreachable''
   | ErrUnauthenticated \<Rightarrow> ''authentication failed''
   | ErrExpired \<Rightarrow> ''credential expired''
   | ErrOTPRequired \<Rightarrow> ''one-time password required''
   | ErrRateLimited \<Rightarrow> ''authentication rate limit reached''
   | ErrUnauthorized \<Rightarrow> ''not authorized for this operation''
   | ErrInterrupted \<Rightarrow> ''connection interrupted with a request in flight''
   | ErrClosed \<Rightarrow> ''client closed''
   | ErrJobNotFound \<Rightarrow> ''job not found''
   | ErrUnsupportedVersion \<Rightarrow> ''unsupported TrueNAS version''
   | ErrContextCanceled \<Rightarrow> ''context canceled''
   | ErrDeadlineExceeded \<Rightarrow> ''context deadline exceeded'')"

record call_error =
  ce_method :: string
  ce_code :: int
  ce_message :: string
  ce_errname :: string
  ce_reason :: string
  ce_data :: json

text \<open>An error value: a sentinel, a target error, or a text with the errors its \<^verbatim>\<open>%w\<close> verbs wrap.\<close>

datatype go_error =
    Sentinel sentinel
  | CallError call_error
  | Wrapped string "go_error list"

definition call_error_text :: "call_error \<Rightarrow> string" where
  "call_error_text e =
     (if ce_reason e = []
      then ce_method e @ '': target reported error '' @ show_int (ce_code e) @ '': '' @ ce_message e
      else ce_method e @ '': target reported error '' @ show_int (ce_code e) @ '' ('' @ ce_errname e @ ''): '' @ ce_reason e)"

fun err_text :: "go_error \<Rightarrow> string" where
  "err_text (Sentinel s) = sentinel_text s"
| "err_text (CallError e) = call_error_text e"
| "err_text (Wrapped t es) = t"

text \<open>\<^verbatim>\<open>CallError.Unwrap\<close>: the target's errno names mapped to sentinels.\<close>

definition call_error_unwrap :: "call_error \<Rightarrow> sentinel option" where
  "call_error_unwrap e =
     (if ce_errname e = ''ENOTAUTHENTICATED'' then Some ErrUnauthenticated
      else if ce_errname e = ''EACCES'' then Some ErrUnauthorized
      else None)"

fun err_is :: "sentinel \<Rightarrow> go_error \<Rightarrow> bool" where
  "err_is s (Sentinel t) \<longleftrightarrow> s = t"
| "err_is s (CallError e) \<longleftrightarrow> call_error_unwrap e = Some s"
| "err_is s (Wrapped t es) \<longleftrightarrow> list_ex (err_is s) es"

text \<open>\<^verbatim>\<open>errors.As\<close> for a \<^verbatim>\<open>*CallError\<close>: the first one in the chain, depth first.\<close>

fun err_as_call :: "go_error \<Rightarrow> call_error option" and err_as_call_list :: "go_error list \<Rightarrow> call_error option" where
  "err_as_call (Sentinel s) = None"
| "err_as_call (CallError e) = Some e"
| "err_as_call (Wrapped t es) = err_as_call_list es"
| "err_as_call_list [] = None"
| "err_as_call_list (e # es) =
     (case err_as_call e of Some c \<Rightarrow> Some c | None \<Rightarrow> err_as_call_list es)"

subsection \<open>Classification and scrubbing\<close>

record rpc_error =
  re_code :: int
  re_message :: string
  re_data :: json

text \<open>The string member of an object, Go's comma-ok type assertion: anything else gives the empty string.\<close>

definition string_member :: "string \<Rightarrow> json gomap \<Rightarrow> string" where
  "string_member k kvs = (case map_of kvs k of Some (JStr s) \<Rightarrow> s | _ \<Rightarrow> [])"

definition call_error_of :: "string \<Rightarrow> rpc_error \<Rightarrow> call_error" where
  "call_error_of meth e =
     (case re_data e of
        JObj kvs \<Rightarrow>
          \<lparr>ce_method = meth, ce_code = re_code e, ce_message = re_message e,
           ce_errname = string_member ''errname'' kvs, ce_reason = string_member ''reason'' kvs,
           ce_data = re_data e\<rparr>
      | _ \<Rightarrow>
          \<lparr>ce_method = meth, ce_code = re_code e, ce_message = re_message e,
           ce_errname = [], ce_reason = [], ce_data = re_data e\<rparr>)"

definition classify :: "string \<Rightarrow> rpc_error \<Rightarrow> go_error" where
  "classify meth e =
     (let callErr = CallError (call_error_of meth e)
      in if contains_str ''rate limit'' (to_lower (re_message e))
         then Wrapped (sentinel_text ErrRateLimited @ '': '' @ err_text callErr) [Sentinel ErrRateLimited, callErr]
         else callErr)"

text \<open>\<^verbatim>\<open>strings.ReplaceAll\<close> for a non-empty pattern, the only one \<^verbatim>\<open>scrub\<close> uses.\<close>

function replace_all :: "string \<Rightarrow> string \<Rightarrow> string \<Rightarrow> string" where
  "replace_all old new s =
     (if old = [] then s
      else case s of
        [] \<Rightarrow> []
      | c # cs \<Rightarrow>
          (case cut_prefix old s of
             Some r \<Rightarrow> new @ replace_all old new r
           | None \<Rightarrow> c # replace_all old new cs))"
  by pat_completeness auto
termination
proof (relation "measure (\<lambda>(_, _, s). length s)")
  fix old new s :: string and c cs r
  assume "old \<noteq> []" "s = c # cs" "cut_prefix old s = Some r"
  then have "length s = length old + length r" and "length old > 0"
    by (simp_all add: cut_prefix_Some)
  then show "((old, new, r), old, new, s) \<in> measure (\<lambda>(_, _, s). length s)" by simp
qed auto

declare replace_all.simps [simp del]

definition redaction :: string where
  "redaction = ''[redacted]''"

definition scrub :: "go_error \<Rightarrow> string \<Rightarrow> go_error" where
  "scrub err secret =
     (if secret = [] \<or> \<not> contains_str secret (err_text err) then err
      else Wrapped (replace_all secret redaction (err_text err)) [])"

subsection \<open>Calls\<close>

record mcall =
  mc_method :: string
  mc_params :: "json list"

type_synonym trace = "mcall list"
type_synonym middleware = "trace \<Rightarrow> mcall \<Rightarrow> go_error + raw"

text \<open>One call: the target's answer, with the call appended to those made.\<close>

definition mw_call :: "middleware \<Rightarrow> string \<Rightarrow> json list \<Rightarrow> trace \<Rightarrow> (go_error + raw) \<times> trace" where
  "mw_call mw meth params tr =
     (let c = \<lparr>mc_method = meth, mc_params = params\<rparr> in (mw tr c, tr @ [c]))"

text \<open>
  Decoding a whole result with \<^verbatim>\<open>json.Unmarshal\<close>: an absent result is empty input, which fails.
\<close>

definition unmarshal :: "(json option \<Rightarrow> 'a option) \<Rightarrow> raw \<Rightarrow> 'a option" where
  "unmarshal dec raw = (case raw of None \<Rightarrow> None | Some j \<Rightarrow> dec (Some j))"

text \<open>The calls a handler added to the trace.\<close>

definition new_calls :: "trace \<Rightarrow> trace \<Rightarrow> trace" where
  "new_calls tr tr' = drop (length tr) tr'"

lemma new_calls_same [simp]: "new_calls tr tr = []"
  by (simp add: new_calls_def)

lemma new_calls_append [simp]: "new_calls tr (tr @ cs) = cs"
  by (simp add: new_calls_def)

lemma mw_call_simp [simp]:
  "mw_call mw meth params tr =
     (mw tr \<lparr>mc_method = meth, mc_params = params\<rparr>, tr @ [\<lparr>mc_method = meth, mc_params = params\<rparr>])"
  by (simp add: mw_call_def Let_def)

lemma unmarshal_simps [simp]:
  "unmarshal dec None = None" "unmarshal dec (Some j) = dec (Some j)"
  by (simp_all add: unmarshal_def)

subsection \<open>Scrubbing removes the key\<close>

lemma replace_all_Nil [simp]: "replace_all old new [] = []"
  by (subst replace_all.simps) simp

lemma replace_all_hit: "old \<noteq> [] \<Longrightarrow> cut_prefix old s = Some r \<Longrightarrow>
    replace_all old new s = new @ replace_all old new r"
  by (subst replace_all.simps) (cases s; cases old; simp)

lemma replace_all_miss: "old \<noteq> [] \<Longrightarrow> cut_prefix old (c # cs) = None \<Longrightarrow>
    replace_all old new (c # cs) = c # replace_all old new cs"
  by (subst replace_all.simps) simp

lemma replace_all_prefix:
  assumes "replace_all old (x # new) s = w @ rest" and "x \<notin> set w" and "old \<noteq> []"
  shows "\<exists>rest'. s = w @ rest'"
  using assms
proof (induction s arbitrary: w rest)
  case Nil
  then show ?case by simp
next
  case (Cons c cs)
  show ?case
  proof (cases "cut_prefix old (c # cs)")
    case (Some r)
    with Cons.prems have "(x # new) @ replace_all old (x # new) r = w @ rest"
      by (simp add: replace_all_hit)
    with Cons.prems(2) have "w = []" by (cases w) auto
    then show ?thesis by simp
  next
    case None
    with Cons.prems have eq: "c # replace_all old (x # new) cs = w @ rest"
      by (simp add: replace_all_miss)
    show ?thesis
    proof (cases w)
      case (Cons d w')
      with eq have d: "d = c" and "replace_all old (x # new) cs = w' @ rest" by simp_all
      with Cons.IH [of w' rest] Cons.prems Cons obtain rest' where "cs = w' @ rest'" by auto
      with Cons d show ?thesis by simp
    qed simp
  qed
qed

lemma redaction_parts: "redaction = CHR ''['' # ''redacted'' @ [CHR '']'']"
  by (simp add: redaction_def)

text \<open>A word without brackets that starts inside the redaction stays inside it.\<close>

lemma inside_redaction:
  assumes eq: "redaction @ out = pre @ w @ post" and pre: "length pre < length redaction"
    and w: "CHR ''['' \<notin> set w" "CHR '']'' \<notin> set w" "w \<noteq> []"
  shows "contains_str w ''redacted''"
proof -
  from eq pre have red: "redaction = pre @ drop (length pre) redaction"
    by (metis append_eq_append_conv_if append_take_drop_id nat_less_le)
  define v where "v = drop (length pre) redaction"
  from eq red have "pre @ v @ out = pre @ w @ post" by (metis append.assoc v_def)
  then have vw: "v @ out = w @ post" by simp
  from pre have "v \<noteq> []" by (simp add: v_def)
  moreover have "last redaction = CHR '']''" by (simp add: redaction_def)
  ultimately have "last v = CHR '']''" by (simp add: v_def)
  with \<open>v \<noteq> []\<close> have "CHR '']'' \<in> set v" by (metis last_in_set)
  with w(2) have len: "length w < length v"
    using vw by (metis append_eq_append_conv_if in_set_takeD leI)
  with vw have "v = w @ drop (length w) v"
    by (metis append_eq_append_conv_if append_take_drop_id nat_less_le)
  then obtain v2 where v2: "v = w @ v2" by blast
  with len have "v2 \<noteq> []" by auto
  with v2 \<open>last v = CHR '']''\<close> obtain v3 where v3: "v2 = v3 @ [CHR '']'']"
    by (metis append_butlast_last_id last_appendR)
  have "redaction = pre @ w @ v3 @ [CHR '']'']" using red v2 v3 by (simp add: v_def)
  then have "CHR ''['' # ''redacted'' = pre @ w @ v3" by (simp add: redaction_parts)
  moreover with w(1,3) obtain p where "pre = CHR ''['' # p"
    by (cases pre; cases w) auto
  ultimately have "''redacted'' = p @ w @ v3" by simp
  then show ?thesis unfolding contains_str_iff by blast
qed

text \<open>An occurrence in what follows a redaction, or a character where no match starts, would be one in the rest.\<close>

lemma redaction_blocks_match:
  assumes "secret \<noteq> []" "CHR ''['' \<notin> set secret" "CHR '']'' \<notin> set secret" "\<not> contains_str secret ''redacted''"
    and rest: "\<not> contains_str secret rest"
  shows "\<not> contains_str secret (redaction @ rest)"
proof
  assume "contains_str secret (redaction @ rest)"
  then obtain pre post where eq: "redaction @ rest = pre @ secret @ post" unfolding contains_str_iff by blast
  have "\<not> length pre < length redaction"
    using inside_redaction [OF eq _ assms(2,3,1)] assms(4) by blast
  then have "drop (length redaction) (pre @ secret @ post) = drop (length redaction) pre @ secret @ post" by simp
  then have "rest = drop (length redaction) pre @ secret @ post" unfolding eq [symmetric] by simp
  with rest show False unfolding contains_str_iff by blast
qed

lemma miss_blocks_match:
  assumes "secret \<noteq> []" "CHR ''['' \<notin> set secret" and none: "cut_prefix secret t = None"
    and out: "replace_all secret redaction t = c # rest" and rest: "\<not> contains_str secret rest"
  shows "\<not> contains_str secret (c # rest)"
proof
  assume "contains_str secret (c # rest)"
  then obtain pre post where eq: "c # rest = pre @ secret @ post" unfolding contains_str_iff by blast
  show False
  proof (cases pre)
    case Nil
    with eq out have "replace_all secret (CHR ''['' # ''redacted'' @ [CHR '']'']) t = secret @ post"
      by (simp add: redaction_def)
    from replace_all_prefix [OF this assms(2,1)] none show False by (auto simp: cut_prefix_Some)
  next
    case (Cons d pre')
    with eq have "rest = pre' @ secret @ post" by simp
    with rest show False unfolding contains_str_iff by blast
  qed
qed

lemma replace_all_removes:
  assumes s: "secret \<noteq> []" "CHR ''['' \<notin> set secret" "CHR '']'' \<notin> set secret"
    and red: "\<not> contains_str secret ''redacted''"
  shows "\<not> contains_str secret (replace_all secret redaction t)"
proof (induction t rule: length_induct)
  case (1 t)
  show ?case
  proof (cases t)
    case Nil
    with s(1) show ?thesis by (simp add: contains_str_def split: list.split) (cases secret; simp)
  next
    case (Cons c cs)
    show ?thesis
    proof (cases "cut_prefix secret t")
      case (Some r)
      with s(1) have "length r < length t" by (auto simp: cut_prefix_Some)
      with "1.IH" have "\<not> contains_str secret (replace_all secret redaction r)" by blast
      from redaction_blocks_match [OF s red this] replace_all_hit [OF s(1) Some] show ?thesis by simp
    next
      case None
      from Cons have "length cs < length t" by simp
      with "1.IH" have rest: "\<not> contains_str secret (replace_all secret redaction cs)" by blast
      have out: "replace_all secret redaction t = c # replace_all secret redaction cs"
        using s(1) None unfolding Cons by (rule replace_all_miss)
      from miss_blocks_match [OF s(1,2) None out rest] out show ?thesis by simp
    qed
  qed
qed

subsection \<open>Properties\<close>

text \<open>
  C33. The login error never shows the key: after \<^verbatim>\<open>scrub\<close>, the text of the error does not contain the
  secret anywhere, for every secret that is not itself a piece of the word put in its place and holds no
  square bracket; and an error that did not mention the secret is returned as it was.
\<close>

theorem scrub_hides_secret:
  assumes "secret \<noteq> []" and "CHR ''['' \<notin> set secret" and "CHR '']'' \<notin> set secret"
    and "\<not> contains_str secret ''redacted''"
  shows "\<not> contains_str secret (err_text (scrub err secret)) \<and>
    (contains_str secret (err_text err) \<or> scrub err secret = err)"
  using replace_all_removes [OF assms] assms(1) by (simp add: scrub_def)

lemma scrub_hides_secret_witness:
  "err_text (scrub (Wrapped ''bad key 1-x1-xyz: 1-xyz'' []) ''1-xyz'') =
     ''bad key 1-x[redacted]: [redacted]'' \<and>
   \<not> contains_str ''1-xyz'' (err_text (scrub (Wrapped ''bad key 1-x1-xyz: 1-xyz'' []) ''1-xyz''))"
proof
  show "\<not> contains_str ''1-xyz'' (err_text (scrub (Wrapped ''bad key 1-x1-xyz: 1-xyz'' []) ''1-xyz''))"
    using scrub_hides_secret [of "''1-xyz''" "Wrapped ''bad key 1-x1-xyz: 1-xyz'' []"]
    by (simp add: contains_str_def)
  show "err_text (scrub (Wrapped ''bad key 1-x1-xyz: 1-xyz'' []) ''1-xyz'') =
     ''bad key 1-x[redacted]: [redacted]''"
    by (simp add: scrub_def contains_str_def redaction_def replace_all.simps)
qed

lemma sentinel_neq_unwrap: "call_error_unwrap e \<noteq> Some ErrRateLimited"
  by (simp add: call_error_unwrap_def)


end
