(* ===== verification/Log_Collector.thy ===== *)
theory Log_Collector
  imports Middleware
begin

section \<open>Bounded collection of a log stream\<close>

text \<open>
  \<^verbatim>\<open>internal/server/log_collector.go\<close>: the loop that takes a finite snapshot of a live event stream.
  One iteration is one \<^verbatim>\<open>select\<close>, and which ready case it takes is the runtime's choice, so the loop
  consumes a schedule of the cases taken. A timer channel that was never armed is \<^verbatim>\<open>nil\<close> and never
  ready; the schedule may name it, and the loop passes over it. A schedule that runs out leaves the loop
  blocked in its \<^verbatim>\<open>select\<close>, which is the result \<^term>\<open>None\<close>.
\<close>

record log_entry =
  le_timestamp :: string
  le_text :: string

datatype bound = BoundCount | BoundBytes | BoundQuiet | BoundDeadline | BoundCanceled

definition bound_text :: "bound \<Rightarrow> string" where
  "bound_text b = (case b of
     BoundCount \<Rightarrow> ''count'' | BoundBytes \<Rightarrow> ''bytes'' | BoundQuiet \<Rightarrow> ''quiet''
   | BoundDeadline \<Rightarrow> ''deadline'' | BoundCanceled \<Rightarrow> ''canceled'')"

record collection =
  co_entries :: "log_entry list"
  co_bound :: bound
  co_withheld :: bool

record collect_options =
  opt_count :: int
  opt_bytes :: int
  opt_quiet :: int
  opt_deadline :: int

datatype select_case =
    SelCanceled
  | SelDeadline
  | SelQuiet
  | SelClosed
  | SelEntry log_entry

fun collect_loop ::
  "collect_options \<Rightarrow> log_entry list \<Rightarrow> int \<Rightarrow> bool \<Rightarrow> select_case list \<Rightarrow> collection option" where
  "collect_loop o' acc bytes armed [] = None"
| "collect_loop o' acc bytes armed (SelCanceled # cs) =
     Some \<lparr>co_entries = acc, co_bound = BoundCanceled, co_withheld = False\<rparr>"
| "collect_loop o' acc bytes armed (SelDeadline # cs) =
     (if 0 < opt_deadline o' then Some \<lparr>co_entries = acc, co_bound = BoundDeadline, co_withheld = False\<rparr>
      else collect_loop o' acc bytes armed cs)"
| "collect_loop o' acc bytes armed (SelQuiet # cs) =
     (if armed then Some \<lparr>co_entries = acc, co_bound = BoundQuiet, co_withheld = False\<rparr>
      else collect_loop o' acc bytes armed cs)"
| "collect_loop o' acc bytes armed (SelClosed # cs) =
     Some \<lparr>co_entries = acc, co_bound = BoundQuiet, co_withheld = False\<rparr>"
| "collect_loop o' acc bytes armed (SelEntry e # cs) =
     (let entryBytes = int (length (le_text e))
      in if opt_bytes o' - bytes < entryBytes
         then Some \<lparr>co_entries = acc, co_bound = BoundBytes, co_withheld = True\<rparr>
         else
           let acc' = acc @ [e]; bytes' = bytes + entryBytes
           in if int (length acc') = opt_count o'
              then Some \<lparr>co_entries = acc', co_bound = BoundCount, co_withheld = False\<rparr>
              else if bytes' = opt_bytes o'
              then Some \<lparr>co_entries = acc', co_bound = BoundBytes, co_withheld = False\<rparr>
              else collect_loop o' acc' bytes' (armed \<or> 0 < opt_quiet o') cs)"

definition collectLogEntries :: "collect_options \<Rightarrow> select_case list \<Rightarrow> collection option" where
  "collectLogEntries o' cs =
     (if opt_count o' \<le> 0 then Some \<lparr>co_entries = [], co_bound = BoundCount, co_withheld = False\<rparr>
      else collect_loop o' [] 0 False cs)"

subsection \<open>Lemmas\<close>

text \<open>The entries a schedule delivers, in order, and the bytes of a list of entries.\<close>

fun delivered :: "select_case list \<Rightarrow> log_entry list" where
  "delivered [] = []"
| "delivered (SelEntry e # cs) = e # delivered cs"
| "delivered (_ # cs) = delivered cs"

definition text_bytes :: "log_entry list \<Rightarrow> int" where
  "text_bytes es = (\<Sum>e \<leftarrow> es. int (length (le_text e)))"

lemma text_bytes_simps [simp]:
  "text_bytes [] = 0"
  "text_bytes (es @ [e]) = text_bytes es + int (length (le_text e))"
  by (simp_all add: text_bytes_def)

text \<open>What holds at every turn of the loop.\<close>

definition loop_inv :: "collect_options \<Rightarrow> log_entry list \<Rightarrow> int \<Rightarrow> bool \<Rightarrow> bool" where
  "loop_inv o' acc bytes armed \<longleftrightarrow>
     bytes = text_bytes acc \<and> bytes \<le> opt_bytes o' \<and> int (length acc) < opt_count o' \<and>
     (armed \<longleftrightarrow> acc \<noteq> [] \<and> 0 < opt_quiet o')"

lemma loop_inv_step:
  assumes "loop_inv o' acc bytes armed"
    and "\<not> opt_bytes o' - bytes < int (length (le_text e))"
    and "int (length (acc @ [e])) \<noteq> opt_count o'"
  shows "loop_inv o' (acc @ [e]) (bytes + int (length (le_text e))) (armed \<or> 0 < opt_quiet o')"
  using assms by (auto simp: loop_inv_def)

lemma loop_inv_start: "0 < opt_count o' \<Longrightarrow> 0 \<le> opt_bytes o' \<Longrightarrow> loop_inv o' [] 0 False"
  by (simp add: loop_inv_def)

lemma collect_loop_bounds:
  assumes "collect_loop o' acc bytes armed cs = Some r" and "loop_inv o' acc bytes armed"
  shows "int (length (co_entries r)) \<le> opt_count o' \<and> text_bytes (co_entries r) \<le> opt_bytes o' \<and>
    (\<exists>n. co_entries r = acc @ take n (delivered cs))"
  using assms
proof (induction o' acc bytes armed cs rule: collect_loop.induct)
  case (6 o' acc bytes armed e cs)
  let ?b = "int (length (le_text e))"
  show ?case
  proof (cases "opt_bytes o' - bytes < ?b \<or> int (length (acc @ [e])) = opt_count o' \<or> bytes + ?b = opt_bytes o'")
    case True
    with "6.prems" have "r = \<lparr>co_entries = acc, co_bound = BoundBytes, co_withheld = True\<rparr> \<or>
        co_entries r = acc @ [e] \<and> \<not> opt_bytes o' - bytes < ?b"
      by (auto simp: Let_def split: if_splits)
    then show ?thesis
    proof
      assume "r = \<lparr>co_entries = acc, co_bound = BoundBytes, co_withheld = True\<rparr>"
      with "6.prems"(2) show ?thesis
        by (auto simp: loop_inv_def intro: exI [of _ 0])
    next
      assume "co_entries r = acc @ [e] \<and> \<not> opt_bytes o' - bytes < ?b"
      with "6.prems"(2) show ?thesis
        by (auto simp: loop_inv_def intro: exI [of _ 1])
    qed
  next
    case False
    with "6.prems" have rest: "collect_loop o' (acc @ [e]) (bytes + ?b) (armed \<or> 0 < opt_quiet o') cs = Some r"
      by (simp add: Let_def)
    have "loop_inv o' (acc @ [e]) (bytes + ?b) (armed \<or> 0 < opt_quiet o')"
      using "6.prems"(2) False by (intro loop_inv_step) auto
    then have "int (length (co_entries r)) \<le> opt_count o' \<and> text_bytes (co_entries r) \<le> opt_bytes o' \<and>
        (\<exists>n. co_entries r = (acc @ [e]) @ take n (delivered cs))"
      using False by (intro "6.IH" [OF refl _ refl refl _ _ rest]) auto
    moreover have "\<exists>m. (acc @ [e]) @ take n (delivered cs) = acc @ take m (delivered (SelEntry e # cs))" for n
      by (rule exI [of _ "Suc n"]) simp
    ultimately show ?thesis by metis
  qed
qed (auto simp: loop_inv_def split: if_splits intro: exI [of _ 0])

lemma collect_loop_deadline:
  assumes "SelDeadline \<in> set cs" and "0 < opt_deadline o'"
  shows "collect_loop o' acc bytes armed cs \<noteq> None"
  using assms by (induction o' acc bytes armed cs rule: collect_loop.induct) (auto simp: Let_def)

lemma collect_loop_quiet:
  assumes "collect_loop o' acc bytes armed cs = Some r" and "co_bound r = BoundQuiet"
    and "SelClosed \<notin> set cs" and "armed \<longrightarrow> acc \<noteq> []"
  shows "co_entries r \<noteq> []"
  using assms
  by (induction o' acc bytes armed cs rule: collect_loop.induct) (auto simp: Let_def split: if_splits)

lemma collect_loop_withheld:
  assumes "collect_loop o' acc bytes armed cs = Some r" and "loop_inv o' acc bytes armed"
    and "co_withheld r"
  shows "co_bound r = BoundBytes \<and>
    (\<exists>n. n < length (delivered cs) \<and> co_entries r = acc @ take n (delivered cs) \<and>
       opt_bytes o' < text_bytes (co_entries r) + int (length (le_text (delivered cs ! n))))"
  using assms
proof (induction o' acc bytes armed cs rule: collect_loop.induct)
  case (6 o' acc bytes armed e cs)
  let ?b = "int (length (le_text e))"
  show ?case
  proof (cases "opt_bytes o' - bytes < ?b")
    case True
    with "6.prems" have "r = \<lparr>co_entries = acc, co_bound = BoundBytes, co_withheld = True\<rparr>" by simp
    with True "6.prems"(2) show ?thesis by (auto simp: loop_inv_def intro!: exI [of _ 0])
  next
    case False
    with "6.prems" have no: "int (length (acc @ [e])) \<noteq> opt_count o'" "bytes + ?b \<noteq> opt_bytes o'"
      and rest: "collect_loop o' (acc @ [e]) (bytes + ?b) (armed \<or> 0 < opt_quiet o') cs = Some r"
      by (auto simp: Let_def split: if_splits)
    have "loop_inv o' (acc @ [e]) (bytes + ?b) (armed \<or> 0 < opt_quiet o')"
      using "6.prems"(2) False no(1) by (rule loop_inv_step)
    then have "co_bound r = BoundBytes \<and> (\<exists>n. n < length (delivered cs) \<and>
        co_entries r = (acc @ [e]) @ take n (delivered cs) \<and>
        opt_bytes o' < text_bytes (co_entries r) + int (length (le_text (delivered cs ! n))))"
      using False no "6.prems"(3) by (intro "6.IH" [OF refl _ refl refl _ _ rest]) auto
    then obtain n where n: "co_bound r = BoundBytes" "n < length (delivered cs)"
      "co_entries r = (acc @ [e]) @ take n (delivered cs)"
      "opt_bytes o' < text_bytes (co_entries r) + int (length (le_text (delivered cs ! n)))"
      by blast
    have "co_entries r = acc @ take (Suc n) (delivered (SelEntry e # cs))" using n(3) by simp
    moreover have "delivered (SelEntry e # cs) ! Suc n = delivered cs ! n" by simp
    ultimately show ?thesis using n(1,2,4)
      by (intro conjI exI [of _ "Suc n"]) simp_all
  qed
qed (auto split: if_splits)

subsection \<open>Properties\<close>

text \<open>
  A collection is bounded and faithful: it has at most the requested number of entries and at most
  the allowed bytes of text, its entries are the first ones the stream delivered, in order, none
  skipped, and content is reported as withheld only when the very next entry would have exceeded the
  byte bound.
\<close>

theorem collectLogEntries_bounded:
  assumes "collectLogEntries o' cs = Some r" and "0 \<le> opt_bytes o'"
  shows "int (length (co_entries r)) \<le> max 0 (opt_count o') \<and> text_bytes (co_entries r) \<le> opt_bytes o' \<and>
    co_entries r = take (length (co_entries r)) (delivered cs) \<and>
    (co_withheld r \<longrightarrow>
       opt_bytes o' < text_bytes (co_entries r) + int (length (le_text (delivered cs ! length (co_entries r)))))"
proof (cases "opt_count o' \<le> 0")
  case True
  with assms show ?thesis by (auto simp: collectLogEntries_def)
next
  case False
  with assms have loop: "collect_loop o' [] 0 False cs = Some r" by (simp add: collectLogEntries_def)
  from False assms(2) have inv: "loop_inv o' [] 0 False" by (intro loop_inv_start) auto
  have "opt_bytes o' < text_bytes (co_entries r) + int (length (le_text (delivered cs ! length (co_entries r))))"
    if "co_withheld r"
    using collect_loop_withheld [OF loop inv that] by (auto simp: min_def)
  with collect_loop_bounds [OF loop inv] False show ?thesis
    by (metis append_Nil max.cobounded2 order_trans take_length_eq)
qed

lemma collectLogEntries_bounded_witness:
  "map_option (map le_text \<circ> co_entries)
     (collectLogEntries \<lparr>opt_count = 9, opt_bytes = 5, opt_quiet = 1, opt_deadline = 1\<rparr>
        [SelQuiet, SelEntry \<lparr>le_timestamp = [], le_text = ''abc''\<rparr>,
         SelEntry \<lparr>le_timestamp = [], le_text = ''def''\<rparr>]) = Some [''abc''] \<and> text_bytes [\<lparr>le_timestamp = [], le_text = ''abc''\<rparr>] \<le> 5"
proof -
  let ?o = "\<lparr>opt_count = 9, opt_bytes = 5, opt_quiet = 1, opt_deadline = 1\<rparr>"
  let ?cs = "[SelQuiet, SelEntry \<lparr>le_timestamp = [], le_text = ''abc''\<rparr>,
         SelEntry \<lparr>le_timestamp = [], le_text = ''def''\<rparr>]"
  let ?r = "\<lparr>co_entries = [\<lparr>le_timestamp = [], le_text = ''abc''\<rparr>], co_bound = BoundBytes, co_withheld = True\<rparr>"
  have r: "collectLogEntries ?o ?cs = Some ?r" by (simp add: collectLogEntries_def)
  from collectLogEntries_bounded [OF r] r show ?thesis by simp
qed

text \<open>
  C37. Collection always ends: whatever the stream does, once the deadline has fired the collector has
  returned. Silence alone never ends it before the first entry: a collection that ended for quiet while
  the stream stayed open has at least one entry.
\<close>

theorem collectLogEntries_ends:
  assumes "SelDeadline \<in> set cs" and "0 < opt_deadline o'"
  shows "\<exists>r. collectLogEntries o' cs = Some r \<and>
    (co_bound r = BoundQuiet \<and> SelClosed \<notin> set cs \<longrightarrow> co_entries r \<noteq> [])"
proof -
  have "collectLogEntries o' cs \<noteq> None"
    using collect_loop_deadline [OF assms, of "[]" 0 False] by (simp add: collectLogEntries_def)
  then obtain r where "collectLogEntries o' cs = Some r" by blast
  moreover from this have "co_bound r = BoundQuiet \<Longrightarrow> SelClosed \<notin> set cs \<Longrightarrow> co_entries r \<noteq> []"
    by (auto simp: collectLogEntries_def dest: collect_loop_quiet split: if_splits)
  ultimately show ?thesis by blast
qed

lemma collectLogEntries_ends_witness:
  "\<exists>r. collectLogEntries \<lparr>opt_count = 50, opt_bytes = 32768, opt_quiet = 100, opt_deadline = 2000\<rparr>
         [SelQuiet, SelDeadline] = Some r \<and> co_bound r = BoundDeadline"
  using collectLogEntries_ends [of "[SelQuiet, SelDeadline]"
      "\<lparr>opt_count = 50, opt_bytes = 32768, opt_quiet = 100, opt_deadline = 2000\<rparr>"]
  by (simp add: collectLogEntries_def)

end
