(* ===== verification/Jobs.thy ===== *)
theory Jobs
  imports Middleware
begin

section \<open>Jobs and the target's version\<close>

text \<open>
  \<^verbatim>\<open>internal/truenas/job.go\<close>, \<^verbatim>\<open>internal/truenas/version.go\<close> and the tool over the former,
  \<^verbatim>\<open>internal/server/jobs_tool.go\<close>: the state of a long-running operation, starting one, looking one up
  and listing recent ones; and the version check that refuses a target older than the supported floor.
  Where an error message ends with the text of a JSON decoder's error or with the undecodable input, the
  model keeps the part before it: no code reads the rest.
\<close>

subsection \<open>Job state\<close>

record job =
  jb_id :: int
  jb_method :: string
  jb_state :: string
  jb_percent :: rat
  jb_description :: string
  jb_error :: string
  jb_result :: json

definition Done :: "job \<Rightarrow> bool" where
  "Done j \<longleftrightarrow> jb_state j = ''SUCCESS'' \<or> jb_state j = ''FAILED'' \<or> jb_state j = ''ABORTED''"

definition Failed :: "job \<Rightarrow> bool" where
  "Failed j \<longleftrightarrow> jb_state j = ''FAILED'' \<or> jb_state j = ''ABORTED''"

text \<open>The middleware's representation, whose progress is nested.\<close>

record raw_job =
  rj_id :: int
  rj_method :: string
  rj_state :: string
  rj_error :: string
  rj_result :: json
  rj_percent :: rat
  rj_description :: string

definition dec_raw_job :: "json \<Rightarrow> raw_job option" where
  "dec_raw_job v =
     (case dec_struct (Some v) of
        None \<Rightarrow> None
      | Some kvs \<Rightarrow>
          (case dec_struct (Some (case jfield ''progress'' kvs of None \<Rightarrow> JNull | Some p \<Rightarrow> p)) of
             None \<Rightarrow> None
           | Some ps \<Rightarrow>
               (case (dec_int64 (jfield ''id'' kvs), dec_string (jfield ''method'' kvs),
                      dec_string (jfield ''state'' kvs), dec_string (jfield ''error'' kvs),
                      dec_float (jfield ''percent'' ps), dec_string (jfield ''description'' ps)) of
                  (Some i, Some m, Some st, Some er, Some pc, Some ds) \<Rightarrow>
                    Some \<lparr>rj_id = i, rj_method = m, rj_state = st, rj_error = er,
                      rj_result = dec_any (jfield ''result'' kvs), rj_percent = pc, rj_description = ds\<rparr>
                | _ \<Rightarrow> None)))"

definition toJob :: "raw_job \<Rightarrow> job" where
  "toJob r = \<lparr>jb_id = rj_id r, jb_method = rj_method r, jb_state = rj_state r, jb_percent = rj_percent r,
     jb_description = rj_description r, jb_error = rj_error r, jb_result = rj_result r\<rparr>"

definition dec_jobs :: "raw \<Rightarrow> raw_job list option" where
  "dec_jobs raw =
     (case unmarshal dec_slice raw of None \<Rightarrow> None | Some xs \<Rightarrow> dec_each dec_raw_job xs)"

subsection \<open>Starting and looking up\<close>

text \<open>
  \<^verbatim>\<open>CallJob\<close>: the answer is a bare id or an array that starts with one. \<^verbatim>\<open>null\<close> decodes as the bare
  id 0.
\<close>

definition CallJob :: "middleware \<Rightarrow> string \<Rightarrow> json list \<Rightarrow> trace \<Rightarrow> (go_error + int) \<times> trace" where
  "CallJob mw meth params tr =
     (case mw_call mw meth params tr of
        (Inl e, tr') \<Rightarrow> (Inl e, tr')
      | (Inr raw, tr') \<Rightarrow>
          (case unmarshal dec_int64 raw of
             Some i \<Rightarrow> (Inr i, tr')
           | None \<Rightarrow>
               (case unmarshal dec_slice raw of
                  None \<Rightarrow> (Inl (Wrapped (meth @ '': expected a job id'') []), tr')
                | Some xs \<Rightarrow>
                    (case dec_each (\<lambda>x. dec_int64 (Some x)) xs of
                       Some (i # _) \<Rightarrow> (Inr i, tr')
                     | _ \<Rightarrow> (Inl (Wrapped (meth @ '': expected a job id'') []), tr')))))"

definition Job :: "middleware \<Rightarrow> int \<Rightarrow> trace \<Rightarrow> (go_error + job) \<times> trace" where
  "Job mw jid tr =
     (case mw_call mw ''core.get_jobs'' [JArr [JArr [JStr ''id'', JStr ''='', JInt jid]]] tr of
        (Inl e, tr') \<Rightarrow> (Inl e, tr')
      | (Inr raw, tr') \<Rightarrow>
          (case dec_jobs raw of
             None \<Rightarrow> (Inl (Wrapped ''decoding jobs'' []), tr')
           | Some [] \<Rightarrow>
               (Inl (Wrapped (sentinel_text ErrJobNotFound @ '': '' @ show_int jid) [Sentinel ErrJobNotFound]), tr')
           | Some (j # _) \<Rightarrow> (Inr (toJob j), tr')))"

text \<open>
  The loop of \<^verbatim>\<open>RecentJobs\<close>: from the last job down, appending, until the limit is reached or the list
  is exhausted. \<open>rest\<close> is the part of the answer not yet visited, last job first.
\<close>

fun recent_loop :: "int \<Rightarrow> raw_job list \<Rightarrow> job list \<Rightarrow> job list" where
  "recent_loop limit [] out = out"
| "recent_loop limit (r # rest) out =
     (let out' = out @ [toJob r]
      in if 0 < limit \<and> limit \<le> int (length out') then out' else recent_loop limit rest out')"

definition RecentJobs :: "middleware \<Rightarrow> int \<Rightarrow> trace \<Rightarrow> (go_error + job list) \<times> trace" where
  "RecentJobs mw limit tr =
     (case mw_call mw ''core.get_jobs'' [] tr of
        (Inl e, tr') \<Rightarrow> (Inl e, tr')
      | (Inr raw, tr') \<Rightarrow>
          (case dec_jobs raw of
             None \<Rightarrow> (Inl (Wrapped ''decoding jobs'' []), tr')
           | Some jobs \<Rightarrow> (Inr (recent_loop limit (rev jobs) []), tr')))"

subsection \<open>The jobs tool\<close>

record jobs_input =
  ji_op :: string
  ji_job_id :: int
  ji_limit :: int

datatype jobs_refusal =
    ShowRequiresJobID
  | NoSuchJob int
  | UnknownJobsOperation string

datatype jobs_answer =
    JobsListed "job list"
  | JobShown job
  | JobsToolError jobs_refusal
  | JobsCallError go_error

definition jobs_tool :: "middleware \<Rightarrow> go_error option \<Rightarrow> jobs_input \<Rightarrow> trace \<Rightarrow> jobs_answer \<times> trace" where
  "jobs_tool mw sess inp tr =
     (case sess of
        Some e \<Rightarrow> (JobsCallError e, tr)
      | None \<Rightarrow>
          if ji_op inp = ''list'' then
            (let limit = (if ji_limit inp \<le> 0 then 20 else ji_limit inp)
             in case RecentJobs mw limit tr of
                  (Inl e, tr') \<Rightarrow> (JobsCallError e, tr')
                | (Inr js, tr') \<Rightarrow> (JobsListed js, tr'))
          else if ji_op inp = ''show'' then
            (if ji_job_id inp = 0 then (JobsToolError ShowRequiresJobID, tr)
             else case Job mw (ji_job_id inp) tr of
                 (Inl e, tr') \<Rightarrow>
                   (if err_is ErrJobNotFound e
                    then (JobsToolError (NoSuchJob (ji_job_id inp)), tr')
                    else (JobsCallError e, tr'))
               | (Inr j, tr') \<Rightarrow> (JobShown j, tr'))
          else (JobsToolError (UnknownJobsOperation (ji_op inp)), tr))"

subsection \<open>The version check\<close>

record version =
  ve_raw :: string
  ve_major :: int
  ve_minor :: int

definition minMajor :: int where "minMajor = 25"
definition minMinor :: int where "minMinor = 4"

definition is_digit :: "char \<Rightarrow> bool" where
  "is_digit c \<longleftrightarrow> 48 \<le> (of_char c :: nat) \<and> (of_char c :: nat) \<le> 57"

text \<open>A match of \<open>TrueNAS-(\d+)\.(\d+)\<close> at the start of the text: both repetitions are greedy.\<close>

definition match_here :: "string \<Rightarrow> (string \<times> string) option" where
  "match_here s =
     (case cut_prefix ''TrueNAS-'' s of
        None \<Rightarrow> None
      | Some r \<Rightarrow>
          (let a = takeWhile is_digit r
           in case dropWhile is_digit r of
                [] \<Rightarrow> None
              | c # r' \<Rightarrow>
                  let b = takeWhile is_digit r'
                  in if a \<noteq> [] \<and> c = CHR ''.'' \<and> b \<noteq> [] then Some (a, b) else None))"

text \<open>The leftmost match.\<close>

fun find_version :: "string \<Rightarrow> (string \<times> string) option" where
  "find_version [] = match_here []"
| "find_version (c # cs) =
     (case match_here (c # cs) of Some m \<Rightarrow> Some m | None \<Rightarrow> find_version cs)"

text \<open>\<^verbatim>\<open>strconv.Atoi\<close> of a digit string with its error ignored: out of range it is the largest integer.\<close>

definition atoi :: "string \<Rightarrow> int" where
  "atoi s = min (2 ^ 63 - 1) (foldl (\<lambda>n c. 10 * n + (of_char c - 48)) 0 s)"

definition pad2 :: "int \<Rightarrow> string" where
  "pad2 i = (if 0 \<le> i \<and> i < 10 then CHR ''0'' # show_int i else show_int i)"

definition unsupported_text :: "version \<Rightarrow> string" where
  "unsupported_text v =
     sentinel_text ErrUnsupportedVersion @ '': target runs '' @ show_int (ve_major v) @ ''.'' @
     pad2 (ve_minor v) @ '', minimum supported is '' @ show_int minMajor @ ''.'' @ pad2 minMinor"

definition CheckVersion :: "middleware \<Rightarrow> trace \<Rightarrow> (go_error option \<times> version) \<times> trace" where
  "CheckVersion mw tr =
     (case mw_call mw ''system.version'' [] tr of
        (Inl e, tr') \<Rightarrow> ((Some e, \<lparr>ve_raw = [], ve_major = 0, ve_minor = 0\<rparr>), tr')
      | (Inr raw, tr') \<Rightarrow>
          (case unmarshal dec_string raw of
             None \<Rightarrow> ((Some (Wrapped ''decoding version'' []), \<lparr>ve_raw = [], ve_major = 0, ve_minor = 0\<rparr>), tr')
           | Some s \<Rightarrow>
               (case find_version s of
                  None \<Rightarrow> ((None, \<lparr>ve_raw = s, ve_major = 0, ve_minor = 0\<rparr>), tr')
                | Some (a, b) \<Rightarrow>
                    let v = \<lparr>ve_raw = s, ve_major = atoi a, ve_minor = atoi b\<rparr>
                    in if ve_major v < minMajor \<or> ve_major v = minMajor \<and> ve_minor v < minMinor
                       then ((Some (Wrapped (unsupported_text v) [Sentinel ErrUnsupportedVersion]), v), tr')
                       else ((None, v), tr'))))"

subsection \<open>Lemmas\<close>

lemma recent_loop_eq:
  "0 < limit \<Longrightarrow> int (length out) < limit \<Longrightarrow>
     recent_loop limit rs out = out @ map toJob (take (nat (limit - int (length out))) rs)"
proof (induction limit rs out rule: recent_loop.induct)
  case (1 limit out)
  then show ?case by simp
next
  case (2 limit r rest out)
  show ?case
  proof (cases "limit \<le> int (length (out @ [toJob r]))")
    case True
    with "2.prems" have "nat (limit - int (length out)) = 1" by simp
    with True "2.prems" show ?thesis by simp
  next
    case False
    with "2.prems" have "nat (limit - int (length out)) = Suc (nat (limit - int (length (out @ [toJob r]))))"
      by simp
    with False "2.IH" [OF refl] "2.prems" show ?thesis by simp
  qed
qed

lemma recent_loop_unbounded: "limit \<le> 0 \<Longrightarrow> recent_loop limit rs out = out @ map toJob rs"
  by (induction limit rs out rule: recent_loop.induct) (simp_all add: Let_def)

lemma dec_jobs_Some:
  "mw tr \<lparr>mc_method = ''core.get_jobs'', mc_params = []\<rparr> = Inr (Some (JArr xs)) \<Longrightarrow>
     RecentJobs mw limit tr =
       (case dec_each dec_raw_job xs of
          None \<Rightarrow> (Inl (Wrapped ''decoding jobs'' []), tr @ [\<lparr>mc_method = ''core.get_jobs'', mc_params = []\<rparr>])
        | Some js \<Rightarrow> (Inr (recent_loop limit (rev js) []), tr @ [\<lparr>mc_method = ''core.get_jobs'', mc_params = []\<rparr>]))"
  by (simp add: RecentJobs_def dec_jobs_def split: option.split)

text \<open>Looking a job up, listing and starting one each make exactly one call, of the method named.\<close>

lemma CallJob_trace: "snd (CallJob mw meth params tr) = tr @ [\<lparr>mc_method = meth, mc_params = params\<rparr>]"
  by (simp add: CallJob_def split: sum.split option.split list.split)

lemma Job_trace:
  "snd (Job mw jid tr) =
     tr @ [\<lparr>mc_method = ''core.get_jobs'', mc_params = [JArr [JArr [JStr ''id'', JStr ''='', JInt jid]]]\<rparr>]"
  by (simp add: Job_def split: sum.split option.split list.split)

lemma RecentJobs_trace:
  "snd (RecentJobs mw limit tr) = tr @ [\<lparr>mc_method = ''core.get_jobs'', mc_params = []\<rparr>]"
  by (simp add: RecentJobs_def split: sum.split option.split)

subsection \<open>Properties\<close>

text \<open>
  The jobs tool lists the most recent jobs first: when the target answers with a decodable list,
  oldest first as it does, the tool returns that list reversed and cut to the limit, which is the
  caller's when positive and 20 otherwise.
\<close>

theorem jobs_list_most_recent_first:
  assumes "mw tr \<lparr>mc_method = ''core.get_jobs'', mc_params = []\<rparr> = Inr (Some (JArr xs))"
    and "dec_each dec_raw_job xs = Some js" and "ji_op inp = ''list''"
  shows "fst (jobs_tool mw None inp tr) =
    JobsListed (take (nat (if ji_limit inp \<le> 0 then 20 else ji_limit inp)) (rev (map toJob js)))"
  using assms by (simp add: jobs_tool_def dec_jobs_Some recent_loop_eq take_map rev_map)

definition two_jobs_middleware :: middleware where
  "two_jobs_middleware tr c = Inr (Some (JArr
     [JObj [(''id'', JInt 1), (''state'', JStr ''SUCCESS'')],
      JObj [(''id'', JInt 2), (''state'', JStr ''RUNNING''),
            (''progress'', JObj [(''percent'', JInt 40), (''description'', JStr ''pulling'')])]]))"

lemma jobs_list_most_recent_first_witness:
  "map_option (map jb_id)
     (case fst (jobs_tool two_jobs_middleware None \<lparr>ji_op = ''list'', ji_job_id = 0, ji_limit = 1\<rparr> []) of
        JobsListed js \<Rightarrow> Some js | _ \<Rightarrow> None) = Some [2]"
proof -
  let ?xs = "[JObj [(''id'', JInt 1), (''state'', JStr ''SUCCESS'')],
      JObj [(''id'', JInt 2), (''state'', JStr ''RUNNING''),
            (''progress'', JObj [(''percent'', JInt 40), (''description'', JStr ''pulling'')])]]"
  let ?js = "[\<lparr>rj_id = 1, rj_method = [], rj_state = ''SUCCESS'', rj_error = [], rj_result = JNull,
                rj_percent = 0, rj_description = []\<rparr>,
              \<lparr>rj_id = 2, rj_method = [], rj_state = ''RUNNING'', rj_error = [], rj_result = JNull,
                rj_percent = 40, rj_description = ''pulling''\<rparr>]"
  have dec: "dec_each dec_raw_job ?xs = Some ?js"
    by (simp add: dec_raw_job_def jfield_def in_int64_def dec_any_def lower_char_def)
  have "fst (jobs_tool two_jobs_middleware None \<lparr>ji_op = ''list'', ji_job_id = 0, ji_limit = 1\<rparr> []) =
      JobsListed (take 1 (rev (map toJob ?js)))"
    using jobs_list_most_recent_first [of two_jobs_middleware "[]" ?xs ?js
        "\<lparr>ji_op = ''list'', ji_job_id = 0, ji_limit = 1\<rparr>"] dec
    by (simp add: two_jobs_middleware_def)
  then show ?thesis by (simp add: toJob_def)
qed

text \<open>Releases, compared by their major and then their minor number.\<close>

datatype release = Release int int

instantiation release :: linorder
begin

fun less_eq_release :: "release \<Rightarrow> release \<Rightarrow> bool" where
  "Release a b \<le> Release c d \<longleftrightarrow> a < c \<or> a = c \<and> b \<le> d"

definition less_release :: "release \<Rightarrow> release \<Rightarrow> bool" where
  "less_release x y \<longleftrightarrow> x \<le> y \<and> \<not> y \<le> x"

instance
proof
  fix x y z :: release
  show "x < y \<longleftrightarrow> x \<le> y \<and> \<not> y \<le> x" by (rule less_release_def)
  show "x \<le> x" by (cases x) simp
  show "x \<le> y \<Longrightarrow> y \<le> z \<Longrightarrow> x \<le> z" by (cases x; cases y; cases z) auto
  show "x \<le> y \<Longrightarrow> y \<le> x \<Longrightarrow> x = y" by (cases x; cases y) auto
  show "x \<le> y \<or> y \<le> x" by (cases x; cases y) auto
qed

end

lemma release_less: "Release a b < Release c d \<longleftrightarrow> a < c \<or> a = c \<and> b < d"
  by (auto simp: less_release_def)

text \<open>The release a version string names, if it names one.\<close>

definition release_of :: "string \<Rightarrow> release option" where
  "release_of s = map_option (\<lambda>(a, b). Release (atoi a) (atoi b)) (find_version s)"

lemma release_of_None: "release_of s = None \<longleftrightarrow> find_version s = None"
  by (simp add: release_of_def)

text \<open>
  The version floor is a floor of the order of releases: the session is refused for its version exactly when the
  release string names a release (the leftmost \<open>TrueNAS-X.Y\<close> in it) below 25.04, so that nothing newer than an accepted
  release is ever refused; a string the pattern does not match is let through, and whatever the outcome only
  \<open>system.version\<close> was called.
\<close>

theorem CheckVersion_floor:
  assumes "mw tr \<lparr>mc_method = ''system.version'', mc_params = []\<rparr> = Inr (Some (JStr s))"
  shows "(fst (fst (CheckVersion mw tr)) \<noteq> None \<longleftrightarrow> (\<exists>r. release_of s = Some r \<and> r < Release 25 4)) \<and>
         snd (CheckVersion mw tr) = tr @ [\<lparr>mc_method = ''system.version'', mc_params = []\<rparr>]"
  using assms
  by (auto simp: CheckVersion_def minMajor_def minMinor_def Let_def release_of_def release_less split: option.split)

definition version_middleware :: "string \<Rightarrow> middleware" where
  "version_middleware s tr c = Inr (Some (JStr s))"

lemma CheckVersion_floor_witness:
  "fst (fst (CheckVersion (version_middleware ''TrueNAS-24.10.2'') [])) \<noteq> None \<and>
   fst (fst (CheckVersion (version_middleware ''TrueNAS-25.04.0'') [])) = None"
proof -
  show ?thesis
    using CheckVersion_floor [of "version_middleware ''TrueNAS-24.10.2''" "[]" "''TrueNAS-24.10.2''"]
      CheckVersion_floor [of "version_middleware ''TrueNAS-25.04.0''" "[]" "''TrueNAS-25.04.0''"]
    by (simp add: version_middleware_def match_here_def is_digit_def atoi_def release_of_def release_less)
qed

end
