(* ===== verification/Utf8.thy ===== *)
theory Utf8
  imports Go_Prelude
begin

section \<open>UTF-8 validity\<close>

text \<open>
  \<^verbatim>\<open>utf8.Valid\<close> of Go's standard library, which file reading uses to tell text from binary: a byte string
  is valid when it is a sequence of well-formed encodings, each of one to four bytes, without overlong
  forms, surrogates and values above U+10FFFF.
\<close>

definition byte :: "char \<Rightarrow> nat" where
  "byte c = of_char c"

definition cont :: "char \<Rightarrow> bool" where
  "cont c \<longleftrightarrow> 128 \<le> byte c \<and> byte c \<le> 191"

text \<open>The second byte of a longer encoding has a range of its own after some first bytes.\<close>

definition second3 :: "nat \<Rightarrow> nat \<Rightarrow> bool" where
  "second3 a b \<longleftrightarrow>
     (if a = 224 then 160 \<le> b \<and> b \<le> 191
      else if a = 237 then 128 \<le> b \<and> b \<le> 159
      else 225 \<le> a \<and> a \<le> 239 \<and> 128 \<le> b \<and> b \<le> 191)"

definition second4 :: "nat \<Rightarrow> nat \<Rightarrow> bool" where
  "second4 a b \<longleftrightarrow>
     (if a = 240 then 144 \<le> b \<and> b \<le> 191
      else if a = 244 then 128 \<le> b \<and> b \<le> 143
      else 241 \<le> a \<and> a \<le> 243 \<and> 128 \<le> b \<and> b \<le> 191)"

text \<open>The length of the encoding a string starts with, if it starts with one.\<close>

definition rune_size :: "string \<Rightarrow> nat option" where
  "rune_size s =
     (case s of
        [] \<Rightarrow> None
      | a # r \<Rightarrow>
          if byte a < 128 then Some 1
          else (case r of
            [] \<Rightarrow> None
          | b # r2 \<Rightarrow>
              if 194 \<le> byte a \<and> byte a \<le> 223 \<and> cont b then Some 2
              else (case r2 of
                [] \<Rightarrow> None
              | c # r3 \<Rightarrow>
                  if second3 (byte a) (byte b) \<and> cont c then Some 3
                  else (case r3 of
                    [] \<Rightarrow> None
                  | d # r4 \<Rightarrow> if second4 (byte a) (byte b) \<and> cont c \<and> cont d then Some 4 else None))))"

lemma rune_size_bounds: "rune_size s = Some k \<Longrightarrow> 1 \<le> k \<and> k \<le> 4 \<and> k \<le> length s"
  by (auto simp: rune_size_def split: list.splits if_splits)

text \<open>The encoding is decided by its own bytes.\<close>

lemma rune_size_take: "rune_size s = Some k \<Longrightarrow> k \<le> m \<Longrightarrow> rune_size (take m s) = Some k"
  by (auto simp: rune_size_def take_Cons' split: list.splits if_splits)

function utf8_valid :: "string \<Rightarrow> bool" where
  "utf8_valid s =
     (s = [] \<or> (case rune_size s of None \<Rightarrow> False | Some k \<Rightarrow> utf8_valid (drop k s)))"
  by pat_completeness auto
termination
  by (relation "measure length") (auto dest: rune_size_bounds)

declare utf8_valid.simps [simp del]

lemma utf8_valid_Nil [simp]: "utf8_valid []"
  by (subst utf8_valid.simps) simp

lemma utf8_valid_rune:
  "rune_size s = Some k \<Longrightarrow> utf8_valid s \<longleftrightarrow> utf8_valid (drop k s)"
  by (subst utf8_valid.simps) (auto dest: rune_size_bounds)

text \<open>Cutting a valid string anywhere leaves a valid string once at most three bytes are dropped.\<close>

lemma utf8_valid_cut:
  assumes "utf8_valid s" and "n \<le> length s"
  shows "\<exists>cut. cut \<le> 3 \<and> cut \<le> n \<and> utf8_valid (take (n - cut) s)"
  using assms
proof (induction s arbitrary: n rule: utf8_valid.induct)
  case (1 s)
  show ?case
  proof (cases "s = []")
    case True
    with "1.prems" show ?thesis by (intro exI [of _ 0]) simp
  next
    case False
    with "1.prems"(1) obtain k where k: "rune_size s = Some k" and v: "utf8_valid (drop k s)"
      by (subst (asm) utf8_valid.simps) (auto split: option.splits)
    note b = rune_size_bounds [OF k]
    show ?thesis
    proof (cases "n < k")
      case True
      with b show ?thesis by (intro exI [of _ n]) simp
    next
      case False
      with "1.prems"(2) have "n - k \<le> length (drop k s)" by simp
      with "1.IH" [OF k v] obtain cut where
        c: "cut \<le> 3" "cut \<le> n - k" "utf8_valid (take (n - k - cut) (drop k s))" by blast
      from c(2) False have le: "k \<le> n - cut" by simp
      have "rune_size (take (n - cut) s) = Some k" using k le by (rule rune_size_take)
      moreover have "drop k (take (n - cut) s) = take (n - k - cut) (drop k s)"
        by (simp add: drop_take add.commute diff_diff_left)
      ultimately have "utf8_valid (take (n - cut) s)" using c(3) by (simp add: utf8_valid_rune)
      with c(1,2) False show ?thesis by (intro exI [of _ cut]) simp
    qed
  qed
qed

end
