(* ===== verification/Dispatch_IO.thy ===== *)
theory Dispatch_IO
  imports Middleware
begin

section \<open>Input and output of the dispatch tools\<close>

text \<open>
  The types the dispatch tools of \<^verbatim>\<open>internal/server/concern_tool.go\<close> share with the two operations they
  handle themselves: the flat input, the output, the outcome of a call, and the default limit.
\<close>

record dispatch_input =
  di_op :: string
  di_id :: string
  di_name :: string
  di_container :: string
  di_pool :: string
  di_dataset :: string
  di_path :: string
  di_category :: string
  di_limit :: int
  di_full :: bool

record dispatch_output =
  do_op :: string
  do_count :: int
  do_total :: int
  do_truncated :: bool
  do_bound :: string
  do_withheld :: bool
  do_projected :: bool
  do_result :: json

definition output_zero :: dispatch_output where
  "output_zero = \<lparr>do_op = [], do_count = 0, do_total = 0, do_truncated = False, do_bound = [],
     do_withheld = False, do_projected = False, do_result = JNull\<rparr>"

text \<open>
  How a tool handler returns: an error of the protocol, a tool error the model can read, or an output.
\<close>

datatype ('e, 'o) tool_answer =
    CallFailed go_error
  | ToolError 'e
  | Answered 'o

definition defaultLimit :: int where
  "defaultLimit = 50"

definition effectiveLimit :: "int \<Rightarrow> int" where
  "effectiveLimit limit = (if limit \<le> 0 then defaultLimit else limit)"

lemma effectiveLimit_pos: "0 < effectiveLimit limit"
  by (simp add: effectiveLimit_def defaultLimit_def)

end
