(* ===== verification/Read_File.thy ===== *)
theory Read_File
  imports Jobs Utf8 Dispatch_IO
begin

section \<open>Downloads and reading a file\<close>

text \<open>
  \<^verbatim>\<open>internal/truenas/download.go\<close> and \<^verbatim>\<open>internal/server/read_file.go\<close>: running a job that streams its
  output, reading at most a given number of bytes of it, checking afterwards that the job did not fail,
  and returning the text of a file unless it looks binary.

  The HTTP exchange is a parameter: resolving the one-time path against the target's base URL, and the
  answer to the GET. So is the clock of the final wait: one flag for each poll it has time for, true
  when the deadline has passed by the time that poll answers; when the list ends, the deadline passed
  between two polls.
\<close>

datatype http_answer =
    FetchFailed
  | HttpStatus int string string        \<comment> \<open>status code, status line, body\<close>
  | HttpBroken int string string        \<comment> \<open>the same, and the body ended in a read error\<close>

record download_env =
  de_resolve :: "string \<Rightarrow> string option"
  de_fetch :: "string \<Rightarrow> http_answer"
  de_polls :: "bool list"

record download =
  dl_data :: string
  dl_truncated :: bool

subsection \<open>The job behind a complete download\<close>

fun awaitDownloadJob :: "middleware \<Rightarrow> string \<Rightarrow> int \<Rightarrow> bool list \<Rightarrow> trace \<Rightarrow> go_error option \<times> trace" where
  "awaitDownloadJob mw meth jid [] tr = (None, tr)"
| "awaitDownloadJob mw meth jid (late # polls) tr =
     (case Job mw jid tr of
        (Inl e, tr') \<Rightarrow> (if late then None else Some e, tr')
      | (Inr j, tr') \<Rightarrow>
          if Failed j then (Some (Wrapped (meth @ '': target reported: '' @ jb_error j) []), tr')
          else if Done j then (None, tr')
          else if late then (None, tr')
          else awaitDownloadJob mw meth jid polls tr')"

subsection \<open>The download\<close>

text \<open>\<^verbatim>\<open>io.ReadAll(io.LimitReader(body, n))\<close>: at most \<open>n\<close> bytes, and an error only when the body breaks first.\<close>

definition read_limited :: "nat \<Rightarrow> http_answer \<Rightarrow> string option" where
  "read_limited n a =
     (case a of
        FetchFailed \<Rightarrow> None
      | HttpStatus code line body \<Rightarrow> Some (take n body)
      | HttpBroken code line body \<Rightarrow> if n \<le> length body then Some (take n body) else None)"

text \<open>The two-element answer of \<^verbatim>\<open>core.download\<close>: a job id and a path.\<close>

definition dec_download_answer :: "raw \<Rightarrow> (int \<times> string) option" where
  "dec_download_answer raw =
     (case unmarshal dec_slice raw of
        Some [a, b] \<Rightarrow>
          (case (dec_int64 (Some a), dec_string (Some b)) of
             (Some jid, Some path) \<Rightarrow> Some (jid, path)
           | _ \<Rightarrow> None)
      | _ \<Rightarrow> None)"

definition status_of :: "http_answer \<Rightarrow> int \<times> string \<times> string" where
  "status_of a = (case a of FetchFailed \<Rightarrow> (0, [], []) | HttpStatus c l b \<Rightarrow> (c, l, b) | HttpBroken c l b \<Rightarrow> (c, l, b))"

definition Download ::
  "middleware \<Rightarrow> download_env \<Rightarrow> string \<Rightarrow> json list \<Rightarrow> string \<Rightarrow> nat \<Rightarrow> trace \<Rightarrow> (go_error + download) \<times> trace" where
  "Download mw env meth args filename maxb tr =
     (case mw_call mw ''core.download'' [JStr meth, JArr args, JStr filename, JBool False] tr of
        (Inl e, tr') \<Rightarrow> (Inl e, tr')
      | (Inr raw, tr') \<Rightarrow>
          (case dec_download_answer raw of
             None \<Rightarrow> (Inl (Wrapped (meth @ '': unexpected core.download answer'') []), tr')
           | Some (jid, path) \<Rightarrow>
               (case de_resolve env path of
                  None \<Rightarrow> (Inl (Wrapped (meth @ '': unusable download URL'') []), tr')
                | Some url \<Rightarrow>
                    (case (de_fetch env url, status_of (de_fetch env url)) of
                       (FetchFailed, _) \<Rightarrow>
                         (Inl (Wrapped (meth @ '': '' @ sentinel_text ErrUnreachable @ '': fetching the download failed'')
                            [Sentinel ErrUnreachable]), tr')
                     | (answer, (code, line, body)) \<Rightarrow>
                         if code \<noteq> 200 then
                           (let reason = trim_space (take 4096 body)
                            in (Inl (Wrapped (meth @ '': target reported: '' @ (if reason = [] then line else reason)) []), tr'))
                         else
                           (case read_limited (maxb + 1) answer of
                              None \<Rightarrow>
                                (Inl (Wrapped (meth @ '': '' @ sentinel_text ErrInterrupted @ '': reading the download'')
                                   [Sentinel ErrInterrupted]), tr')
                            | Some data \<Rightarrow>
                                if maxb < length data then
                                  (Inr \<lparr>dl_data = take maxb data, dl_truncated = True\<rparr>, tr')
                                else
                                  (case awaitDownloadJob mw meth jid (de_polls env) tr' of
                                     (Some e, tr'') \<Rightarrow> (Inl e, tr'')
                                   | (None, tr'') \<Rightarrow> (Inr \<lparr>dl_data = data, dl_truncated = False\<rparr>, tr'')))))))"

subsection \<open>Text or binary\<close>

definition fileByteLimit :: nat where
  "fileByteLimit = 64 * 1024"

definition isText :: "string \<Rightarrow> bool \<Rightarrow> bool" where
  "isText data truncated =
     (if CHR 0x00 \<in> set data then False
      else if utf8_valid data then True
      else if \<not> truncated then False
      else list_ex (\<lambda>cut. cut \<le> length data \<and> utf8_valid (take (length data - cut) data)) [1, 2, 3])"

text \<open>\<^verbatim>\<open>path.Base\<close>: the last element of a slash-separated path.\<close>

definition path_base :: "string \<Rightarrow> string" where
  "path_base p =
     (if p = [] then ''.''
      else
        (let q = rev (dropWhile (\<lambda>c. c = CHR ''/'') (rev p));
             b = rev (takeWhile (\<lambda>c. c \<noteq> CHR ''/'') (rev q))
         in if b = [] then ''/'' else b))"

datatype read_refusal = LooksBinary string

definition readFile ::
  "middleware \<Rightarrow> download_env \<Rightarrow> dispatch_input \<Rightarrow> trace \<Rightarrow> (read_refusal, dispatch_output) tool_answer \<times> trace" where
  "readFile mw env inp tr =
     (case Download mw env ''filesystem.get'' [JStr (di_path inp)] (path_base (di_path inp)) fileByteLimit tr of
        (Inl e, tr') \<Rightarrow> (CallFailed e, tr')
      | (Inr got, tr') \<Rightarrow>
          if \<not> isText (dl_data got) (dl_truncated got) then (ToolError (LooksBinary (di_path inp)), tr')
          else (Answered (output_zero
                  \<lparr>do_op := di_op inp, do_truncated := dl_truncated got,
                   do_result := JObj [(''path'', JStr (di_path inp)), (''content'', JStr (dl_data got))]\<rparr>), tr'))"

subsection \<open>Lemmas\<close>

lemma read_limited_Some:
  "read_limited n a = Some d \<Longrightarrow> d = take n (snd (snd (status_of a)))"
  by (auto simp: read_limited_def status_of_def split: http_answer.splits if_splits)

lemma awaitDownloadJob_trace:
  "\<exists>cs. snd (awaitDownloadJob mw meth jid polls tr) = tr @ cs \<and> mc_method ` set cs \<subseteq> {''core.get_jobs''}"
proof (induction mw meth jid polls tr rule: awaitDownloadJob.induct)
  case (1 mw meth jid tr)
  then show ?case by simp
next
  case (2 mw meth jid late polls tr)
  obtain r tr' where j: "Job mw jid tr = (r, tr')" by fastforce
  with Job_trace [of mw jid tr] have tr': "tr' = tr @ [\<lparr>mc_method = ''core.get_jobs'',
      mc_params = [JArr [JArr [JStr ''id'', JStr ''='', JInt jid]]]\<rparr>]" by simp
  show ?case
  proof (cases "\<exists>v. r = Inr v \<and> \<not> Failed v \<and> \<not> Done v \<and> \<not> late")
    case True
    then obtain v where v: "r = Inr v" "\<not> Failed v" "\<not> Done v" "\<not> late" by blast
    from "2.IH" [OF j [symmetric] v] obtain cs where
      "snd (awaitDownloadJob mw meth jid polls tr') = tr' @ cs" "mc_method ` set cs \<subseteq> {''core.get_jobs''}" by blast
    with j v tr' show ?thesis by simp
  next
    case False
    with j tr' show ?thesis by (auto split: sum.split)
  qed
qed

lemma Download_data:
  assumes "fst (Download mw env meth args fn maxb tr) = Inr d"
  shows "\<exists>url. let body = snd (snd (status_of (de_fetch env url))) in
    fst (status_of (de_fetch env url)) = 200 \<and> dl_data d = take maxb body \<and>
    (dl_truncated d \<longleftrightarrow> maxb < length body)"
proof -
  from assms obtain raw jid path url data where
    "dec_download_answer raw = Some (jid, path)" and "de_resolve env path = Some url"
    and code: "fst (status_of (de_fetch env url)) = 200"
    and data: "read_limited (maxb + 1) (de_fetch env url) = Some data"
    and d: "d = (if maxb < length data then \<lparr>dl_data = take maxb data, dl_truncated = True\<rparr>
                 else \<lparr>dl_data = data, dl_truncated = False\<rparr>)"
    by (auto simp: Download_def Let_def split: sum.splits option.splits prod.splits http_answer.splits if_splits)
  have dt: "data = take (maxb + 1) (snd (snd (status_of (de_fetch env url))))"
    using data by (rule read_limited_Some)
  show ?thesis using d code by (intro exI [of _ url]) (auto simp: Let_def dt min_def)
qed

lemma isText_utf8: "isText data False \<longleftrightarrow> CHR 0x00 \<notin> set data \<and> utf8_valid data"
  by (simp add: isText_def)

lemma isText_cut:
  assumes "k \<le> 3" and "k \<le> length data" and "utf8_valid (take (length data - k) data)"
    and "CHR 0x00 \<notin> set data"
  shows "isText data True"
proof -
  from assms(1) have "k = 0 \<or> k = 1 \<or> k = 2 \<or> k = 3" by arith
  with assms show ?thesis by (auto simp: isText_def)
qed

subsection \<open>Properties\<close>

text \<open>
  Cutting a file off never makes text look binary: every prefix of a valid UTF-8 text without NUL
  bytes is accepted as text when it is marked as cut off, wherever the cut falls inside a character.
\<close>

theorem cut_text_stays_text:
  assumes "utf8_valid t" and "CHR 0x00 \<notin> set t"
  shows "isText (take n t) True"
proof -
  let ?d = "take n t"
  obtain cut where "cut \<le> 3" "cut \<le> length ?d" "utf8_valid (take (length ?d - cut) t)"
    using utf8_valid_cut [OF assms(1), of "length ?d"] by auto
  moreover have "take m ?d = take m t" if "m \<le> length ?d" for m
    using that by (simp add: min.absorb1)
  moreover have "CHR 0x00 \<notin> set ?d" using assms(2) by (meson in_set_takeD)
  ultimately show ?thesis by (intro isText_cut) simp_all
qed

lemma cut_text_stays_text_witness:
  "isText (take 3 [CHR ''a'', CHR 0xE2, CHR 0x82, CHR 0xAC]) True \<and>
   \<not> isText (take 3 [CHR ''a'', CHR 0xE2, CHR 0x82, CHR 0xAC]) False"
proof
  have "utf8_valid [CHR ''a'', CHR 0xE2, CHR 0x82, CHR 0xAC]"
    by (simp add: utf8_valid.simps rune_size_def byte_def cont_def second3_def)
  then show "isText (take 3 [CHR ''a'', CHR 0xE2, CHR 0x82, CHR 0xAC]) True"
    by (rule cut_text_stays_text) simp
  show "\<not> isText (take 3 [CHR ''a'', CHR 0xE2, CHR 0x82, CHR 0xAC]) False"
    by (simp add: isText_def utf8_valid.simps rune_size_def byte_def cont_def second3_def)
qed

text \<open>
  C38. Reading a file is bounded and honest: an answer holds the path asked for and the first bytes of
  what the target served with status 200, at most 64 KiB; it is marked as truncated exactly when more was
  served; and an answer that is not truncated is valid UTF-8 without NUL bytes.
\<close>

theorem readFile_bounded:
  assumes "fst (readFile mw env inp tr) = Answered out"
  shows "\<exists>content url body.
    body = snd (snd (status_of (de_fetch env url))) \<and> fst (status_of (de_fetch env url)) = 200 \<and>
    do_result out = JObj [(''path'', JStr (di_path inp)), (''content'', JStr content)] \<and>
    content = take (64 * 1024) body \<and> (do_truncated out \<longleftrightarrow> 64 * 1024 < length body) \<and>
    (do_truncated out \<or> CHR 0x00 \<notin> set content \<and> utf8_valid content)"
proof -
  let ?dl = "Download mw env ''filesystem.get'' [JStr (di_path inp)] (path_base (di_path inp)) fileByteLimit tr"
  from assms obtain got where got: "fst ?dl = Inr got"
    and istext: "isText (dl_data got) (dl_truncated got)"
    and out: "out = output_zero \<lparr>do_op := di_op inp, do_truncated := dl_truncated got,
        do_result := JObj [(''path'', JStr (di_path inp)), (''content'', JStr (dl_data got))]\<rparr>"
    by (auto simp: readFile_def split: prod.splits sum.splits if_splits)
  from Download_data [OF got] obtain url where
    "fst (status_of (de_fetch env url)) = 200"
    "dl_data got = take fileByteLimit (snd (snd (status_of (de_fetch env url))))"
    "dl_truncated got \<longleftrightarrow> fileByteLimit < length (snd (snd (status_of (de_fetch env url))))"
    by (auto simp: Let_def)
  with istext show ?thesis
    by (intro exI [of _ "dl_data got"] exI [of _ url] exI) (auto simp: out output_zero_def fileByteLimit_def isText_utf8)
qed

definition one_file_env :: download_env where
  "one_file_env = \<lparr>de_resolve = Some, de_fetch = (\<lambda>url. HttpStatus 200 ''200 OK'' ''hello''), de_polls = []\<rparr>"

definition download_middleware :: middleware where
  "download_middleware tr c = Inr (Some (JArr [JInt 7, JStr ''/_download/7'']))"

lemma readFile_bounded_witness:
  "\<exists>out. fst (readFile download_middleware one_file_env
       \<lparr>di_op = ''read'', di_id = [], di_name = [], di_container = [], di_pool = [], di_dataset = [],
        di_path = ''/mnt/a.txt'', di_category = [], di_limit = 0, di_full = False\<rparr> []) = Answered out \<and>
     do_result out = JObj [(''path'', JStr ''/mnt/a.txt''), (''content'', JStr ''hello'')] \<and> \<not> do_truncated out"
proof -
  let ?inp = "\<lparr>di_op = ''read'', di_id = [], di_name = [], di_container = [], di_pool = [], di_dataset = [],
        di_path = ''/mnt/a.txt'', di_category = [], di_limit = 0, di_full = False\<rparr>"
  have dec: "dec_download_answer (Some (JArr [JInt 7, JStr ''/_download/7''])) = Some (7, ''/_download/7'')"
    by (simp add: dec_download_answer_def in_int64_def)
  have "isText ''hello'' False"
    by (simp add: isText_def utf8_valid.simps rune_size_def byte_def)
  then obtain out where out: "fst (readFile download_middleware one_file_env ?inp []) = Answered out"
    by (simp add: readFile_def Download_def dec download_middleware_def one_file_env_def read_limited_def
        status_of_def fileByteLimit_def)
  from readFile_bounded [OF out] have "do_result out = JObj [(''path'', JStr ''/mnt/a.txt''), (''content'', JStr ''hello'')]
     \<and> \<not> do_truncated out" by (simp add: one_file_env_def status_of_def)
  with out show ?thesis by blast
qed

end
