(* ===== verification/Concern_Tool.thy ===== *)
theory Concern_Tool
  imports Concerns Log_Collector Read_File
begin

section \<open>The dispatch tools\<close>

text \<open>
  \<^verbatim>\<open>internal/server/concern_tool.go\<close>: the handler behind each concern. It resolves the operation, takes
  the two special paths (container logs, file contents), turns the arguments into the positional
  parameters of the middleware method, and shapes the answer: bounded to the limit and projected to the
  declared fields, saying what was withheld.
\<close>

subsection \<open>Arguments and parameters\<close>

definition input_args :: "dispatch_input \<Rightarrow> json gomap" where
  "input_args inp =
     (if di_id inp \<noteq> [] then [(''id'', JStr (di_id inp))] else []) @
     (if di_name inp \<noteq> [] then [(''name'', JStr (di_name inp))] else []) @
     (if di_container inp \<noteq> [] then [(''container'', JStr (di_container inp))] else []) @
     (if di_pool inp \<noteq> [] then [(''pool'', JStr (di_pool inp))] else []) @
     (if di_dataset inp \<noteq> [] then [(''dataset'', JStr (di_dataset inp))] else []) @
     (if di_path inp \<noteq> [] then [(''path'', JStr (di_path inp))] else []) @
     (if di_category inp \<noteq> [] then [(''category'', JStr (di_category inp))] else [])"

text \<open>
  \<^verbatim>\<open>withCallerLimit\<close>: a copy of the declared options whose \<^verbatim>\<open>query-options\<close> object, or an empty one
  where it is missing or no object, carries the limit.
\<close>

definition withCallerLimit :: "json gomap \<Rightarrow> int \<Rightarrow> json gomap" where
  "withCallerLimit options limit =
     (let queryOptions = (case map_of options ''query-options'' of Some (JObj m) \<Rightarrow> m | _ \<Rightarrow> [])
      in map_put ''query-options'' (JObj (map_put ''limit'' (JInt limit) queryOptions)) options)"

definition filter_params :: "op_filter list \<Rightarrow> json gomap \<Rightarrow> json list" where
  "filter_params fs argVals =
     concat (map (\<lambda>f. case map_of argVals (f_arg f) of
        None \<Rightarrow> []
      | Some v \<Rightarrow> [JArr [JStr (f_field f), JStr (f_operator f), v]]) fs)"

definition middlewareParams :: "op \<Rightarrow> dispatch_input \<Rightarrow> json list" where
  "middlewareParams op inp =
     (if di_id inp \<noteq> [] \<and> ''id'' \<in> set (op_args op) then [JStr (di_id inp)]
      else if di_name inp \<noteq> [] \<and> ''name'' \<in> set (op_args op) then [JStr (di_name inp)]
      else if di_path inp \<noteq> [] \<and> ''path'' \<in> set (op_args op) then [JStr (di_path inp)]
      else case op_options op of
        Some options \<Rightarrow> [JObj (withCallerLimit options (effectiveLimit (di_limit inp)))]
      | None \<Rightarrow>
          let filters = filter_params (op_filters op) (input_args inp)
          in if filters \<noteq> [] then [JArr filters] else [])"

subsection \<open>Shaping\<close>

definition projectFields :: "json \<Rightarrow> string list \<Rightarrow> json \<times> bool" where
  "projectFields item names =
     (case item of
        JObj obj \<Rightarrow>
          let out = List.map_filter (\<lambda>f. map_option (\<lambda>v. (f, v)) (map_of obj f)) (remdups names)
          in (JObj out, length out < length obj)
      | _ \<Rightarrow> (item, False))"

text \<open>
  A raw result that is no list is passed through: decoded as any value it is itself. The empty raw
  result decodes as nothing and is returned as the empty text. \<^verbatim>\<open>null\<close> decodes as a nil list, whose
  result is again \<^verbatim>\<open>null\<close>.
\<close>

definition shape :: "string \<Rightarrow> raw \<Rightarrow> int \<Rightarrow> string list \<Rightarrow> bool \<Rightarrow> dispatch_output" where
  "shape op raw limit0 project full =
     (let limit = effectiveLimit limit0
      in case unmarshal dec_slice raw of
           None \<Rightarrow>
             (case raw of
                None \<Rightarrow> output_zero\<lparr>do_op := op, do_result := JStr []\<rparr>
              | Some single \<Rightarrow> output_zero\<lparr>do_op := op, do_result := single\<rparr>)
         | Some xs \<Rightarrow>
             let total = int (length xs);
                 truncated = limit < total;
                 page = (if truncated then take (nat limit) xs else xs);
                 reduced = (if project \<noteq> [] \<and> \<not> full then map (\<lambda>x. projectFields x project) page
                            else map (\<lambda>x. (x, False)) page)
             in output_zero\<lparr>do_op := op, do_count := int (length page), do_total := total,
                  do_truncated := truncated, do_projected := list_ex snd reduced,
                  do_result := (if raw = Some JNull then JNull else JArr (map fst reduced))\<rparr>)"

subsection \<open>Container logs\<close>

text \<open>
  What \<^verbatim>\<open>appLogs\<close> gets from outside: the JSON text of the subscription arguments, a reason the client
  refuses to subscribe before asking the target, the schedule of what the stream and the timers do, and
  the stream's terminal error when the collection is over.
\<close>

datatype stream_event =
    EvCanceled
  | EvDeadline
  | EvQuiet
  | EvClosed
  | EvRaw json

record log_env =
  lo_args :: "string \<Rightarrow> string \<Rightarrow> int \<Rightarrow> string"
  lo_refused :: "string \<Rightarrow> go_error option"
  lo_events :: "string \<Rightarrow> stream_event list"
  lo_err :: "string \<Rightarrow> go_error option"

definition logByteLimit :: int where "logByteLimit = 32 * 1024"
definition logQuietInterval :: int where "logQuietInterval = 100 * 1000000"
definition logDeadline :: int where "logDeadline = 2 * 1000000000"

text \<open>An event that does not decode as a log line is dropped by the goroutine between the two channels.\<close>

definition dec_log_entry :: "json \<Rightarrow> log_entry option" where
  "dec_log_entry v =
     (case dec_struct (Some v) of
        None \<Rightarrow> None
      | Some kvs \<Rightarrow>
          (case (dec_string (jfield ''timestamp'' kvs), dec_string (jfield ''data'' kvs)) of
             (Some t, Some d) \<Rightarrow> Some \<lparr>le_timestamp = t, le_text = d\<rparr>
           | _ \<Rightarrow> None))"

fun select_cases :: "stream_event list \<Rightarrow> select_case list" where
  "select_cases [] = []"
| "select_cases (EvCanceled # es) = SelCanceled # select_cases es"
| "select_cases (EvDeadline # es) = SelDeadline # select_cases es"
| "select_cases (EvQuiet # es) = SelQuiet # select_cases es"
| "select_cases (EvClosed # es) = SelClosed # select_cases es"
| "select_cases (EvRaw v # es) =
     (case dec_log_entry v of None \<Rightarrow> select_cases es | Some e \<Rightarrow> SelEntry e # select_cases es)"

definition entry_json :: "log_entry \<Rightarrow> json" where
  "entry_json e = JObj [(''timestamp'', JStr (le_timestamp e)), (''data'', JStr (le_text e))]"

definition log_options :: "int \<Rightarrow> collect_options" where
  "log_options limit =
     \<lparr>opt_count = effectiveLimit limit, opt_bytes = logByteLimit, opt_quiet = logQuietInterval,
      opt_deadline = logDeadline\<rparr>"

text \<open>Choosing the container: the one given, or the app's only one.\<close>

definition pick_container :: "middleware \<Rightarrow> dispatch_input \<Rightarrow> trace \<Rightarrow> (go_error + string) \<times> trace" where
  "pick_container mw inp tr =
     (if di_container inp \<noteq> [] then (Inr (di_container inp), tr)
      else case mw_call mw ''app.container_ids'' [JStr (di_name inp)] tr of
        (Inl e, tr') \<Rightarrow> (Inl e, tr')
      | (Inr raw, tr') \<Rightarrow>
          (case unmarshal dec_struct raw of
             None \<Rightarrow> (Inl (Wrapped (''decoding containers for app '' @ go_quote (di_name inp)) []), tr')
           | Some details \<Rightarrow>
               (case sort (remdups (keys_of details)) of
                  [] \<Rightarrow> (Inl (Wrapped (''app '' @ go_quote (di_name inp) @ '' has no containers'') []), tr')
                | [c] \<Rightarrow> (Inr c, tr')
                | cs \<Rightarrow>
                    (Inl (Wrapped (''app '' @ go_quote (di_name inp) @
                       '' has multiple containers; supply container as one of: ['' @ join_str '' '' cs @ '']'') []), tr'))))"

datatype dispatch_refusal =
    Unresolved resolve_error
  | Unreadable read_refusal

text \<open>\<^term>\<open>None\<close> as the answer: the schedule ended with the collector still waiting.\<close>

definition appLogs ::
  "middleware \<Rightarrow> log_env \<Rightarrow> dispatch_input \<Rightarrow> trace \<Rightarrow>
     (dispatch_refusal, dispatch_output) tool_answer option \<times> trace" where
  "appLogs mw lenv inp tr =
     (case pick_container mw inp tr of
        (Inl e, tr') \<Rightarrow> (Some (CallFailed e), tr')
      | (Inr container, tr') \<Rightarrow>
          let source = ''app.container_log_follow:'' @
                lo_args lenv (di_name inp) container (effectiveLimit (di_limit inp))
          in (case lo_refused lenv source of
                Some e \<Rightarrow> (Some (CallFailed e), tr')
              | None \<Rightarrow>
                  (case mw_call mw ''core.subscribe'' [JStr source] tr' of
                     (Inl e, tr'') \<Rightarrow> (Some (CallFailed e), tr'')
                   | (Inr _, tr'') \<Rightarrow>
                       (case collectLogEntries (log_options (di_limit inp)) (select_cases (lo_events lenv source)) of
                          None \<Rightarrow> (None, tr'')
                        | Some coll \<Rightarrow>
                            (case lo_err lenv source of
                               Some e \<Rightarrow> (Some (CallFailed e), tr'')
                             | None \<Rightarrow>
                                 (Some (Answered (output_zero
                                    \<lparr>do_op := di_op inp, do_count := int (length (co_entries coll)),
                                     do_truncated := (co_bound coll = BoundBytes),
                                     do_bound := bound_text (co_bound coll),
                                     do_withheld := co_withheld coll,
                                     do_result := JArr (map entry_json (co_entries coll))\<rparr>)), tr''))))))"

subsection \<open>The handler\<close>

definition lift_read ::
  "(read_refusal, dispatch_output) tool_answer \<Rightarrow> (dispatch_refusal, dispatch_output) tool_answer" where
  "lift_read a = (case a of CallFailed e \<Rightarrow> CallFailed e | ToolError r \<Rightarrow> ToolError (Unreadable r) | Answered out \<Rightarrow> Answered out)"

definition concern_tool ::
  "concern \<Rightarrow> middleware \<Rightarrow> log_env \<Rightarrow> download_env \<Rightarrow> go_error option \<Rightarrow> dispatch_input \<Rightarrow> trace \<Rightarrow>
     (dispatch_refusal, dispatch_output) tool_answer option \<times> trace" where
  "concern_tool c mw lenv denv sess inp tr =
     (case Resolve c (di_op inp) (input_args inp) of
        Inl e \<Rightarrow> (Some (ToolError (Unresolved e)), tr)
      | Inr op \<Rightarrow>
          (case sess of
             Some e \<Rightarrow> (Some (CallFailed e), tr)
           | None \<Rightarrow>
               if c_name c = ''apps'' \<and> op_name op = ''logs'' then appLogs mw lenv inp tr
               else if c_name c = ''filesystem'' \<and> op_name op = ''read'' then
                 (case readFile mw denv inp tr of (a, tr') \<Rightarrow> (Some (lift_read a), tr'))
               else
                 (case mw_call mw (op_method op) (middlewareParams op inp) tr of
                    (Inl e, tr') \<Rightarrow> (Some (CallFailed e), tr')
                  | (Inr raw, tr') \<Rightarrow>
                      let out = shape (di_op inp) raw (di_limit inp) (op_project op) (di_full inp)
                      in (Some (Answered (if op_options op \<noteq> None
                            then out\<lparr>do_total := 0, do_truncated := False\<rparr> else out)), tr'))))"

subsection \<open>Lemmas\<close>

text \<open>What projection leaves of an object.\<close>

definition projection :: "json gomap \<Rightarrow> string list \<Rightarrow> json gomap" where
  "projection obj names = List.map_filter (\<lambda>f. map_option (\<lambda>v. (f, v)) (map_of obj f)) (remdups names)"

lemma keys_projection: "keys_of (projection obj names) = filter (\<lambda>f. f \<in> set (keys_of obj)) (remdups names)"
proof -
  have "keys_of (List.map_filter (\<lambda>f. map_option (\<lambda>v. (f, v)) (map_of obj f)) ns) =
      filter (\<lambda>f. f \<in> set (keys_of obj)) ns" for ns
  proof (induction ns)
    case (Cons n ns)
    show ?case
    proof (cases "map_of obj n")
      case None
      then have "n \<notin> set (keys_of obj)" by (simp add: map_of_eq_None_iff)
      with None Cons show ?thesis by (simp add: map_filter_simps)
    next
      case (Some v)
      then have "n \<in> set (keys_of obj)" by (force dest: map_of_SomeD)
      with Some Cons show ?thesis by (simp add: map_filter_simps)
    qed
  qed (simp add: map_filter_simps)
  then show ?thesis by (simp add: projection_def)
qed

lemma map_of_projection:
  "map_of (projection obj names) k = (if k \<in> set names then map_of obj k else None)"
proof -
  have "map_of (List.map_filter (\<lambda>f. map_option (\<lambda>v. (f, v)) (map_of obj f)) ns) k =
      (if k \<in> set ns then map_of obj k else None)" for ns
    by (induction ns) (auto simp: map_filter_simps split: option.splits)
  then show ?thesis by (simp add: projection_def)
qed

lemma projection_drops:
  assumes "distinct (keys_of obj)"
  shows "length (projection obj names) < length obj \<longleftrightarrow> \<not> set (keys_of obj) \<subseteq> set names"
proof -
  let ?K = "set (keys_of obj)"
  have "length (projection obj names) = length (keys_of (projection obj names))" by simp
  also have "\<dots> = card (set (filter (\<lambda>f. f \<in> ?K) (remdups names)))"
    unfolding keys_projection by (rule distinct_card [symmetric]) simp
  also have "\<dots> = card (?K \<inter> set names)" by (rule arg_cong [of _ _ card]) auto
  finally have len: "length (projection obj names) = card (?K \<inter> set names)" .
  have card: "length obj = card ?K" using distinct_card [OF assms] by simp
  show ?thesis
  proof (cases "?K \<subseteq> set names")
    case True
    then have "?K \<inter> set names = ?K" by blast
    with True len card show ?thesis by simp
  next
    case False
    then have "?K \<inter> set names \<subset> ?K" by blast
    then have "card (?K \<inter> set names) < card ?K" by (simp add: psubset_card_mono)
    with False len card show ?thesis by simp
  qed
qed

lemma projectFields_simps:
  "projectFields (JObj obj) names = (JObj (projection obj names), length (projection obj names) < length obj)"
  by (simp add: projectFields_def projection_def Let_def)

lemma map_fst_pair [simp]: "map (fst \<circ> (\<lambda>x. (x, False))) xs = xs"
  by (induction xs) simp_all

lemma list_ex_snd_pair [simp]: "\<not> list_ex (\<lambda>x. snd (x, False)) xs"
  by (induction xs) simp_all

text \<open>A value loses a field under projection.\<close>

definition loses_field :: "string list \<Rightarrow> json \<Rightarrow> bool" where
  "loses_field names x \<longleftrightarrow> (case x of JObj obj \<Rightarrow> \<not> set (keys_of obj) \<subseteq> set names | _ \<Rightarrow> False)"

definition distinct_members :: "json \<Rightarrow> bool" where
  "distinct_members x \<longleftrightarrow> (case x of JObj obj \<Rightarrow> distinct (keys_of obj) | _ \<Rightarrow> True)"

lemma projectFields_dropped:
  "distinct_members x \<Longrightarrow> snd (projectFields x names) = loses_field names x"
  by (cases x) (auto simp: projectFields_def loses_field_def distinct_members_def Let_def
      projection_drops [unfolded projection_def])

lemma projectFields_kept:
  "fst (projectFields x names) = (case x of JObj obj \<Rightarrow> JObj (projection obj names) | _ \<Rightarrow> x)"
  by (simp add: projectFields_def projection_def Let_def split: json.split)

lemma shape_list:
  "shape n (Some (JArr xs)) limit names full =
     output_zero\<lparr>do_op := n,
       do_count := int (length (take (nat (effectiveLimit limit)) xs)), do_total := int (length xs),
       do_truncated := effectiveLimit limit < int (length xs),
       do_projected := names \<noteq> [] \<and> \<not> full \<and>
         list_ex (\<lambda>x. snd (projectFields x names)) (take (nat (effectiveLimit limit)) xs),
       do_result := JArr (if names \<noteq> [] \<and> \<not> full
         then map (\<lambda>x. fst (projectFields x names)) (take (nat (effectiveLimit limit)) xs)
         else take (nat (effectiveLimit limit)) xs)\<rparr>"
proof -
  have page: "(if effectiveLimit limit < int (length xs) then take (nat (effectiveLimit limit)) xs else xs) =
      take (nat (effectiveLimit limit)) xs" by simp
  show ?thesis
    unfolding shape_def Let_def unmarshal_simps dec_slice.simps option.case page
    by (simp add: list_ex_iff comp_def)
qed

subsection \<open>What the handler sends\<close>

text \<open>
  The shape every operation the dispatcher sends as a plain call has: one positional argument and nothing
  else, or no positional argument, with filters or options but not both.
\<close>

definition plain_shape :: "op \<Rightarrow> bool" where
  "plain_shape op \<longleftrightarrow>
     (op_filters op = [] \<and> op_options op = None \<and> length (op_args op) = 1 \<and>
        set (op_args op) \<subseteq> set positional_args) \<or>
     (op_args op = [] \<and> (op_options op = None \<or> op_filters op = []))"

definition plain_op :: "concern \<Rightarrow> op \<Rightarrow> bool" where
  "plain_op c op \<longleftrightarrow> (c_name c, op_name op) \<notin> set special_ops"

lemma concern_plain_shapes:
  "list_all (\<lambda>c. list_all (\<lambda>op. plain_op c op \<longrightarrow> plain_shape op) (c_ops c)) ReadConcerns"
  by (simp add: ReadConcerns_def table_simps plain_op_def plain_shape_def)

lemma plain_shape_of:
  assumes "c \<in> set ReadConcerns" and "Resolve c n args = Inr op" and "plain_op c op"
  shows "plain_shape op"
  using concern_plain_shapes assms concerns.resolve_from_table [OF assms(2)] by (auto simp: list_all_iff)

lemma map_of_input_args:
  "map_of (input_args inp) a =
     (let v = (if a = ''id'' then di_id inp else if a = ''name'' then di_name inp
               else if a = ''container'' then di_container inp else if a = ''pool'' then di_pool inp
               else if a = ''dataset'' then di_dataset inp else if a = ''path'' then di_path inp
               else if a = ''category'' then di_category inp else [])
      in if v = [] then None else Some (JStr v))"
  by (simp add: input_args_def Let_def)

lemma input_args_nonempty: "map_of (input_args inp) a = Some v \<Longrightarrow> \<exists>s. s \<noteq> [] \<and> v = JStr s"
  by (auto simp: map_of_input_args Let_def split: if_splits)

lemma filter_params_all:
  "f \<in> set fs \<Longrightarrow> map_of argVals (f_arg f) = Some v \<Longrightarrow>
     JArr [JStr (f_field f), JStr (f_operator f), v] \<in> set (filter_params fs argVals)"
  by (force simp: filter_params_def)

lemma positional_param:
  assumes "op_args op = [a]" and "a \<in> set positional_args" and "map_of (input_args inp) a = Some v"
  shows "middlewareParams op inp = [v]"
  using assms by (auto simp: positional_args_def middlewareParams_def map_of_input_args split: if_splits)

lemma filtered_params:
  assumes "op_args op = []" and "op_options op = None"
    and "f \<in> set (op_filters op)" and "map_of (input_args inp) (f_arg f) = Some v"
  shows "\<exists>filters. middlewareParams op inp = [JArr filters] \<and>
    JArr [JStr (f_field f), JStr (f_operator f), v] \<in> set filters"
  using filter_params_all [OF assms(3,4)] assms(1,2) by (auto simp: middlewareParams_def Let_def)

text \<open>The methods a concern's tool may call.\<close>

definition concern_methods :: "concern \<Rightarrow> string set" where
  "concern_methods c =
     op_method ` {op \<in> set (c_ops c). plain_op c op} \<union>
     (if c_name c = ''apps'' then {''app.container_ids'', ''core.subscribe''} else {}) \<union>
     (if c_name c = ''filesystem'' then {''core.download'', ''core.get_jobs''} else {})"

lemma pick_container_trace:
  "\<exists>cs. snd (pick_container mw inp tr) = tr @ cs \<and> mc_method ` set cs \<subseteq> {''app.container_ids''}"
  by (auto simp: pick_container_def split: sum.split option.split list.split)

lemma appLogs_trace:
  "\<exists>cs. snd (appLogs mw lenv inp tr) = tr @ cs \<and>
     mc_method ` set cs \<subseteq> {''app.container_ids'', ''core.subscribe''}"
proof -
  obtain cs where cs: "snd (pick_container mw inp tr) = tr @ cs" "mc_method ` set cs \<subseteq> {''app.container_ids''}"
    using pick_container_trace by blast
  obtain r tr' where p: "pick_container mw inp tr = (r, tr')" by fastforce
  with cs have tr': "tr' = tr @ cs" by simp
  show ?thesis using cs(2)
    by (cases r) (auto simp: appLogs_def p tr' Let_def split: option.split sum.split)
qed

lemma Download_trace:
  "\<exists>cs. snd (Download mw env meth args fn maxb tr) = tr @ cs \<and>
     mc_method ` set cs \<subseteq> {''core.download'', ''core.get_jobs''}"
proof -
  let ?c = "\<lparr>mc_method = ''core.download'', mc_params = [JStr meth, JArr args, JStr fn, JBool False]\<rparr>"
  have "\<exists>cs. snd (awaitDownloadJob mw meth jid polls (tr @ [?c])) = tr @ ?c # cs \<and>
      (\<forall>c \<in> set cs. mc_method c = ''core.get_jobs'')" for jid polls
    using awaitDownloadJob_trace [of mw meth jid polls "tr @ [?c]"] by (auto simp: image_subset_iff)
  then have wait: "\<exists>cs. a = (r, tr @ ?c # cs) \<and> (\<forall>c \<in> set cs. mc_method c = ''core.get_jobs'')"
    if "awaitDownloadJob mw meth jid polls (tr @ [?c]) = a" "fst a = r" for jid polls a r
    using that by (metis prod.collapse)
  show ?thesis
    by (auto simp: Download_def Let_def dest!: wait
        split: sum.split option.split prod.split http_answer.split)
qed

lemma readFile_trace:
  "\<exists>cs. snd (readFile mw env inp tr) = tr @ cs \<and>
     mc_method ` set cs \<subseteq> {''core.download'', ''core.get_jobs''}"
proof -
  obtain r tr' where d: "Download mw env ''filesystem.get'' [JStr (di_path inp)]
      (path_base (di_path inp)) fileByteLimit tr = (r, tr')" by fastforce
  with Download_trace [of mw env "''filesystem.get''" "[JStr (di_path inp)]"
      "path_base (di_path inp)" fileByteLimit tr]
  have "\<exists>cs. tr' = tr @ cs \<and> mc_method ` set cs \<subseteq> {''core.download'', ''core.get_jobs''}" by simp
  with d show ?thesis by (cases r) (simp_all add: readFile_def)
qed

lemma concern_tool_plain:
  assumes "Resolve c (di_op inp) (input_args inp) = Inr op" and "plain_op c op"
  shows "concern_tool c mw lenv denv None inp tr =
    (case mw_call mw (op_method op) (middlewareParams op inp) tr of
       (Inl e, tr') \<Rightarrow> (Some (CallFailed e), tr')
     | (Inr raw, tr') \<Rightarrow>
         (Some (Answered (if op_options op \<noteq> None
            then shape (di_op inp) raw (di_limit inp) (op_project op) (di_full inp)\<lparr>do_total := 0, do_truncated := False\<rparr>
            else shape (di_op inp) raw (di_limit inp) (op_project op) (di_full inp))), tr'))"
  using assms by (auto simp: concern_tool_def plain_op_def special_ops_def Let_def split: sum.split)

lemma concern_tool_trace:
  assumes c: "c \<in> set ReadConcerns"
  shows "\<exists>cs. snd (concern_tool c mw lenv denv sess inp tr) = tr @ cs \<and>
    mc_method ` set cs \<subseteq> concern_methods c"
proof (cases "Resolve c (di_op inp) (input_args inp)")
  case (Inl e)
  then show ?thesis by (simp add: concern_tool_def)
next
  case (Inr op)
  note from_table = concerns.resolve_from_table [OF Inr]
  consider "sess \<noteq> None" | "sess = None" "plain_op c op"
    | "sess = None" "c_name c = ''apps''" "op_name op = ''logs''"
    | "sess = None" "c_name c = ''filesystem''" "op_name op = ''read''"
    by (cases sess) (auto simp: plain_op_def special_ops_def)
  then show ?thesis
  proof cases
    case 1
    with Inr show ?thesis by (auto simp: concern_tool_def)
  next
    case 2
    with from_table have "op_method op \<in> concern_methods c" by (auto simp: concern_methods_def)
    with 2 show ?thesis by (simp add: concern_tool_plain [OF Inr] split: sum.split)
  next
    case 3
    with Inr appLogs_trace [of mw lenv inp tr] show ?thesis
      by (auto simp: concern_tool_def concern_methods_def)
  next
    case 4
    with Inr readFile_trace [of mw denv inp tr] show ?thesis
      by (auto simp: concern_tool_def concern_methods_def image_subset_iff split: prod.split)
  qed
qed

lemma concern_methods_permitted:
  assumes c: "c \<in> set ReadConcerns" and m: "m \<in> concern_methods c"
  shows "CheckDenied m [] = None"
proof -
  from c ReadConcerns_concern_wf have "list_all op_wf (c_ops c)"
    by (auto simp: list_all_iff concern_wf_def)
  with m show ?thesis
    by (auto simp: concern_methods_def list_all_iff op_wf_def denied_bare_iff DeniedMethods_eq split: if_splits)
qed

subsection \<open>Properties\<close>

text \<open>
  A bounded answer says so. For a list of objects, the tool returns the first items up to the
  effective limit, the count and the total are those of the page and of the list, it is marked truncated
  exactly when items were left out, and it is marked projected exactly when some returned object had a
  field the operation does not show by default; asking for everything leaves the items untouched.
\<close>

theorem shape_honest:
  assumes "list_all distinct_members xs"
  shows "let out = shape n (Some (JArr xs)) limit names full;
             page = take (nat (effectiveLimit limit)) xs
    in do_count out = min (effectiveLimit limit) (int (length xs)) \<and> do_total out = int (length xs) \<and>
       (do_truncated out \<longleftrightarrow> do_count out < do_total out) \<and>
       (if full \<or> names = [] then do_result out = JArr page \<and> \<not> do_projected out
        else do_result out =
               JArr (map (\<lambda>x. case x of JObj obj \<Rightarrow> JObj (projection obj names) | _ \<Rightarrow> x) page) \<and>
             (do_projected out \<longleftrightarrow> list_ex (loses_field names) page))"
proof -
  obtain k where k: "effectiveLimit limit = int k"
    using effectiveLimit_pos [of limit] by (metis less_imp_le nonneg_int_cases)
  have "list_ex (\<lambda>x. snd (projectFields x names)) (take k xs) = list_ex (loses_field names) (take k xs)"
    using assms by (intro list_ex_cong) (auto simp: list_all_iff projectFields_dropped dest: in_set_takeD)
  then show ?thesis
    by (auto simp: shape_list Let_def projectFields_kept k min_def)
qed

lemma shape_honest_witness:
  "do_result (shape ''list'' (Some (JArr [JObj [(''name'', JStr ''a''), (''x'', JInt 1)], JObj []])) 1 [''name''] False) =
     JArr [JObj [(''name'', JStr ''a'')]] \<and>
   do_truncated (shape ''list'' (Some (JArr [JObj [(''name'', JStr ''a''), (''x'', JInt 1)], JObj []])) 1 [''name''] False) \<and>
   do_projected (shape ''list'' (Some (JArr [JObj [(''name'', JStr ''a''), (''x'', JInt 1)], JObj []])) 1 [''name''] False)"
  using shape_honest [of "[JObj [(''name'', JStr ''a''), (''x'', JInt 1)], JObj []]" "''list''" 1 "[''name'']" False]
  by (simp add: Let_def effectiveLimit_def distinct_members_def projection_def map_filter_simps loses_field_def)


definition blank_input :: dispatch_input where
  "blank_input = \<lparr>di_op = [], di_id = [], di_name = [], di_container = [], di_pool = [], di_dataset = [],
     di_path = [], di_category = [], di_limit = 0, di_full = False\<rparr>"

definition no_logs :: log_env where
  "no_logs = \<lparr>lo_args = (\<lambda>_ _ _. []), lo_refused = (\<lambda>_. None), lo_events = (\<lambda>_. []), lo_err = (\<lambda>_. None)\<rparr>"


text \<open>
  C35. No accepted argument is ignored: when an operation sent as a plain call resolves, every argument
  the caller supplied reaches the middleware, as the call's only parameter or as a filter on the field
  and with the operator the operation declares for it.
\<close>

theorem accepted_arguments_reach_target:
  assumes "c \<in> set ReadConcerns" and "Resolve c (di_op inp) (input_args inp) = Inr op"
    and "(c_name c, op_name op) \<notin> set special_ops" and "map_of (input_args inp) a = Some v"
  shows "middlewareParams op inp = [v] \<or>
    (\<exists>filters f. middlewareParams op inp = [JArr filters] \<and> f \<in> set (op_filters op) \<and> f_arg f = a \<and>
       JArr [JStr (f_field f), JStr (f_operator f), v] \<in> set filters)"
proof -
  from assms(4) have "a \<in> set (keys_of (input_args inp))" by (force dest: map_of_SomeD)
  with concerns.resolve_declared [OF assms(2)] have acc: "a \<in> set (op_args op) \<union> f_arg ` set (op_filters op)"
    by (auto simp: set_acceptedArgs)
  have "plain_shape op" using plain_shape_of [OF assms(1,2)] assms(3) by (simp add: plain_op_def)
  then consider (pos) "op_filters op = []" "length (op_args op) = 1" "set (op_args op) \<subseteq> set positional_args"
    | (filt) "op_args op = []" "op_options op = None" | (none) "op_args op = []" "op_filters op = []"
    by (auto simp: plain_shape_def)
  then show ?thesis
  proof cases
    case pos
    with acc have "op_args op = [a]" by (cases "op_args op") auto
    with pos(3) assms(4) have "middlewareParams op inp = [v]" by (intro positional_param) auto
    then show ?thesis by blast
  next
    case filt
    with acc obtain f where f: "f \<in> set (op_filters op)" "f_arg f = a" by auto
    with filtered_params [OF filt f(1)] assms(4) show ?thesis by metis
  next
    case none
    with acc show ?thesis by simp
  qed
qed

lemma accepted_arguments_reach_target_witness:
  "middlewareParams (op_zero\<lparr>op_name := ''list_datasets'', op_summary := ''datasets with usage; narrow with pool'',
       op_method := ''pool.dataset.query'',
       op_filters := [\<lparr>f_arg = ''pool'', f_field = ''pool'', f_operator = ''=''\<rparr>]\<rparr>)
     (blank_input\<lparr>di_op := ''list_datasets'', di_pool := ''tank''\<rparr>) =
     [JArr [JArr [JStr ''pool'', JStr ''='', JStr ''tank'']]]"
proof -
  let ?inp = "blank_input\<lparr>di_op := ''list_datasets'', di_pool := ''tank''\<rparr>"
  let ?op = "op_zero\<lparr>op_name := ''list_datasets'', op_summary := ''datasets with usage; narrow with pool'',
       op_method := ''pool.dataset.query'',
       op_filters := [\<lparr>f_arg = ''pool'', f_field = ''pool'', f_operator = ''=''\<rparr>]\<rparr>"
  have c: "Storage \<in> set ReadConcerns" by (simp add: ReadConcerns_def)
  have r: "Resolve Storage (di_op ?inp) (input_args ?inp) = Inr ?op"
    by (simp add: Resolve_def table_simps blank_input_def input_args_def)
  have sp: "(c_name Storage, op_name ?op) \<notin> set special_ops"
    by (simp add: special_ops_def Storage_def)
  have "map_of (input_args ?inp) ''pool'' = Some (JStr ''tank'')"
    by (simp add: blank_input_def input_args_def)
  from accepted_arguments_reach_target [OF c r sp this] show ?thesis
    by (simp add: middlewareParams_def filter_params_def blank_input_def input_args_def op_zero_def)
qed

text \<open>
  An operation with constant options is bounded by the target itself: its one parameter is an
  object equal to the declared one except that its query options carry the effective limit, whatever
  else they hold is kept, and the answer claims neither a total nor truncation.
\<close>

theorem options_op_sends_limit:
  assumes "c \<in> set ReadConcerns" and "Resolve c (di_op inp) (input_args inp) = Inr op"
    and "(c_name c, op_name op) \<notin> set special_ops" and "op_options op = Some opts"
    and "map_of opts ''query-options'' = Some (JObj q0)"
  shows "\<exists>m q. snd (concern_tool c mw lenv denv None inp tr) =
      tr @ [\<lparr>mc_method = op_method op, mc_params = [JObj m]\<rparr>] \<and>
    map_of m = (map_of opts)(''query-options'' \<mapsto> JObj q) \<and>
    map_of q = (map_of q0)(''limit'' \<mapsto> JInt (if di_limit inp \<le> 0 then 50 else di_limit inp)) \<and>
    (case fst (concern_tool c mw lenv denv None inp tr) of
       Some (Answered out) \<Rightarrow> do_total out = 0 \<and> \<not> do_truncated out | _ \<Rightarrow> True)"
proof -
  let ?limit = "effectiveLimit (di_limit inp)"
  let ?q = "map_put ''limit'' (JInt ?limit) q0"
  let ?m = "map_put ''query-options'' (JObj ?q) opts"
  have plain: "plain_op c op" using assms(3) by (simp add: plain_op_def)
  have "plain_shape op" using plain_shape_of [OF assms(1,2) plain] .
  with assms(4) have "op_args op = []" by (auto simp: plain_shape_def)
  with assms(4,5) have params: "middlewareParams op inp = [JObj ?m]"
    by (simp add: middlewareParams_def withCallerLimit_def Let_def)
  have m: "map_of ?m = (map_of opts)(''query-options'' \<mapsto> JObj ?q)"
    and q: "map_of ?q = (map_of q0)(''limit'' \<mapsto> JInt ?limit)"
    by (rule ext, simp add: map_of_map_put)+
  have "?limit = (if di_limit inp \<le> 0 then 50 else di_limit inp)"
    by (simp add: effectiveLimit_def defaultLimit_def)
  with q have q': "map_of ?q = (map_of q0)(''limit'' \<mapsto> JInt (if di_limit inp \<le> 0 then 50 else di_limit inp))"
    by (rule trans [OF _ arg_cong [of _ _ "\<lambda>l. (map_of q0)(''limit'' \<mapsto> JInt l)"]])
  have calls: "snd (concern_tool c mw lenv denv None inp tr) =
      tr @ [\<lparr>mc_method = op_method op, mc_params = [JObj ?m]\<rparr>]"
    by (simp add: concern_tool_plain [OF assms(2) plain] params split: sum.split)
  have answer: "case fst (concern_tool c mw lenv denv None inp tr) of
       Some (Answered out) \<Rightarrow> do_total out = 0 \<and> \<not> do_truncated out | _ \<Rightarrow> True"
    using assms(4) by (simp add: concern_tool_plain [OF assms(2) plain] split: sum.split)
  show ?thesis
    using calls m q' answer by (intro exI [of _ ?m] exI [of _ ?q] conjI)
qed

definition audit_op :: op where
  "audit_op = op_zero\<lparr>op_name := ''audit_log'',
     op_summary := ''recent audited actions, for seeing what changed on the system'',
     op_method := ''audit.query'',
     op_project := [''message_timestamp'', ''event'', ''username'', ''address'', ''service'', ''success'', ''event_data''],
     op_options := Some [(''query-options'', JObj [(''order_by'', JArr [JStr ''-message_timestamp''])])]\<rparr>"

lemma options_op_sends_limit_witness:
  "\<exists>m q. snd (concern_tool System (\<lambda>_ _. Inr (Some (JArr []))) no_logs one_file_env None
       (blank_input\<lparr>di_op := ''audit_log'', di_limit := 5\<rparr>) []) =
     [\<lparr>mc_method = ''audit.query'', mc_params = [JObj m]\<rparr>] \<and>
     map_of m ''query-options'' = Some (JObj q) \<and> map_of q ''limit'' = Some (JInt 5) \<and>
     map_of q ''order_by'' = Some (JArr [JStr ''-message_timestamp''])"
proof -
  let ?inp = "blank_input\<lparr>di_op := ''audit_log'', di_limit := 5\<rparr>"
  have c: "System \<in> set ReadConcerns" by (simp add: ReadConcerns_def)
  have r: "Resolve System (di_op ?inp) (input_args ?inp) = Inr audit_op"
    by (simp add: Resolve_def table_simps blank_input_def input_args_def audit_op_def)
  have sp: "(c_name System, op_name audit_op) \<notin> set special_ops"
    by (simp add: special_ops_def audit_op_def op_zero_def)
  have o1: "op_options audit_op = Some [(''query-options'', JObj [(''order_by'', JArr [JStr ''-message_timestamp''])])]"
    and o2: "map_of [(''query-options'', JObj [(''order_by'', JArr [JStr ''-message_timestamp''])])] ''query-options'' =
      Some (JObj [(''order_by'', JArr [JStr ''-message_timestamp''])])"
    by (simp_all add: audit_op_def)
  obtain m q where "snd (concern_tool System (\<lambda>_ _. Inr (Some (JArr []))) no_logs one_file_env None ?inp []) =
      [] @ [\<lparr>mc_method = op_method audit_op, mc_params = [JObj m]\<rparr>]"
    and "map_of m = (map_of [(''query-options'', JObj [(''order_by'', JArr [JStr ''-message_timestamp''])])])(''query-options'' \<mapsto> JObj q)"
    and "map_of q = (map_of [(''order_by'', JArr [JStr ''-message_timestamp''])])(''limit'' \<mapsto>
        JInt (if di_limit ?inp \<le> 0 then 50 else di_limit ?inp))"
    using options_op_sends_limit [OF c r sp o1 o2, of "\<lambda>_ _. Inr (Some (JArr []))" no_logs one_file_env "[]"] by blast
  then show ?thesis
    by (intro exI [of _ m] exI [of _ q] conjI) (simp_all only: append_Nil, simp_all add: blank_input_def audit_op_def)
qed

end
