(* ===== verification/Writes.thy ===== *)
theory Writes
  imports Safety
begin

section \<open>The mutating tools\<close>

text \<open>
  \<^verbatim>\<open>internal/tools/writes.go\<close>, \<^verbatim>\<open>internal/tools/config_writes.go\<close> and \<^verbatim>\<open>internal/server/annotations.go\<close>: the
  fifteen mutating operations as the source declares them, and the annotations a client decides consent
  by. Each write is a tool of its own.
\<close>

subsection \<open>Operations\<close>

record write_op =
  wo_name :: string
  wo_title :: string
  wo_description :: string
  wo_method :: string
  wo_destructive :: bool
  wo_idempotent :: bool
  wo_target_arg :: string
  wo_options :: "string list"
  wo_synchronous :: bool

text \<open>An operation all of whose optional declarations are left at Go's zero value.\<close>

definition write_zero :: write_op where
  "write_zero = \<lparr>wo_name = [], wo_title = [], wo_description = [], wo_method = [], wo_destructive = False,
     wo_idempotent = False, wo_target_arg = [], wo_options = [], wo_synchronous = False\<rparr>"

definition AppWrites :: "write_op list" where
  "AppWrites =
     [write_zero\<lparr>wo_name := ''app_pull_images'',
          wo_title := ''Pull new images and redeploy an app'',
          wo_description := ''Pull the latest container images for an installed app and redeploy it. This is how you update an app that tracks a moving image tag. Redeploys by default; the app is briefly unavailable while it restarts. Reversible with app_rollback.'',
          wo_method := ''app.pull_images'',
          wo_destructive := True,
          wo_target_arg := ''app_name'',
          wo_options := [''redeploy'']\<rparr>,
      write_zero\<lparr>wo_name := ''app_redeploy'',
          wo_title := ''Redeploy an app'',
          wo_description := ''Redeploy an installed app without pulling new images. Use this to apply a configuration change or restart a stuck app. The app is briefly unavailable.'',
          wo_method := ''app.redeploy'',
          wo_destructive := True,
          wo_target_arg := ''app_name''\<rparr>,
      write_zero\<lparr>wo_name := ''app_start'',
          wo_title := ''Start an app'',
          wo_description := ''Start a stopped app.'',
          wo_method := ''app.start'',
          wo_idempotent := True,
          wo_target_arg := ''app_name''\<rparr>,
      write_zero\<lparr>wo_name := ''app_stop'',
          wo_title := ''Stop an app'',
          wo_description := ''Stop a running app. The app becomes unavailable until started again. Reversible with app_start.'',
          wo_method := ''app.stop'',
          wo_destructive := True,
          wo_idempotent := True,
          wo_target_arg := ''app_name''\<rparr>,
      write_zero\<lparr>wo_name := ''app_upgrade'',
          wo_title := ''Upgrade an app'',
          wo_description := ''Upgrade an app to a newer catalog version. Check apps/upgrade_summary first to see what would change. Reversible with app_rollback.'',
          wo_method := ''app.upgrade'',
          wo_destructive := True,
          wo_target_arg := ''app_name''\<rparr>,
      write_zero\<lparr>wo_name := ''app_rollback'',
          wo_title := ''Roll an app back to a previous version'',
          wo_description := ''Roll an app back to a previous version. This is the recovery path for a bad upgrade or image pull. Use apps/rollback_versions to see what is available.'',
          wo_method := ''app.rollback'',
          wo_destructive := True,
          wo_target_arg := ''app_name''\<rparr>]"

definition SnapshotWrite :: write_op where
  "SnapshotWrite =
     write_zero\<lparr>wo_name := ''create_snapshot'',
          wo_title := ''Create a snapshot'',
          wo_description := ''Create a ZFS snapshot of a dataset. Additive and cheap; take one before any risky change.'',
          wo_method := ''pool.snapshot.create'',
          wo_target_arg := ''dataset'',
          wo_options := [''snapshot_name''],
          wo_synchronous := True\<rparr>"

definition WriteOps :: "write_op list" where
  "WriteOps = AppWrites @ [SnapshotWrite]"

definition RollbackToolName :: string where
  "RollbackToolName = ''app_rollback''"

record config_write_op =
  cw_name :: string
  cw_title :: string
  cw_description :: string
  cw_method :: string
  cw_destructive :: bool
  cw_needs_id :: bool
  cw_needs_config :: bool

definition ConfigWrites :: "config_write_op list" where
  "ConfigWrites =
     [\<lparr>cw_name = ''create_smb_share'',
          cw_title = ''Create an SMB share'',
          cw_description = ''Create an SMB (Windows file sharing) share. Supply the config object with at least `path` and `name`. Use describe_method on sharing.smb.create to see the available options, and storage(op=\"list_datasets\") to find a path.'',
          cw_method = ''sharing.smb.create'',
          cw_destructive = False,
          cw_needs_id = False,
          cw_needs_config = True\<rparr>,
      \<lparr>cw_name = ''update_smb_share'',
          cw_title = ''Change an SMB share'',
          cw_description = ''Change an existing SMB share's configuration. Supply the share id and only the fields to change. Clients may briefly lose access while it reloads.'',
          cw_method = ''sharing.smb.update'',
          cw_destructive = True,
          cw_needs_id = True,
          cw_needs_config = True\<rparr>,
      \<lparr>cw_name = ''delete_smb_share'',
          cw_title = ''Remove an SMB share'',
          cw_description = ''Stop sharing a path over SMB. The data is untouched and the share can be recreated, but anyone using it loses access immediately.'',
          cw_method = ''sharing.smb.delete'',
          cw_destructive = True,
          cw_needs_id = True,
          cw_needs_config = False\<rparr>,
      \<lparr>cw_name = ''create_nfs_export'',
          cw_title = ''Create an NFS export'',
          cw_description = ''Export a path over NFS. Supply the config object with at least `path`. Restrict access with `networks` or `hosts`; without them the export is open to anyone who can reach the server.'',
          cw_method = ''sharing.nfs.create'',
          cw_destructive = False,
          cw_needs_id = False,
          cw_needs_config = True\<rparr>,
      \<lparr>cw_name = ''update_nfs_export'',
          cw_title = ''Change an NFS export'',
          cw_description = ''Change an existing NFS export. Supply the export id and only the fields to change. Clients may briefly lose access while it reloads.'',
          cw_method = ''sharing.nfs.update'',
          cw_destructive = True,
          cw_needs_id = True,
          cw_needs_config = True\<rparr>,
      \<lparr>cw_name = ''delete_nfs_export'',
          cw_title = ''Remove an NFS export'',
          cw_description = ''Stop exporting a path over NFS. The data is untouched, but anyone using the export loses access immediately.'',
          cw_method = ''sharing.nfs.delete'',
          cw_destructive = True,
          cw_needs_id = True,
          cw_needs_config = False\<rparr>,
      \<lparr>cw_name = ''set_smb_share_acl'',
          cw_title = ''Set who may use an SMB share'',
          cw_description = ''Set the share-level ACL, which controls who may connect to an SMB share. This is separate from filesystem permissions: both apply, and the more restrictive one wins. Supply `share_name` and `share_acl`.'',
          cw_method = ''sharing.smb.setacl'',
          cw_destructive = True,
          cw_needs_id = False,
          cw_needs_config = True\<rparr>,
      \<lparr>cw_name = ''set_path_acl'',
          cw_title = ''Set filesystem permissions on a path'',
          cw_description = ''Set the ACL on one path, controlling who may read or write the files themselves. Use filesystem(op=\"acl\") to see the current one first. Applies to the given path only: recursive application is refused, because it rewrites permissions on every child and cannot be undone without knowing what they were.'',
          cw_method = ''filesystem.setacl'',
          cw_destructive = True,
          cw_needs_id = False,
          cw_needs_config = True\<rparr>]"

subsection \<open>Annotations\<close>

text \<open>The two hints that are pointers in the source are always set by it, so they are plain booleans.\<close>

record annotations =
  an_title :: string
  an_read_only :: bool
  an_destructive :: bool
  an_idempotent :: bool
  an_open_world :: bool

definition readAnnotations :: "string \<Rightarrow> annotations" where
  "readAnnotations title = \<lparr>an_title = title, an_read_only = True, an_destructive = False,
     an_idempotent = True, an_open_world = True\<rparr>"

definition writeAnnotations :: "string \<Rightarrow> bool \<Rightarrow> bool \<Rightarrow> annotations" where
  "writeAnnotations title destructive idempotent = \<lparr>an_title = title, an_read_only = False,
     an_destructive = destructive, an_idempotent = idempotent, an_open_world = True\<rparr>"

subsection \<open>What the tables keep\<close>

lemmas write_table_simps = AppWrites_def SnapshotWrite_def WriteOps_def ConfigWrites_def write_zero_def

lemma write_methods:
  "map wo_method WriteOps =
     [''app.pull_images'', ''app.redeploy'', ''app.start'', ''app.stop'', ''app.upgrade'', ''app.rollback'',
      ''pool.snapshot.create'']"
  by (simp add: write_table_simps)

lemma config_methods:
  "map cw_method ConfigWrites =
     [''sharing.smb.create'', ''sharing.smb.update'', ''sharing.smb.delete'', ''sharing.nfs.create'',
      ''sharing.nfs.update'', ''sharing.nfs.delete'', ''sharing.smb.setacl'', ''filesystem.setacl'']"
  by (simp add: write_table_simps)

lemma write_names:
  "map wo_name WriteOps =
     [''app_pull_images'', ''app_redeploy'', ''app_start'', ''app_stop'', ''app_upgrade'', ''app_rollback'',
      ''create_snapshot'']"
  by (simp add: write_table_simps)

lemma config_names:
  "map cw_name ConfigWrites =
     [''create_smb_share'', ''update_smb_share'', ''delete_smb_share'', ''create_nfs_export'',
      ''update_nfs_export'', ''delete_nfs_export'', ''set_smb_share_acl'', ''set_path_acl'']"
  by (simp add: write_table_simps)

text \<open>No argument makes the denylist refuse a table write that carries no configuration.\<close>

lemma write_method_permitted:
  assumes "w \<in> set WriteOps"
  shows "CheckDenied (wo_method w) args = None"
proof (rule CheckDenied_unlisted)
  have "list_all (\<lambda>m. m \<notin> set (map dn_method denials)) (map wo_method WriteOps)"
    unfolding write_methods by (simp add: denials_def)
  with assms show "wo_method w \<notin> set (map dn_method denials)" by (auto simp: list_all_iff)
qed

lemma config_needs: "list_all (\<lambda>w. cw_needs_id w \<or> cw_needs_config w) ConfigWrites"
  by (simp add: ConfigWrites_def)

end
