(* ===== verification/Write_Tool.thy ===== *)
theory Write_Tool
  imports Writes Jobs Dispatch_IO
begin

section \<open>The write tools\<close>

text \<open>
  \<^verbatim>\<open>internal/server/write_tool.go\<close>: the three input shapes, the choice of a shape from the declared
  options, the check that the target exists, and the handler every write operation shares. A shape the
  source has no type for makes it panic while the server is built, which is \<^term>\<open>None\<close> here.
\<close>

subsection \<open>Inputs\<close>

datatype write_input =
    WriteTargetOnlyInput string
  | WriteRedeployInput string "bool option"   \<comment> \<open>\<^verbatim>\<open>nil\<close> when omitted\<close>
  | WriteSnapshotInput string string

fun input_target :: "write_input \<Rightarrow> string" where
  "input_target (WriteTargetOnlyInput t) = t"
| "input_target (WriteRedeployInput t r) = t"
| "input_target (WriteSnapshotInput t n) = t"

fun denyArgs :: "write_input \<Rightarrow> json gomap" where
  "denyArgs (WriteTargetOnlyInput t) = []"
| "denyArgs (WriteRedeployInput t r) = (case r of None \<Rightarrow> [] | Some b \<Rightarrow> [(''redeploy'', JBool b)])"
| "denyArgs (WriteSnapshotInput t n) = []"

fun input_params :: "write_input \<Rightarrow> string \<Rightarrow> json list" where
  "input_params (WriteTargetOnlyInput t) target = [JStr target]"
| "input_params (WriteRedeployInput t r) target =
     JStr target # (case r of None \<Rightarrow> [] | Some b \<Rightarrow> [JObj [(''redeploy'', JBool b)]])"
| "input_params (WriteSnapshotInput t n) target =
     (if n = [] then [JObj [(''dataset'', JStr target)]]
      else [JObj [(''dataset'', JStr target), (''name'', JStr n)]])"

datatype input_shape = TargetOnlyShape | RedeployShape | SnapshotShape

fun shape_of :: "write_input \<Rightarrow> input_shape" where
  "shape_of (WriteTargetOnlyInput t) = TargetOnlyShape"
| "shape_of (WriteRedeployInput t r) = RedeployShape"
| "shape_of (WriteSnapshotInput t n) = SnapshotShape"

definition registerWrite :: "write_op \<Rightarrow> input_shape option" where
  "registerWrite w =
     (if wo_options w = [] then Some TargetOnlyShape
      else if wo_options w = [''redeploy''] then Some RedeployShape
      else if wo_options w = [''snapshot_name''] then Some SnapshotShape
      else None)"

definition asyncContractNote :: string where
  "asyncContractNote = ''Starts an asynchronous job and returns its id immediately rather than a finished result; follow it with jobs(op=\"show\", job_id=...) to see it complete.''"

definition writeDescription :: "write_op \<Rightarrow> string" where
  "writeDescription w =
     (if wo_synchronous w then wo_description w else wo_description w @ '' '' @ asyncContractNote)"

subsection \<open>The handler\<close>

record job_started =
  js_job_id :: int
  js_method :: string
  js_target :: string
  js_resource :: string
  js_result :: json
  js_note :: string

definition started_note :: string where
  "started_note = ''Started; not yet finished. Follow it with jobs(op=\"show\", job_id=...).''"

datatype write_refusal =
    RequiresTarget string
  | WriteDenied denied_error
  | TargetUnresolved go_error

definition target_query :: "string \<Rightarrow> mcall" where
  "target_query target =
     \<lparr>mc_method = ''app.query'', mc_params = [JArr [JArr [JStr ''name'', JStr ''='', JStr target]]]\<rparr>"

definition resolveTarget :: "middleware \<Rightarrow> write_op \<Rightarrow> string \<Rightarrow> trace \<Rightarrow> go_error option \<times> trace" where
  "resolveTarget mw w target tr =
     (if wo_target_arg w \<noteq> ''app_name'' then (None, tr)
      else case mw_call mw (mc_method (target_query target)) (mc_params (target_query target)) tr of
        (Inl e, tr') \<Rightarrow> (Some e, tr')
      | (Inr raw, tr') \<Rightarrow>
          (case unmarshal dec_slice raw of
             None \<Rightarrow> (Some (Wrapped (''checking whether '' @ go_quote target @ '' exists'') []), tr')
           | Some apps \<Rightarrow>
               (if length apps = 1 then None
                else if length apps = 0 then
                  Some (Wrapped (''no app named '' @ go_quote target @
                    '' is installed; use apps(op=\"list\") to see what is'') [])
                else
                  Some (Wrapped (go_quote target @ '' matched '' @ show_nat (length apps) @
                    '' apps; refusing to act on an ambiguous target'') []), tr')))"

text \<open>A decoded result, or the raw text when it is no JSON, which only the absent result is.\<close>

definition result_of :: "raw \<Rightarrow> json" where
  "result_of raw = (case raw of None \<Rightarrow> JStr [] | Some j \<Rightarrow> j)"

definition write_tool ::
  "write_op \<Rightarrow> middleware \<Rightarrow> go_error option \<Rightarrow> write_input \<Rightarrow> trace \<Rightarrow>
     (write_refusal, job_started) tool_answer \<times> trace" where
  "write_tool w mw sess inp tr =
     (let target = input_target inp
      in if target = [] then (ToolError (RequiresTarget (wo_name w)), tr)
         else case CheckDenied (wo_method w) (denyArgs inp) of
           Some e \<Rightarrow> (ToolError (WriteDenied e), tr)
         | None \<Rightarrow>
             (case sess of
                Some e \<Rightarrow> (CallFailed e, tr)
              | None \<Rightarrow>
                  (case resolveTarget mw w target tr of
                     (Some e, tr') \<Rightarrow> (ToolError (TargetUnresolved e), tr')
                   | (None, tr') \<Rightarrow>
                       if wo_synchronous w then
                         (case mw_call mw (wo_method w) (input_params inp target) tr' of
                            (Inl e, tr'') \<Rightarrow> (CallFailed e, tr'')
                          | (Inr raw, tr'') \<Rightarrow>
                              (Answered \<lparr>js_job_id = 0, js_method = wo_method w, js_target = target,
                                 js_resource = [], js_result = result_of raw, js_note = []\<rparr>, tr''))
                       else
                         (case CallJob mw (wo_method w) (input_params inp target) tr' of
                            (Inl e, tr'') \<Rightarrow> (CallFailed e, tr'')
                          | (Inr jid, tr'') \<Rightarrow>
                              (Answered \<lparr>js_job_id = jid, js_method = wo_method w, js_target = target,
                                 js_resource = ''truenas://job/'' @ show_int jid, js_result = JNull,
                                 js_note = started_note\<rparr>, tr'')))))"

subsection \<open>Lemmas\<close>

lemma target_query_simps [simp]:
  "\<lparr>mc_method = mc_method (target_query t), mc_params = mc_params (target_query t)\<rparr> = target_query t"
  by (simp add: target_query_def)

text \<open>The target is resolved exactly when the query answers with one match.\<close>

definition one_match :: "go_error + raw \<Rightarrow> bool" where
  "one_match r \<longleftrightarrow> (case r of Inr (Some (JArr [x])) \<Rightarrow> True | _ \<Rightarrow> False)"

lemma one_match_iff: "one_match r \<longleftrightarrow> (\<exists>x. r = Inr (Some (JArr [x])))"
  by (auto simp: one_match_def split: sum.splits option.splits json.splits list.splits)

lemma dec_slice_length_1: "unmarshal dec_slice raw = Some xs \<Longrightarrow>
    length xs = 1 \<longleftrightarrow> one_match (Inr raw)"
  by (auto simp: unmarshal_def one_match_iff length_Suc_conv split: option.splits elim!: dec_slice.elims)

lemma resolveTarget_app:
  assumes "wo_target_arg w = ''app_name''"
  shows "snd (resolveTarget mw w t tr) = tr @ [target_query t] \<and>
    (fst (resolveTarget mw w t tr) = None \<longleftrightarrow> one_match (mw tr (target_query t)))"
proof (cases "mw tr (target_query t)")
  case (Inl e)
  with assms show ?thesis by (simp add: resolveTarget_def one_match_def)
next
  case (Inr raw)
  show ?thesis
  proof (cases "unmarshal dec_slice raw")
    case None
    moreover from None have "\<not> one_match (Inr raw)" by (auto simp: one_match_iff)
    ultimately show ?thesis using assms Inr by (simp add: resolveTarget_def)
  next
    case (Some xs)
    with dec_slice_length_1 [OF Some] assms Inr show ?thesis by (simp add: resolveTarget_def)
  qed
qed

lemma AppWrites_target: "list_all (\<lambda>w. wo_target_arg w = ''app_name'' \<and> \<not> wo_synchronous w) AppWrites"
  by (simp add: AppWrites_def write_zero_def)

lemma write_tool_permitted:
  assumes "w \<in> set WriteOps" and "input_target inp \<noteq> []"
  shows "write_tool w mw None inp tr =
    (case resolveTarget mw w (input_target inp) tr of
       (Some e, tr') \<Rightarrow> (ToolError (TargetUnresolved e), tr')
     | (None, tr') \<Rightarrow>
         if wo_synchronous w then
           (case mw_call mw (wo_method w) (input_params inp (input_target inp)) tr' of
              (Inl e, tr'') \<Rightarrow> (CallFailed e, tr'')
            | (Inr raw, tr'') \<Rightarrow>
                (Answered \<lparr>js_job_id = 0, js_method = wo_method w, js_target = input_target inp,
                   js_resource = [], js_result = result_of raw, js_note = []\<rparr>, tr''))
         else
           (case CallJob mw (wo_method w) (input_params inp (input_target inp)) tr' of
              (Inl e, tr'') \<Rightarrow> (CallFailed e, tr'')
            | (Inr jid, tr'') \<Rightarrow>
                (Answered \<lparr>js_job_id = jid, js_method = wo_method w, js_target = input_target inp,
                   js_resource = ''truenas://job/'' @ show_int jid, js_result = JNull,
                   js_note = started_note\<rparr>, tr'')))"
  using assms(2) write_method_permitted [OF assms(1)] by (simp add: write_tool_def Let_def)

lemma write_tool_refused:
  "sess \<noteq> None \<or> input_target inp = [] \<Longrightarrow> snd (write_tool w mw sess inp tr) = tr"
  by (auto simp: write_tool_def Let_def split: option.split)

subsection \<open>Properties\<close>

text \<open>
  C20. An app is only changed after the target confirmed that it exists. Whatever the input, each of the
  six app tools makes no call without a session or a target; otherwise it asks for the apps of that name,
  and calls its method, once and with the parameters of its input, exactly when the answer is a list of
  one app: no answer, an error, no match and several matches all leave the app alone.
\<close>

theorem app_write_needs_one_match:
  "list_all (\<lambda>w. snd (write_tool w mw sess inp tr) = tr @
     (if sess = None \<and> input_target inp \<noteq> []
      then target_query (input_target inp) #
        (if \<exists>x. mw tr (target_query (input_target inp)) = Inr (Some (JArr [x]))
         then [\<lparr>mc_method = wo_method w, mc_params = input_params inp (input_target inp)\<rparr>] else [])
      else [])) AppWrites"
proof -
  let ?t = "input_target inp"
  have "snd (write_tool w mw sess inp tr) = tr @
     (if sess = None \<and> ?t \<noteq> []
      then target_query ?t # (if one_match (mw tr (target_query ?t))
         then [\<lparr>mc_method = wo_method w, mc_params = input_params inp ?t\<rparr>] else [])
      else [])" if "w \<in> set AppWrites" for w
  proof (cases "sess = None \<and> ?t \<noteq> []")
    case True
    have w: "w \<in> set WriteOps" using that by (simp add: WriteOps_def)
    have app: "wo_target_arg w = ''app_name''" "\<not> wo_synchronous w"
      using that AppWrites_target by (auto simp: list_all_iff)
    obtain r tr' where r: "resolveTarget mw w ?t tr = (r, tr')" by fastforce
    with resolveTarget_app [OF app(1), of mw ?t tr] have "tr' = tr @ [target_query ?t]"
      and "r = None \<longleftrightarrow> one_match (mw tr (target_query ?t))" by simp_all
    moreover from True have "?t \<noteq> []" by blast
    moreover have "snd (case CallJob mw m ps tr' of (Inl e, tr'') \<Rightarrow> (CallFailed e, tr'')
        | (Inr jid, tr'') \<Rightarrow> (Answered (f jid), tr'')) = tr' @ [\<lparr>mc_method = m, mc_params = ps\<rparr>]"
      for m ps and f :: "int \<Rightarrow> job_started"
      using CallJob_trace [of mw m ps tr'] by (cases "CallJob mw m ps tr'") (simp split: sum.split)
    ultimately show ?thesis using True
      by (cases r) (simp_all add: write_tool_permitted [OF w] app(2) r)
  next
    case False
    then show ?thesis using write_tool_refused [of sess inp] by auto
  qed
  then show ?thesis unfolding list_all_iff one_match_iff by blast
qed

text \<open>
  The mutating surface is consistent: all fifteen tools have different names, each write operation
  has an input shape, so building the server does not panic, no method is refused in every form, the
  recovery tool is among them, and a configuration write asks for a configuration unless it deletes.
\<close>

theorem write_surface_wf:
  "distinct (map wo_name WriteOps @ map cw_name ConfigWrites) \<and>
   list_all (\<lambda>w. registerWrite w \<noteq> None) WriteOps \<and>
   set (map wo_method WriteOps @ map cw_method ConfigWrites) \<inter> set DeniedMethods = {} \<and>
   RollbackToolName \<in> set (map wo_name AppWrites) \<and>
   list_all (\<lambda>w. cw_needs_config w = (\<not> has_prefix ''delete'' (cw_name w))) ConfigWrites"
proof (intro conjI)
  show "distinct (map wo_name WriteOps @ map cw_name ConfigWrites)"
    unfolding write_names config_names by simp
  show "list_all (\<lambda>w. registerWrite w \<noteq> None) WriteOps"
    by (simp add: write_table_simps registerWrite_def)
  show "set (map wo_method WriteOps @ map cw_method ConfigWrites) \<inter> set DeniedMethods = {}"
    unfolding write_methods config_methods DeniedMethods_eq by simp
  show "RollbackToolName \<in> set (map wo_name AppWrites)"
    by (simp add: AppWrites_def write_zero_def RollbackToolName_def)
  show "list_all (\<lambda>w. cw_needs_config w = (\<not> has_prefix ''delete'' (cw_name w))) ConfigWrites"
    by (simp add: ConfigWrites_def has_prefix_def)
qed

end
