(* ===== verification/Discovery.thy ===== *)
theory Discovery
  imports Safety
begin

section \<open>The discovery allowlist and schema summaries\<close>

text \<open>
  \<^verbatim>\<open>internal/tools/discovery.go\<close>, \<^verbatim>\<open>internal/tools/unroled.go\<close> and \<^verbatim>\<open>internal/tools/caveats.go\<close>: which
  middleware methods the escape hatch may describe or call, decided from the roles the target reports;
  the methods without roles that were established to be harmless; the caveats attached to a method;
  and the reduction of an argument schema to what a caller has to decide about.
\<close>

subsection \<open>Data\<close>

record method_info =
  mi_name :: string
  mi_roles :: "string list"
  mi_job :: bool
  mi_pipe :: bool

definition readOnlyRole :: string where
  "readOnlyRole = ''READONLY_ADMIN''"

record exclusion =
  ex_prefix :: string
  ex_reason :: string

definition discoveryExclusions :: "exclusion list" where
  "discoveryExclusions =
     [\<lparr>ex_prefix = ''core.bulk'',
       ex_reason = ''it invokes arbitrary methods and would bypass this server's gating''\<rparr>,
      \<lparr>ex_prefix = ''auth.'',
       ex_reason = ''authentication is managed by this server, not by callers''\<rparr>,
      \<lparr>ex_prefix = ''core.subscribe'',
       ex_reason = ''event subscription is managed by this server''\<rparr>,
      \<lparr>ex_prefix = ''core.unsubscribe'',
       ex_reason = ''event subscription is managed by this server''\<rparr>]"

datatype gate_error =
    Denied denied_error
  | DiscoveryError string string  \<comment> \<open>method, reason\<close>

fun gate_error_text :: "gate_error \<Rightarrow> string" where
  "gate_error_text (Denied e) = denied_error_text e"
| "gate_error_text (DiscoveryError m r) = m @ '' is not exposed by this server: '' @ r"

definition safeUnroledReads :: "(string \<times> string) list" where
  "safeUnroledReads =
     [(''system.version'', ''returns the release string''),
      (''system.version_short'', ''returns the release string''),
      (''system.boot_id'', ''returns an identifier for the current boot''),
      (''system.product_type'', ''returns the edition name''),
      (''core.get_jobs'', ''lists jobs; how a caller sees what the system is doing''),
      (''core.ping'', ''liveness check, returns pong''),
      (''core.get_services'', ''lists middleware services''),
      (''directoryservices.status'', ''reports whether a directory service is connected''),
      (''failover.licensed'', ''reports whether failover is licensed''),
      (''privilege.roles'', ''lists the roles this system defines''),
      (''user.has_local_administrator_set_up'', ''reports whether an admin account exists'')]"

definition IsSafeUnroledRead :: "string \<Rightarrow> bool" where
  "IsSafeUnroledRead meth \<longleftrightarrow> map_of safeUnroledReads meth \<noteq> None"

definition methodCaveats :: "(string \<times> string) list" where
  "methodCaveats =
     [(''app.update'',
       ''Replaces the app's configuration; it is not a patch. Read the current config with apps(op=\"config\", name=...), apply your changes to that object, and pass the whole thing back as `values` -- fields you leave out are not preserved.'')]"

definition MethodCaveat :: "string \<Rightarrow> string" where
  "MethodCaveat meth = (case map_of methodCaveats meth of None \<Rightarrow> [] | Some c \<Rightarrow> c)"

subsection \<open>The allowlist check\<close>

fun find_exclusion :: "exclusion list \<Rightarrow> string \<Rightarrow> exclusion option" where
  "find_exclusion [] name = None"
| "find_exclusion (x # xs) name =
     (if has_prefix (ex_prefix x) name then Some x else find_exclusion xs name)"

definition CheckDiscoverable :: "method_info \<Rightarrow> bool \<Rightarrow> gate_error option" where
  "CheckDiscoverable m writesEnabled =
     (case CheckDenied (mi_name m) [] of
        Some e \<Rightarrow> Some (Denied e)
      | None \<Rightarrow>
          (case find_exclusion discoveryExclusions (mi_name m) of
             Some x \<Rightarrow> Some (DiscoveryError (mi_name m) (ex_reason x))
           | None \<Rightarrow>
               if mi_pipe m then
                 Some (DiscoveryError (mi_name m)
                   ''it streams through a download or upload pipe, which a plain call cannot provide'')
               else if mi_roles m = [] then
                 (if IsSafeUnroledRead (mi_name m) then None
                  else Some (DiscoveryError (mi_name m)
                    ''it declares no privilege requirement, so its effect cannot be established''))
               else if readOnlyRole \<in> set (mi_roles m) then None
               else if \<not> writesEnabled then
                 Some (DiscoveryError (mi_name m) ''it mutates state and the write tier is disabled'')
               else None))"

subsection \<open>Schema summaries\<close>

datatype schema_param = SchemaParam
  (sp_name: string) (sp_type: string) (sp_description: string) (sp_required: bool)
  (sp_default: json) (sp_properties: "schema_param list")

record flat_param =
  fp_name :: string
  fp_type :: string
  fp_description :: string
  fp_required :: bool
  fp_default :: json

record schema_summary =
  ss_params :: "flat_param list"
  ss_omitted :: nat

definition flat_of :: "schema_param \<Rightarrow> flat_param" where
  "flat_of p = \<lparr>fp_name = sp_name p, fp_type = sp_type p, fp_description = sp_description p,
     fp_required = sp_required p, fp_default = sp_default p\<rparr>"

text \<open>One object parameter with properties is replaced by its properties.\<close>

definition flatten_params :: "schema_param list \<Rightarrow> schema_param list" where
  "flatten_params params =
     (case params of
        [p] \<Rightarrow> if sp_properties p \<noteq> [] then sp_properties p else params
      | _ \<Rightarrow> params)"

text \<open>The loop that keeps or counts each parameter.\<close>

fun summarize_loop :: "bool \<Rightarrow> schema_param list \<Rightarrow> flat_param list \<Rightarrow> nat \<Rightarrow> schema_summary" where
  "summarize_loop full [] kept omitted = \<lparr>ss_params = kept, ss_omitted = omitted\<rparr>"
| "summarize_loop full (p # ps) kept omitted =
     (if full \<or> sp_required p \<or> sp_default p = JNull
      then summarize_loop full ps (kept @ [flat_of p]) omitted
      else summarize_loop full ps kept (omitted + 1))"

definition SummarizeSchema :: "schema_param list \<Rightarrow> bool \<Rightarrow> schema_summary" where
  "SummarizeSchema params full = summarize_loop full (flatten_params params) [] 0"

subsection \<open>Lemmas\<close>

lemma find_exclusion_None:
  "find_exclusion xs name = None \<longleftrightarrow> \<not> (\<exists>x \<in> set xs. has_prefix (ex_prefix x) name)"
  by (induction xs) auto

lemma find_exclusion_Some:
  "find_exclusion xs name = Some x \<Longrightarrow> x \<in> set xs \<and> has_prefix (ex_prefix x) name"
  by (induction xs) (auto split: if_splits)

definition excluded :: "string \<Rightarrow> bool" where
  "excluded name \<longleftrightarrow> (\<exists>x \<in> set discoveryExclusions. has_prefix (ex_prefix x) name)"

lemma excluded_find: "excluded name \<longleftrightarrow> find_exclusion discoveryExclusions name \<noteq> None"
  unfolding find_exclusion_None excluded_def by simp

lemma excluded_iff:
  "excluded name \<longleftrightarrow>
     has_prefix ''core.bulk'' name \<or> has_prefix ''auth.'' name \<or>
     has_prefix ''core.subscribe'' name \<or> has_prefix ''core.unsubscribe'' name"
  by (simp add: excluded_def discoveryExclusions_def)

lemma CheckDiscoverable_None:
  "CheckDiscoverable m w = None \<longleftrightarrow>
     CheckDenied (mi_name m) [] = None \<and> \<not> excluded (mi_name m) \<and> \<not> mi_pipe m \<and>
     (if mi_roles m = [] then IsSafeUnroledRead (mi_name m) else readOnlyRole \<in> set (mi_roles m) \<or> w)"
  by (cases "CheckDenied (mi_name m) []"; cases "find_exclusion discoveryExclusions (mi_name m)")
     (simp_all add: CheckDiscoverable_def excluded_find)

lemma summarize_loop_eq:
  "summarize_loop full ps kept n =
     \<lparr>ss_params = kept @ map flat_of (filter (\<lambda>p. full \<or> sp_required p \<or> sp_default p = JNull) ps),
      ss_omitted = n + length (filter (\<lambda>p. \<not> (full \<or> sp_required p \<or> sp_default p = JNull)) ps)\<rparr>"
  by (induction full ps kept n rule: summarize_loop.induct) auto

subsection \<open>The interface to the discovery tools\<close>

text \<open>
  What the discovery tools rely on: turning writes on only widens what is reachable, and a method the
  denylist refuses for no arguments is never reachable.
\<close>

locale discovery_gate = deny_gate denied
  for denied :: "string \<Rightarrow> json gomap \<Rightarrow> 'e option" +
  fixes discoverable :: "method_info \<Rightarrow> bool \<Rightarrow> 'g option"
  assumes discoverable_mono: "discoverable m False = None \<Longrightarrow> discoverable m True = None"
    and discoverable_permitted: "discoverable m w = None \<Longrightarrow> denied (mi_name m) [] = None"
begin

lemma discoverable_any_mode: "discoverable m False = None \<Longrightarrow> discoverable m w = None"
  by (cases w) (auto intro: discoverable_mono)

lemma denied_undiscoverable: "denied (mi_name m) [] \<noteq> None \<Longrightarrow> discoverable m w \<noteq> None"
  using discoverable_permitted [of m w] by (cases "discoverable m w") auto

end

lemma CheckDiscoverable_writes_mono: "CheckDiscoverable m False = None \<Longrightarrow> CheckDiscoverable m True = None"
  unfolding CheckDiscoverable_None by (simp split: if_splits)

lemma CheckDiscoverable_not_denied: "CheckDiscoverable m w = None \<Longrightarrow> CheckDenied (mi_name m) [] = None"
  unfolding CheckDiscoverable_None by blast

interpretation hatch: discovery_gate CheckDenied CheckDiscoverable
  by unfold_locales (fact CheckDiscoverable_writes_mono CheckDiscoverable_not_denied)+

subsection \<open>Properties\<close>

text \<open>
  C18. The allowlist fails closed. A method is reachable exactly when it is not one of the five denied in
  every form, its name starts with none of the excluded prefixes, it needs no pipe, and either it
  declares roles and grants the read-only role or the write tier is on, or it declares no role and is one
  of the eleven established reads. In particular a method without roles is never opened by the write
  tier.
\<close>

theorem CheckDiscoverable_decides:
  "CheckDiscoverable m w = None \<longleftrightarrow>
     mi_name m \<notin> {''pool.export'', ''pool.dataset.delete'', ''disk.wipe'', ''boot.detach'',
                   ''pool.dataset.destroy_snapshots''} \<and>
     \<not> (has_prefix ''core.bulk'' (mi_name m) \<or> has_prefix ''auth.'' (mi_name m) \<or>
        has_prefix ''core.subscribe'' (mi_name m) \<or> has_prefix ''core.unsubscribe'' (mi_name m)) \<and>
     \<not> mi_pipe m \<and>
     (if mi_roles m = [] then mi_name m \<in> set (map fst safeUnroledReads)
      else ''READONLY_ADMIN'' \<in> set (mi_roles m) \<or> w)"
  unfolding CheckDiscoverable_None excluded_iff denied_bare_iff DeniedMethods_eq
    IsSafeUnroledRead_def readOnlyRole_def
  by (auto simp: map_of_eq_None_iff)

text \<open>
  The explicit list of harmless methods without roles is effective and consistent with the other
  gates: none of them is denied or excluded, so each is reachable without the write tier.
\<close>

theorem safe_unroled_reachable:
  "list_all (\<lambda>name. CheckDiscoverable
      \<lparr>mi_name = name, mi_roles = [], mi_job = j, mi_pipe = False\<rparr> False = None)
    (map fst safeUnroledReads)"
  by (simp add: safeUnroledReads_def CheckDiscoverable_None excluded_iff has_prefix_def
      denied_bare_iff DeniedMethods_eq IsSafeUnroledRead_def)

text \<open>
  A summary loses nothing a caller has to decide about: over the flattened parameters, it keeps in
  order exactly those that are required or have no default (all of them for a full summary), without
  their nested properties, and counts every other one as omitted.
\<close>

theorem SummarizeSchema_exact:
  "SummarizeSchema ps full =
     \<lparr>ss_params = map flat_of (filter (\<lambda>p. full \<or> sp_required p \<or> sp_default p = JNull) (flatten_params ps)),
      ss_omitted = length (flatten_params ps) - length (ss_params (SummarizeSchema ps full))\<rparr> \<and>
   length (ss_params (SummarizeSchema ps full)) \<le> length (flatten_params ps) \<and>
   set (map sp_name (filter sp_required (flatten_params ps))) \<subseteq>
     fp_name ` set (ss_params (SummarizeSchema ps full))"
proof -
  let ?keep = "\<lambda>p. full \<or> sp_required p \<or> sp_default p = JNull" and ?qs = "flatten_params ps"
  have "length (filter ?keep ?qs) + length (filter (\<lambda>p. \<not> ?keep p) ?qs) = length ?qs"
    by (rule sum_length_filter_compl)
  then show ?thesis
    by (auto simp: SummarizeSchema_def summarize_loop_eq flat_of_def image_iff)
qed

end
