(* ===== verification/Method_Metadata.thy ===== *)
theory Method_Metadata
  imports Discovery Middleware "HOL-Library.Product_Lexorder"
begin

section \<open>Method metadata\<close>

text \<open>
  The introspection half of \<^verbatim>\<open>internal/server/discovery_tool.go\<close>: the payload of \<^verbatim>\<open>core.get_methods\<close>, its
  projections onto what is gated and summarised, the example call, and the two lookups. The order in
  which Go ranges over the properties of a parameter does not matter: they are sorted.
\<close>

subsection \<open>Payload\<close>

record nested_param =
  np_type :: string
  np_description :: string
  np_required :: bool
  np_default :: json

record accept_param =
  ap_name :: string
  ap_required :: bool
  ap_type :: string
  ap_description :: string
  ap_default :: json
  ap_properties :: "nested_param gomap"

record method_meta =
  mm_description :: string
  mm_job :: bool
  mm_downloadable :: bool
  mm_uploadable :: bool
  mm_roles :: "string list"
  mm_accepts :: "accept_param list"

definition dec_nested_param :: "json \<Rightarrow> nested_param option" where
  "dec_nested_param v =
     (case dec_struct (Some v) of
        None \<Rightarrow> None
      | Some kvs \<Rightarrow>
          (case (dec_string (jfield ''type'' kvs), dec_string (jfield ''title'' kvs),
                 dec_string (jfield ''description'' kvs), dec_bool (jfield ''_required_'' kvs)) of
             (Some ty, Some ti, Some ds, Some rq) \<Rightarrow>
               Some \<lparr>np_type = ty, np_description = ds, np_required = rq,
                 np_default = dec_any (jfield ''default'' kvs)\<rparr>
           | _ \<Rightarrow> None))"

text \<open>A member that is absent decodes like \<^verbatim>\<open>null\<close>: to an empty map or slice.\<close>

definition member :: "string \<Rightarrow> (string \<times> json) list \<Rightarrow> json option" where
  "member k kvs = (case jfield k kvs of None \<Rightarrow> Some JNull | Some v \<Rightarrow> Some v)"

definition dec_accept_param :: "json \<Rightarrow> accept_param option" where
  "dec_accept_param v =
     (case dec_struct (Some v) of
        None \<Rightarrow> None
      | Some kvs \<Rightarrow>
          (case (dec_string (jfield ''_name_'' kvs), dec_bool (jfield ''_required_'' kvs),
                 dec_string (jfield ''type'' kvs), dec_string (jfield ''description'' kvs),
                 Option.bind (dec_struct (member ''properties'' kvs)) (\<lambda>ps. dec_map dec_nested_param ps [])) of
             (Some nm, Some rq, Some ty, Some ds, Some ps) \<Rightarrow>
               Some \<lparr>ap_name = nm, ap_required = rq, ap_type = ty, ap_description = ds,
                 ap_default = dec_any (jfield ''default'' kvs), ap_properties = ps\<rparr>
           | _ \<Rightarrow> None))"

definition dec_method_meta :: "json \<Rightarrow> method_meta option" where
  "dec_method_meta v =
     (case dec_struct (Some v) of
        None \<Rightarrow> None
      | Some kvs \<Rightarrow>
          (case (dec_string (jfield ''description'' kvs), dec_bool (jfield ''job'' kvs),
                 dec_bool (jfield ''downloadable'' kvs), dec_bool (jfield ''uploadable'' kvs),
                 Option.bind (dec_slice (member ''roles'' kvs)) (dec_each (\<lambda>r. dec_string (Some r))),
                 Option.bind (dec_slice (member ''accepts'' kvs)) (dec_each dec_accept_param)) of
             (Some ds, Some jb, Some dl, Some ul, Some rs, Some acs) \<Rightarrow>
               Some \<lparr>mm_description = ds, mm_job = jb, mm_downloadable = dl, mm_uploadable = ul,
                 mm_roles = rs, mm_accepts = acs\<rparr>
           | _ \<Rightarrow> None))"

subsection \<open>Projections\<close>

definition meta_info :: "method_meta \<Rightarrow> string \<Rightarrow> method_info" where
  "meta_info m name = \<lparr>mi_name = name, mi_roles = mm_roles m, mi_job = mm_job m,
     mi_pipe = mm_downloadable m \<or> mm_uploadable m\<rparr>"

definition meta_readOnly :: "method_meta \<Rightarrow> bool" where
  "meta_readOnly m \<longleftrightarrow> ''READONLY_ADMIN'' \<in> set (mm_roles m)"

definition property_params :: "nested_param gomap \<Rightarrow> schema_param list" where
  "property_params ps =
     sort_key (\<lambda>p. (\<not> sp_required p, sp_name p))
       (map (\<lambda>(name, n). SchemaParam name (np_type n) (np_description n) (np_required n) (np_default n) []) ps)"

definition meta_params :: "method_meta \<Rightarrow> schema_param list" where
  "meta_params m =
     map (\<lambda>a. SchemaParam (ap_name a) (ap_type a) (ap_description a) (ap_required a) (ap_default a)
                (property_params (ap_properties a))) (mm_accepts m)"

definition meta_example :: "method_meta \<Rightarrow> string \<Rightarrow> string" where
  "meta_example m meth =
     (let required = map (\<lambda>a. ''<'' @ ap_name a @ ''>'') (filter ap_required (mm_accepts m))
      in if required = [] then ''call_method(method=\"'' @ meth @ ''\")''
         else ''call_method(method=\"'' @ meth @ ''\", params=['' @ join_str '', '' required @ ''])'')"

subsection \<open>Lookups\<close>

definition get_methods_call :: mcall where
  "get_methods_call = \<lparr>mc_method = ''core.get_methods'', mc_params = []\<rparr>"

definition dec_methods :: "raw \<Rightarrow> method_meta gomap option" where
  "dec_methods raw =
     (case unmarshal dec_struct raw of None \<Rightarrow> None | Some kvs \<Rightarrow> dec_map dec_method_meta kvs [])"

definition methodMetadata :: "middleware \<Rightarrow> string \<Rightarrow> trace \<Rightarrow> (go_error + method_meta) \<times> trace" where
  "methodMetadata mw meth tr =
     (case mw_call mw (mc_method get_methods_call) (mc_params get_methods_call) tr of
        (Inl e, tr') \<Rightarrow> (Inl e, tr')
      | (Inr raw, tr') \<Rightarrow>
          (case dec_methods raw of
             None \<Rightarrow> (Inl (Wrapped ''decoding method metadata'' []), tr')
           | Some methods \<Rightarrow>
               (case map_of methods meth of
                  None \<Rightarrow> (Inl (Wrapped (''no method named '' @ go_quote meth @ '' on the target'') []), tr')
                | Some m \<Rightarrow> (Inr m, tr'))))"

definition allMethods :: "middleware \<Rightarrow> trace \<Rightarrow> (go_error + method_meta gomap) \<times> trace" where
  "allMethods mw tr =
     (case mw_call mw (mc_method get_methods_call) (mc_params get_methods_call) tr of
        (Inl e, tr') \<Rightarrow> (Inl e, tr')
      | (Inr raw, tr') \<Rightarrow>
          (case dec_methods raw of
             None \<Rightarrow> (Inl (Wrapped ''decoding method list'' []), tr')
           | Some methods \<Rightarrow> (Inr methods, tr')))"

subsection \<open>Lemmas\<close>

lemma get_methods_call_simps [simp]:
  "\<lparr>mc_method = mc_method get_methods_call, mc_params = mc_params get_methods_call\<rparr> = get_methods_call"
  by (simp add: get_methods_call_def)

text \<open>What the target reports, as both lookups see it.\<close>

definition reported :: "go_error + raw \<Rightarrow> method_meta gomap option" where
  "reported r = (case r of Inl _ \<Rightarrow> None | Inr raw \<Rightarrow> dec_methods raw)"

lemma methodMetadata_trace: "snd (methodMetadata mw meth tr) = tr @ [get_methods_call]"
  by (simp add: methodMetadata_def split: sum.split option.split)

lemma allMethods_trace: "snd (allMethods mw tr) = tr @ [get_methods_call]"
  by (simp add: allMethods_def split: sum.split option.split)

definition lookup_meta :: "go_error + raw \<Rightarrow> string \<Rightarrow> method_meta option" where
  "lookup_meta r meth = Option.bind (reported r) (\<lambda>ms. map_of ms meth)"

lemma methodMetadata_Inr:
  "fst (methodMetadata mw meth tr) = Inr m \<longleftrightarrow> lookup_meta (mw tr get_methods_call) meth = Some m"
  by (auto simp: methodMetadata_def reported_def lookup_meta_def split: sum.split option.split)

lemma methodMetadata_Inl:
  "(\<exists>e. fst (methodMetadata mw meth tr) = Inl e) \<longleftrightarrow> lookup_meta (mw tr get_methods_call) meth = None"
  by (auto simp: methodMetadata_def reported_def lookup_meta_def split: sum.split option.split)

lemma allMethods_Inl:
  "(\<exists>e. fst (allMethods mw tr) = Inl e) \<longleftrightarrow> reported (mw tr get_methods_call) = None"
  by (auto simp: allMethods_def reported_def split: sum.split option.split)

lemma allMethods_Inr:
  "fst (allMethods mw tr) = Inr ms \<longleftrightarrow> reported (mw tr get_methods_call) = Some ms"
  by (auto simp: allMethods_def reported_def split: sum.split option.split)

lemma reported_distinct: "reported r = Some ms \<Longrightarrow> distinct (keys_of ms)"
  by (auto simp: reported_def dec_methods_def dest: dec_map_distinct split: sum.splits option.splits)

end
