(* ===== verification/Config_Write_Tool.thy ===== *)
theory Config_Write_Tool
  imports Write_Tool Method_Metadata
begin

section \<open>The configuration write tools\<close>

text \<open>
  \<^verbatim>\<open>internal/server/config_write_tool.go\<close>: mutations whose payload is a configuration object. The denylist
  is checked on the object and on the options nested in it; whether the method runs as a job is asked of
  the target, and a target that cannot say is taken to mean no.
\<close>

subsection \<open>The handler\<close>

record config_write_input =
  cwi_id :: int
  cwi_config :: "json gomap"

record config_write_output =
  cwo_method :: string
  cwo_result :: json
  cwo_note :: string

datatype config_refusal =
    RequiresRecord string
  | RequiresConfig string string
  | ConfigDenied denied_error

definition configParams :: "config_write_op \<Rightarrow> config_write_input \<Rightarrow> json list" where
  "configParams w inp =
     (if cw_needs_id w \<and> cw_needs_config w then [JInt (cwi_id inp), JObj (cwi_config inp)]
      else if cw_needs_id w then [JInt (cwi_id inp)]
      else [JObj (cwi_config inp)])"

definition isJobMethod :: "middleware \<Rightarrow> string \<Rightarrow> trace \<Rightarrow> bool \<times> trace" where
  "isJobMethod mw meth tr =
     (case methodMetadata mw meth tr of
        (Inl e, tr') \<Rightarrow> (False, tr')
      | (Inr m, tr') \<Rightarrow> (mm_job m, tr'))"

text \<open>The two denial checks, the second only when the options are an object.\<close>

definition check_config :: "string \<Rightarrow> json gomap \<Rightarrow> denied_error option" where
  "check_config meth config =
     (case CheckDenied meth config of
        Some e \<Rightarrow> Some e
      | None \<Rightarrow>
          (case map_of config ''options'' of
             Some (JObj opts) \<Rightarrow> CheckDenied meth opts
           | _ \<Rightarrow> None))"

definition config_note :: string where
  "config_note = ''Started; follow it with jobs(op=\"show\", job_id=...).''"

definition config_write_tool ::
  "config_write_op \<Rightarrow> middleware \<Rightarrow> go_error option \<Rightarrow> config_write_input \<Rightarrow> trace \<Rightarrow>
     (config_refusal, config_write_output) tool_answer \<times> trace" where
  "config_write_tool w mw sess inp tr =
     (if cw_needs_id w \<and> cwi_id inp = 0 then (ToolError (RequiresRecord (cw_name w)), tr)
      else if cw_needs_config w \<and> cwi_config inp = [] then
        (ToolError (RequiresConfig (cw_name w) (cw_method w)), tr)
      else case check_config (cw_method w) (cwi_config inp) of
        Some e \<Rightarrow> (ToolError (ConfigDenied e), tr)
      | None \<Rightarrow>
          (case sess of
             Some e \<Rightarrow> (CallFailed e, tr)
           | None \<Rightarrow>
               (case isJobMethod mw (cw_method w) tr of
                  (True, tr') \<Rightarrow>
                    (case CallJob mw (cw_method w) (configParams w inp) tr' of
                       (Inl e, tr'') \<Rightarrow> (CallFailed e, tr'')
                     | (Inr jid, tr'') \<Rightarrow>
                         (Answered \<lparr>cwo_method = cw_method w, cwo_result = JObj [(''job_id'', JInt jid)],
                            cwo_note = config_note\<rparr>, tr''))
                | (False, tr') \<Rightarrow>
                    (case mw_call mw (cw_method w) (configParams w inp) tr' of
                       (Inl e, tr'') \<Rightarrow> (CallFailed e, tr'')
                     | (Inr raw, tr'') \<Rightarrow>
                         (Answered \<lparr>cwo_method = cw_method w, cwo_result = result_of raw, cwo_note = []\<rparr>, tr'')))))"

subsection \<open>Lemmas\<close>

lemma isJobMethod_trace: "snd (isJobMethod mw meth tr) = tr @ [get_methods_call]"
  using methodMetadata_trace [of mw meth tr]
  by (cases "methodMetadata mw meth tr") (simp add: isJobMethod_def split: sum.split)

lemma check_config_None:
  "check_config meth config = None \<longleftrightarrow>
     CheckDenied meth config = None \<and>
     (case map_of config ''options'' of Some (JObj opts) \<Rightarrow> CheckDenied meth opts = None | _ \<Rightarrow> True)"
  by (simp add: check_config_def split: option.split json.split)

text \<open>The flags the denylist has for access control changes.\<close>

definition acl_flags :: "string list" where
  "acl_flags = [''recursive'', ''traverse'', ''stripacl'']"

lemma setacl_denied:
  "a \<in> set acl_flags \<Longrightarrow> isTrue (map_of args a) \<Longrightarrow> CheckDenied ''filesystem.setacl'' args \<noteq> None"
  unfolding CheckDenied_def check_denials_None acl_flags_def
  by (auto simp: denials_def applies_def)

text \<open>A configuration sets a flag, at the top or inside its options.\<close>

definition sets_flag :: "json gomap \<Rightarrow> string \<Rightarrow> bool" where
  "sets_flag config a \<longleftrightarrow> isTrue (map_of config a) \<or>
     (case map_of config ''options'' of Some (JObj opts) \<Rightarrow> isTrue (map_of opts a) | _ \<Rightarrow> False)"

lemma check_config_flags:
  assumes "check_config ''filesystem.setacl'' config = None" and "a \<in> set acl_flags"
  shows "\<not> sets_flag config a"
proof -
  have ok: "CheckDenied ''filesystem.setacl'' args = None \<Longrightarrow> \<not> isTrue (map_of args a)" for args
    using setacl_denied [OF assms(2), of args] by blast
  note none = assms(1) [unfolded check_config_None]
  have "\<not> isTrue (map_of config a)" by (rule ok) (use none in blast)
  moreover have "\<not> isTrue (map_of opts a)" if "map_of config ''options'' = Some (JObj opts)" for opts
    by (rule ok) (use none that in simp)
  ultimately show ?thesis by (auto simp: sets_flag_def split: option.splits json.splits)
qed

lemma config_write_tool_sends:
  "\<exists>cs. snd (config_write_tool w mw sess inp tr) = tr @ cs \<and>
     (cs = [] \<or>
      cs = [get_methods_call, \<lparr>mc_method = cw_method w, mc_params = configParams w inp\<rparr>] \<and>
      sess = None \<and> check_config (cw_method w) (cwi_config inp) = None \<and>
      (cw_needs_id w \<longrightarrow> cwi_id inp \<noteq> 0) \<and> (cw_needs_config w \<longrightarrow> cwi_config inp \<noteq> []))"
proof (cases "(cw_needs_id w \<and> cwi_id inp = 0) \<or> (cw_needs_config w \<and> cwi_config inp = []) \<or>
    check_config (cw_method w) (cwi_config inp) \<noteq> None \<or> sess \<noteq> None")
  case True
  then show ?thesis by (auto simp: config_write_tool_def split: option.split)
next
  case False
  let ?m = "cw_method w" and ?ps = "configParams w inp"
  obtain b tr' where j: "isJobMethod mw ?m tr = (b, tr')" by fastforce
  with isJobMethod_trace [of mw ?m tr] have tr': "tr' = tr @ [get_methods_call]" by simp
  have "snd (config_write_tool w mw sess inp tr) = tr' @ [\<lparr>mc_method = ?m, mc_params = ?ps\<rparr>]"
    using False CallJob_trace [of mw ?m ?ps tr']
    by (cases b; cases "CallJob mw ?m ?ps tr'") (auto simp: config_write_tool_def j split: sum.split)
  with False tr' show ?thesis by auto
qed

subsection \<open>Properties\<close>

text \<open>
  C19. A configuration write reaches the target once and never in a denied shape. Each of the eight tools
  either calls nothing, or asks for the method metadata and then calls its own method once, with an id and
  a configuration where it needs them; and an access control change that reaches the target has none of
  the flags recursive, traverse and stripacl set, neither at the top nor inside its options.
\<close>

theorem config_write_guarded:
  "list_all (\<lambda>w. \<exists>cs. snd (config_write_tool w mw sess inp tr) = tr @ cs \<and>
     (cs = [] \<or>
      cs = [get_methods_call, \<lparr>mc_method = cw_method w, mc_params = configParams w inp\<rparr>] \<and> sess = None \<and>
      \<not> (cw_needs_id w \<and> cwi_id inp = 0) \<and> \<not> (cw_needs_config w \<and> cwi_config inp = []) \<and>
      \<not> (cw_method w = ''filesystem.setacl'' \<and>
         list_ex (sets_flag (cwi_config inp)) [''recursive'', ''traverse'', ''stripacl'']))) ConfigWrites"
proof -
  have "\<exists>cs. snd (config_write_tool w mw sess inp tr) = tr @ cs \<and>
     (cs = [] \<or>
      cs = [get_methods_call, \<lparr>mc_method = cw_method w, mc_params = configParams w inp\<rparr>] \<and> sess = None \<and>
      \<not> (cw_needs_id w \<and> cwi_id inp = 0) \<and> \<not> (cw_needs_config w \<and> cwi_config inp = []) \<and>
      \<not> (cw_method w = ''filesystem.setacl'' \<and> list_ex (sets_flag (cwi_config inp)) acl_flags))" for w
  proof -
    have flags: "\<not> list_ex (sets_flag (cwi_config inp)) acl_flags"
      if "check_config (cw_method w) (cwi_config inp) = None" "cw_method w = ''filesystem.setacl''"
      using that check_config_flags by (auto simp: list_ex_iff)
    obtain cs where "snd (config_write_tool w mw sess inp tr) = tr @ cs"
      "cs = [] \<or>
       cs = [get_methods_call, \<lparr>mc_method = cw_method w, mc_params = configParams w inp\<rparr>] \<and>
       sess = None \<and> check_config (cw_method w) (cwi_config inp) = None \<and>
       (cw_needs_id w \<longrightarrow> cwi_id inp \<noteq> 0) \<and> (cw_needs_config w \<longrightarrow> cwi_config inp \<noteq> [])"
      using config_write_tool_sends by blast
    with flags show ?thesis by metis
  qed
  then show ?thesis unfolding list_all_iff acl_flags_def by blast
qed

end
