(* ===== verification/Discovery_Tool.thy ===== *)
theory Discovery_Tool
  imports Config_Write_Tool
begin

section \<open>The discovery tools\<close>

text \<open>
  The handlers of \<^verbatim>\<open>internal/server/discovery_tool.go\<close>: searching for methods, describing one, and calling
  one directly, all bounded by the same allowlist; the note composed for a call; and the repair of the
  input schema, which replaces boolean \<^verbatim>\<open>items\<close> and nothing else. Go ranges over the methods in any
  order, which is the order of the association list here.
\<close>

subsection \<open>Searching\<close>

record search_input =
  si_query :: string
  si_limit :: int

record search_output =
  so_query :: string
  so_methods :: "string list"
  so_count :: int
  so_note :: string

datatype discovery_refusal =
    QueryRequired
  | LookupFailed go_error
  | NotExposed gate_error
  | CallDenied denied_error

text \<open>The loop over the methods: the names that match and are callable, and how many match and are not.\<close>

fun search_loop :: "bool \<Rightarrow> string \<Rightarrow> method_meta gomap \<Rightarrow> string list \<Rightarrow> nat \<Rightarrow> string list \<times> nat" where
  "search_loop w q [] matched hidden = (matched, hidden)"
| "search_loop w q ((name, m) # rest) matched hidden =
     (if \<not> contains_str q name then search_loop w q rest matched hidden
      else if CheckDiscoverable (meta_info m name) w \<noteq> None then search_loop w q rest matched (hidden + 1)
      else search_loop w q rest (matched @ [name]) hidden)"

definition search_answer :: "bool \<Rightarrow> search_input \<Rightarrow> method_meta gomap \<Rightarrow> search_output" where
  "search_answer w inp methods =
     (let limit = (if si_limit inp \<le> 0 then 40 else si_limit inp);
          (found, hidden) = search_loop w (si_query inp) methods [] 0;
          matched = sort found;
          cut_off = limit < int (length matched);
          shown = (if cut_off then take (nat limit) matched else matched);
          note1 = (if cut_off then show_nat (length matched) @ '' matches; showing '' @ show_int limit else []);
          note2 = (if 0 < hidden
                   then (if note1 \<noteq> [] then note1 @ ''. '' else note1) @ show_nat hidden @
                     '' further matches are not exposed by this server''
                   else note1)
      in \<lparr>so_query = si_query inp, so_methods = shown, so_count = int (length shown), so_note = note2\<rparr>)"

definition search_methods ::
  "bool \<Rightarrow> middleware \<Rightarrow> go_error option \<Rightarrow> search_input \<Rightarrow> trace \<Rightarrow>
     (discovery_refusal, search_output) tool_answer \<times> trace" where
  "search_methods w mw sess inp tr =
     (if trim_space (si_query inp) = [] then (ToolError QueryRequired, tr)
      else case sess of
        Some e \<Rightarrow> (CallFailed e, tr)
      | None \<Rightarrow>
          (case allMethods mw tr of
             (Inl e, tr') \<Rightarrow> (CallFailed e, tr')
           | (Inr methods, tr') \<Rightarrow> (Answered (search_answer w inp methods), tr')))"

subsection \<open>Describing\<close>

record describe_input =
  ei_method :: string
  ei_full :: bool

record describe_output =
  eo_method :: string
  eo_description :: string
  eo_caveat :: string
  eo_job :: bool
  eo_read_only :: bool
  eo_params :: "flat_param list"
  eo_omitted :: nat
  eo_example :: string

definition describe_method ::
  "bool \<Rightarrow> middleware \<Rightarrow> go_error option \<Rightarrow> describe_input \<Rightarrow> trace \<Rightarrow>
     (discovery_refusal, describe_output) tool_answer \<times> trace" where
  "describe_method w mw sess inp tr =
     (case sess of
        Some e \<Rightarrow> (CallFailed e, tr)
      | None \<Rightarrow>
          (case methodMetadata mw (ei_method inp) tr of
             (Inl e, tr') \<Rightarrow> (ToolError (LookupFailed e), tr')
           | (Inr meta, tr') \<Rightarrow>
               (case CheckDiscoverable (meta_info meta (ei_method inp)) w of
                  Some e \<Rightarrow> (ToolError (NotExposed e), tr')
                | None \<Rightarrow>
                    let summary = SummarizeSchema (meta_params meta) (ei_full inp)
                    in (Answered \<lparr>eo_method = ei_method inp, eo_description = mm_description meta,
                          eo_caveat = MethodCaveat (ei_method inp), eo_job = mm_job meta,
                          eo_read_only = meta_readOnly meta, eo_params = ss_params summary,
                          eo_omitted = ss_omitted summary, eo_example = meta_example meta (ei_method inp)\<rparr>, tr'))))"

subsection \<open>Calling\<close>

record call_input =
  ci_method :: string
  ci_params :: "json list"

record call_output =
  cl_method :: string
  cl_job_id :: int
  cl_result :: json
  cl_note :: string

definition composeNote :: "string \<Rightarrow> string \<Rightarrow> string" where
  "composeNote caveat followUp =
     (if caveat = [] then followUp else if followUp = [] then caveat else caveat @ '' '' @ followUp)"

text \<open>The denial check over the positional parameters: every object among them.\<close>

fun check_params :: "string \<Rightarrow> json list \<Rightarrow> denied_error option" where
  "check_params meth [] = None"
| "check_params meth (p # ps) =
     (case p of
        JObj m \<Rightarrow> (case CheckDenied meth m of Some e \<Rightarrow> Some e | None \<Rightarrow> check_params meth ps)
      | _ \<Rightarrow> check_params meth ps)"

definition follow_note :: string where
  "follow_note = ''Started; follow it with jobs(op=\"show\", job_id=...).''"

definition call_method ::
  "bool \<Rightarrow> middleware \<Rightarrow> go_error option \<Rightarrow> call_input \<Rightarrow> trace \<Rightarrow>
     (discovery_refusal, call_output) tool_answer \<times> trace" where
  "call_method w mw sess inp tr =
     (case check_params (ci_method inp) (ci_params inp) of
        Some e \<Rightarrow> (ToolError (CallDenied e), tr)
      | None \<Rightarrow>
          (case sess of
             Some e \<Rightarrow> (CallFailed e, tr)
           | None \<Rightarrow>
               (case methodMetadata mw (ci_method inp) tr of
                  (Inl e, tr') \<Rightarrow> (ToolError (LookupFailed e), tr')
                | (Inr meta, tr') \<Rightarrow>
                    (case CheckDiscoverable (meta_info meta (ci_method inp)) w of
                       Some e \<Rightarrow> (ToolError (NotExposed e), tr')
                     | None \<Rightarrow>
                         let caveat = MethodCaveat (ci_method inp)
                         in if mm_job meta then
                              (case CallJob mw (ci_method inp) (ci_params inp) tr' of
                                 (Inl e, tr'') \<Rightarrow> (CallFailed e, tr'')
                               | (Inr jid, tr'') \<Rightarrow>
                                   (Answered \<lparr>cl_method = ci_method inp, cl_job_id = jid, cl_result = JNull,
                                      cl_note = composeNote caveat follow_note\<rparr>, tr''))
                            else
                              (case mw_call mw (ci_method inp) (ci_params inp) tr' of
                                 (Inl e, tr'') \<Rightarrow> (CallFailed e, tr'')
                               | (Inr raw, tr'') \<Rightarrow>
                                   (Answered \<lparr>cl_method = ci_method inp, cl_job_id = 0, cl_result = result_of raw,
                                      cl_note = composeNote caveat []\<rparr>, tr''))))))"

subsection \<open>The input schema\<close>

text \<open>
  The walk over a decoded schema. An \<^verbatim>\<open>items\<close> member that is a boolean is replaced before the walk goes
  into the members, the replaced one included.
\<close>

definition fix_items :: "json gomap \<Rightarrow> json gomap" where
  "fix_items m =
     map (\<lambda>(k, v). if k = ''items'' then
            (case v of
               JBool True \<Rightarrow> (k, JObj [])
             | JBool False \<Rightarrow> (k, JObj [(''not'', JObj [])])
             | _ \<Rightarrow> (k, v))
          else (k, v)) m"

text \<open>The walk ends because a boolean weighs more than what replaces it.\<close>

function json_weight :: "json \<Rightarrow> nat" where
  "json_weight JNull = 1"
| "json_weight (JBool b) = 10"
| "json_weight (JInt i) = 1"
| "json_weight (JFloat r) = 1"
| "json_weight (JStr s) = 1"
| "json_weight (JArr xs) = 1 + (\<Sum>x \<leftarrow> xs. json_weight x)"
| "json_weight (JObj kvs) = 1 + (\<Sum>p \<leftarrow> kvs. json_weight (snd p))"
  by pat_completeness auto
termination
  by (relation "measure size") (auto simp: json_member_size size_list_estimation' less_Suc_eq_le intro: size_list_estimation')

lemma weight_member: "p \<in> set kvs \<Longrightarrow> json_weight (snd p) < json_weight (JObj kvs)"
  using member_le_sum_list [of "json_weight (snd p)" "map (\<lambda>p. json_weight (snd p)) kvs"] by force

lemma weight_element: "x \<in> set xs \<Longrightarrow> json_weight x < json_weight (JArr xs)"
  using member_le_sum_list [of "json_weight x" "map json_weight xs"] by force

lemma weight_fix_items: "json_weight (JObj (fix_items m)) \<le> json_weight (JObj m)"
  by (induction m) (auto simp: fix_items_def split: json.splits bool.splits)

function rewriteBooleanItems :: "json \<Rightarrow> json" where
  "rewriteBooleanItems (JObj m) = JObj (map (\<lambda>p. (fst p, rewriteBooleanItems (snd p))) (fix_items m))"
| "rewriteBooleanItems (JArr xs) = JArr (map rewriteBooleanItems xs)"
| "rewriteBooleanItems JNull = JNull"
| "rewriteBooleanItems (JBool b) = JBool b"
| "rewriteBooleanItems (JInt i) = JInt i"
| "rewriteBooleanItems (JFloat r) = JFloat r"
| "rewriteBooleanItems (JStr s) = JStr s"
  by pat_completeness auto
termination
proof (relation "measure json_weight")
  fix m p
  assume "p \<in> set (fix_items m)"
  then have "json_weight (snd p) < json_weight (JObj (fix_items m))" by (rule weight_member)
  also have "\<dots> \<le> json_weight (JObj m)" by (rule weight_fix_items)
  finally show "(snd p, JObj m) \<in> measure json_weight" by simp
qed (simp_all del: json_weight.simps add: weight_element)

subsection \<open>Lemmas\<close>

text \<open>The names a search finds, before sorting, and a method that may be used.\<close>

definition usable :: "bool \<Rightarrow> string \<Rightarrow> method_meta \<Rightarrow> bool" where
  "usable w name m \<longleftrightarrow> CheckDiscoverable (meta_info m name) w = None"

definition found_names :: "bool \<Rightarrow> string \<Rightarrow> method_meta gomap \<Rightarrow> string list" where
  "found_names w q ms = map fst (filter (\<lambda>(n, m). contains_str q n \<and> usable w n m) ms)"

lemma search_loop_found: "fst (search_loop w q ms matched hidden) = matched @ found_names w q ms"
  by (induction w q ms matched hidden rule: search_loop.induct) (auto simp: found_names_def usable_def)

lemma search_answer_methods:
  "so_methods (search_answer w inp ms) =
     take (nat (if si_limit inp \<le> 0 then 40 else si_limit inp)) (sort (found_names w (si_query inp) ms))"
  using search_loop_found [of w "si_query inp" ms "[]" 0]
  by (cases "search_loop w (si_query inp) ms [] 0") (auto simp: search_answer_def Let_def)

lemma search_answer_count: "so_count (search_answer w inp ms) = int (length (so_methods (search_answer w inp ms)))"
  by (simp add: search_answer_def Let_def split: prod.split)

lemma search_methods_Answered:
  assumes "fst (search_methods w mw sess inp tr) = Answered out"
  shows "\<exists>ms. reported (mw tr get_methods_call) = Some ms \<and> out = search_answer w inp ms"
proof -
  obtain r tr' where r: "allMethods mw tr = (r, tr')" by fastforce
  with assms obtain ms where ms: "r = Inr ms" "out = search_answer w inp ms"
    by (auto simp: search_methods_def split: if_splits option.splits sum.splits)
  with allMethods_Inr [of mw tr ms] r show ?thesis by simp
qed

text \<open>The target reports a method and it may be used.\<close>

definition reported_usable :: "bool \<Rightarrow> go_error + raw \<Rightarrow> string \<Rightarrow> bool" where
  "reported_usable w r n \<longleftrightarrow> (case lookup_meta r n of None \<Rightarrow> False | Some m \<Rightarrow> usable w n m)"

lemma describe_method_Answered:
  "(\<exists>d. fst (describe_method w mw None \<lparr>ei_method = n, ei_full = full\<rparr> tr) = Answered d) \<longleftrightarrow>
     reported_usable w (mw tr get_methods_call) n"
proof -
  obtain r tr' where r: "methodMetadata mw n tr = (r, tr')" by fastforce
  show ?thesis
  proof (cases r)
    case (Inl e)
    with r methodMetadata_Inl [of mw n tr] have "lookup_meta (mw tr get_methods_call) n = None" by auto
    with r Inl show ?thesis by (simp add: describe_method_def reported_usable_def)
  next
    case (Inr m)
    with r methodMetadata_Inr [of mw n tr m] have "lookup_meta (mw tr get_methods_call) n = Some m" by simp
    with r Inr show ?thesis
      by (simp add: describe_method_def reported_usable_def usable_def Let_def split: option.split)
  qed
qed

lemma set_found_names:
  "distinct (keys_of ms) \<Longrightarrow>
     n \<in> set (found_names w q ms) \<longleftrightarrow> contains_str q n \<and> (\<exists>m. map_of ms n = Some m \<and> usable w n m)"
  by (force simp: found_names_def map_of_eq_Some_iff image_iff)

lemma distinct_found_names: "distinct (keys_of ms) \<Longrightarrow> distinct (found_names w q ms)"
  by (simp add: found_names_def distinct_map_filter)

lemma check_params_None:
  "check_params meth ps = None \<longleftrightarrow> list_all (\<lambda>p. case p of JObj m \<Rightarrow> CheckDenied meth m = None | _ \<Rightarrow> True) ps"
  by (induction ps) (auto split: json.split option.split)

lemma call_method_sends:
  "\<exists>cs. snd (call_method w mw sess inp tr) = tr @ cs \<and>
     (cs = [] \<or> cs = [get_methods_call] \<or>
      cs = [get_methods_call, \<lparr>mc_method = ci_method inp, mc_params = ci_params inp\<rparr>] \<and>
      check_params (ci_method inp) (ci_params inp) = None \<and>
      reported_usable w (mw tr get_methods_call) (ci_method inp))"
proof (cases "check_params (ci_method inp) (ci_params inp) = None \<and> sess = None")
  case False
  then show ?thesis by (auto simp: call_method_def split: option.split)
next
  case True
  let ?m = "ci_method inp" and ?ps = "ci_params inp"
  obtain r tr' where r: "methodMetadata mw ?m tr = (r, tr')" by fastforce
  with methodMetadata_trace [of mw ?m tr] have tr': "tr' = tr @ [get_methods_call]" by simp
  show ?thesis
  proof (cases "\<exists>m. r = Inr m \<and> usable w ?m m")
    case False
    with True r tr' show ?thesis
      by (cases r) (auto simp: call_method_def usable_def)
  next
    case usable: True
    then obtain m where m: "r = Inr m" "usable w ?m m" by blast
    have "snd (call_method w mw sess inp tr) = tr' @ [\<lparr>mc_method = ?m, mc_params = ?ps\<rparr>]"
      using True r m CallJob_trace [of mw ?m ?ps tr']
      by (cases "CallJob mw ?m ?ps tr'") (auto simp: call_method_def usable_def Let_def split: sum.split)
    moreover have "reported_usable w (mw tr get_methods_call) ?m"
      using methodMetadata_Inr [of mw ?m tr m] r m by (simp add: reported_usable_def)
    ultimately show ?thesis using True m(2) tr' by auto
  qed
qed

text \<open>No boolean under an \<^verbatim>\<open>items\<close> member, at any depth.\<close>

definition is_bool :: "json \<Rightarrow> bool" where
  "is_bool j = (case j of JBool b \<Rightarrow> True | _ \<Rightarrow> False)"

function no_bool_items :: "json \<Rightarrow> bool" where
  "no_bool_items (JObj m) =
     list_all (\<lambda>p. \<not> (fst p = ''items'' \<and> is_bool (snd p)) \<and> no_bool_items (snd p)) m"
| "no_bool_items (JArr xs) = list_all no_bool_items xs"
| "no_bool_items JNull = True"
| "no_bool_items (JBool b) = True"
| "no_bool_items (JInt i) = True"
| "no_bool_items (JFloat r) = True"
| "no_bool_items (JStr s) = True"
  by pat_completeness auto
termination
  by (relation "measure json_weight") (simp_all del: json_weight.simps add: weight_element weight_member)

lemma fst_fix_items: "map fst (fix_items m) = map fst m"
  by (induction m) (auto simp: fix_items_def split: json.splits bool.splits)

lemma map_of_fix_items: "k \<noteq> ''items'' \<Longrightarrow> map_of (fix_items m) k = map_of m k"
  by (induction m) (auto simp: fix_items_def split: json.splits bool.splits)

lemma fix_items_not_bool: "p \<in> set (fix_items m) \<Longrightarrow> \<not> (fst p = ''items'' \<and> is_bool (snd p))"
  by (auto simp: fix_items_def is_bool_def split: json.splits bool.splits if_splits)

lemma fix_items_same: "list_all (\<lambda>p. \<not> (fst p = ''items'' \<and> is_bool (snd p))) m \<Longrightarrow> fix_items m = m"
  by (induction m) (auto simp: fix_items_def is_bool_def split: json.splits bool.splits)

lemma rewrite_is_bool: "is_bool (rewriteBooleanItems j) \<longleftrightarrow> is_bool j"
  by (cases j) (simp_all add: is_bool_def)

lemma rewrite_no_bool_items: "no_bool_items (rewriteBooleanItems j)"
proof (induction j rule: rewriteBooleanItems.induct)
  case (1 m)
  then show ?case
    by (auto simp: list_all_iff rewrite_is_bool dest: fix_items_not_bool)
qed (simp_all add: list_all_iff)

lemma rewrite_same: "no_bool_items j \<Longrightarrow> rewriteBooleanItems j = j"
proof (induction j rule: rewriteBooleanItems.induct)
  case (1 m)
  then have same: "fix_items m = m" by (intro fix_items_same) (auto simp: list_all_iff)
  have "rewriteBooleanItems (snd p) = snd p" if "p \<in> set m" for p
    using "1.IH" [of p] "1.prems" that same by (auto simp: list_all_iff)
  then show ?case by (simp add: same map_idI)
qed (simp_all add: list_all_iff map_idI)

subsection \<open>Properties\<close>

text \<open>
  C6. The escape hatch stays inside the allowlist. \<^verbatim>\<open>call_method\<close> calls nothing, or only reads the
  method metadata, or reads it and then makes the one call it was asked for; and it does that only when
  no object among the parameters is denied, the target reports the method, it is none of those denied in
  every form, it streams through no pipe, and either it declares roles and is read-only or the write tier
  is on, or it is one of the established reads without roles.
\<close>

theorem call_method_guarded:
  "\<exists>cs. snd (call_method w mw sess inp tr) = tr @ cs \<and>
     (cs = [] \<or> cs = [get_methods_call] \<or>
      cs = [get_methods_call, \<lparr>mc_method = ci_method inp, mc_params = ci_params inp\<rparr>] \<and>
      list_all (\<lambda>p. case p of JObj m \<Rightarrow> CheckDenied (ci_method inp) m = None | _ \<Rightarrow> True) (ci_params inp) \<and>
      (\<exists>m. lookup_meta (mw tr get_methods_call) (ci_method inp) = Some m \<and>
         ci_method inp \<notin> set DeniedMethods \<and> \<not> excluded (ci_method inp) \<and>
         \<not> mm_downloadable m \<and> \<not> mm_uploadable m \<and>
         (if mm_roles m = [] then IsSafeUnroledRead (ci_method inp) else meta_readOnly m \<or> w)))"
proof -
  have "\<exists>m. lookup_meta r n = Some m \<and> n \<notin> set DeniedMethods \<and> \<not> excluded n \<and>
         \<not> mm_downloadable m \<and> \<not> mm_uploadable m \<and>
         (if mm_roles m = [] then IsSafeUnroledRead n else meta_readOnly m \<or> w)"
    if "reported_usable w r n" for r n
    using that
    by (cases "lookup_meta r n")
       (auto simp: reported_usable_def usable_def CheckDiscoverable_None denied_bare_iff meta_info_def
          meta_readOnly_def readOnlyRole_def split: if_splits)
  with call_method_sends [of w mw sess inp tr] show ?thesis
    unfolding check_params_None by metis
qed

text \<open>
  Search and description agree. What a search lists is sorted, free of repetitions, contains the
  query, and can be described in the same state of the target; and when the page is not full, every
  method that contains the query and can be described is listed.
\<close>

theorem search_agrees_with_describe:
  assumes "fst (search_methods w mw sess inp tr) = Answered out"
  shows "sorted (so_methods out) \<and> distinct (so_methods out) \<and> so_count out = int (length (so_methods out)) \<and>
    list_all (\<lambda>n. contains_str (si_query inp) n \<and>
      (\<exists>d. fst (describe_method w mw None \<lparr>ei_method = n, ei_full = full\<rparr> tr) = Answered d)) (so_methods out) \<and>
    (so_count out < (if si_limit inp \<le> 0 then 40 else si_limit inp) \<longrightarrow>
       (\<forall>n d. contains_str (si_query inp) n \<and>
          fst (describe_method w mw None \<lparr>ei_method = n, ei_full = full\<rparr> tr) = Answered d \<longrightarrow>
          n \<in> set (so_methods out)))"
proof -
  obtain ms where ms: "reported (mw tr get_methods_call) = Some ms" and out: "out = search_answer w inp ms"
    using search_methods_Answered [OF assms] by blast
  let ?limit = "nat (if si_limit inp \<le> 0 then 40 else si_limit inp)"
  let ?found = "sort (found_names w (si_query inp) ms)"
  have dist: "distinct (keys_of ms)" using ms by (rule reported_distinct)
  have methods: "so_methods out = take ?limit ?found" unfolding out by (rule search_answer_methods)
  have count: "so_count out = int (length (so_methods out))" unfolding out by (rule search_answer_count)
  have member: "n \<in> set ?found \<longleftrightarrow> contains_str (si_query inp) n \<and>
      (\<exists>d. fst (describe_method w mw None \<lparr>ei_method = n, ei_full = full\<rparr> tr) = Answered d)" for n
    unfolding describe_method_Answered reported_usable_def lookup_meta_def
    by (simp add: ms set_found_names [OF dist] split: option.split)
  have "sorted (so_methods out)" unfolding methods by (rule sorted_wrt_take) simp
  moreover have "distinct (so_methods out)"
    unfolding methods using distinct_found_names [OF dist] by simp
  moreover have "n \<in> set ?found" if "n \<in> set (so_methods out)" for n
    using that unfolding methods by (rule in_set_takeD)
  moreover have "set (so_methods out) = set ?found"
    if "so_count out < (if si_limit inp \<le> 0 then 40 else si_limit inp)"
  proof -
    from that count have "length (take ?limit ?found) < ?limit" unfolding methods by linarith
    then have "length ?found \<le> ?limit" by simp
    then show ?thesis unfolding methods by simp
  qed
  ultimately show ?thesis using count member unfolding list_all_iff by blast
qed

definition one_method :: "string \<Rightarrow> string \<Rightarrow> middleware" where
  "one_method name role tr c = Inr (Some (JObj [(name, JObj [(''roles'', JArr [JStr role])])]))"

definition role_meta :: "string \<Rightarrow> method_meta" where
  "role_meta role = \<lparr>mm_description = [], mm_job = False, mm_downloadable = False, mm_uploadable = False,
     mm_roles = [role], mm_accepts = []\<rparr>"

lemma one_method_reported: "reported (one_method name role tr c) = Some [(name, role_meta role)]"
proof -
  have "dec_method_meta (JObj [(''roles'', JArr [JStr role])]) = Some (role_meta role)"
    by (simp add: dec_method_meta_def jfield_def member_def role_meta_def lower_char_def)
  then show ?thesis by (simp add: one_method_def reported_def dec_methods_def map_put_def)
qed

lemma one_method_lookup: "lookup_meta (one_method name role tr c) name = Some (role_meta role)"
  by (simp add: lookup_meta_def one_method_reported)

lemma search_agrees_with_describe_witness:
  "\<exists>out. fst (search_methods False (one_method ''app.query'' ''READONLY_ADMIN'') None
       \<lparr>si_query = ''app'', si_limit = 0\<rparr> []) = Answered out \<and> so_methods out = [''app.query''] \<and>
     (\<exists>d. fst (describe_method False (one_method ''app.query'' ''READONLY_ADMIN'') None
        \<lparr>ei_method = ''app.query'', ei_full = False\<rparr> []) = Answered d)"
proof -
  let ?mw = "one_method ''app.query'' ''READONLY_ADMIN''" and ?inp = "\<lparr>si_query = ''app'', si_limit = 0\<rparr>"
  let ?ms = "[(''app.query'', role_meta ''READONLY_ADMIN'')]"
  have all: "fst (allMethods ?mw []) = Inr ?ms"
    unfolding allMethods_Inr by (rule one_method_reported)
  obtain r tr' where r: "allMethods ?mw [] = (r, tr')" by fastforce
  have "trim_space ''app'' \<noteq> []"
    by (simp add: trim_space_def trim_by.simps space_bytes_def)
  with r all have out: "fst (search_methods False ?mw None ?inp []) = Answered (search_answer False ?inp ?ms)"
    by (simp add: search_methods_def)
  have "found_names False ''app'' ?ms = [''app.query'']"
    by (simp add: found_names_def usable_def CheckDiscoverable_None excluded_iff has_prefix_def contains_str_def
        denied_bare_iff DeniedMethods_eq meta_info_def role_meta_def readOnlyRole_def)
  then have "so_methods (search_answer False ?inp ?ms) = [''app.query'']"
    by (simp add: search_answer_methods)
  with search_agrees_with_describe [OF out, of False] out show ?thesis by auto
qed

text \<open>
  The schema repair removes every boolean under \<^verbatim>\<open>items\<close>, at any depth, and touches nothing
  else: a schema is left as it is exactly when it has no such boolean, and every other member of an
  object keeps its key and its place, with only its own inside repaired, so that
  \<^verbatim>\<open>additionalProperties: false\<close> stays.
\<close>

theorem rewriteBooleanItems_exact:
  "no_bool_items (rewriteBooleanItems j) \<and> (rewriteBooleanItems j = j \<longleftrightarrow> no_bool_items j) \<and>
   (case j of
      JObj m \<Rightarrow> \<exists>m'. rewriteBooleanItems j = JObj m' \<and> keys_of m' = keys_of m \<and>
        map_of m' ''additionalProperties'' = map_option rewriteBooleanItems (map_of m ''additionalProperties'')
    | JBool b \<Rightarrow> rewriteBooleanItems j = JBool b
    | _ \<Rightarrow> True)"
proof (intro conjI)
  show "no_bool_items (rewriteBooleanItems j)" by (rule rewrite_no_bool_items)
  show "rewriteBooleanItems j = j \<longleftrightarrow> no_bool_items j"
    using rewrite_no_bool_items [of j] rewrite_same [of j] by metis
  have lookup: "map_of (map (\<lambda>p. (fst p, rewriteBooleanItems (snd p))) kvs) k =
      map_option rewriteBooleanItems (map_of kvs k)" for kvs k
    by (induction kvs) auto
  have obj: "map_of (map (\<lambda>p. (fst p, rewriteBooleanItems (snd p))) (fix_items m)) ''additionalProperties'' =
      map_option rewriteBooleanItems (map_of m ''additionalProperties'')" for m
    by (simp add: lookup map_of_fix_items)
  have keys: "keys_of (map (\<lambda>p. (fst p, rewriteBooleanItems (snd p))) (fix_items m)) = keys_of m" for m
    using fst_fix_items [of m] by (simp add: comp_def)
  show "case j of
      JObj m \<Rightarrow> \<exists>m'. rewriteBooleanItems j = JObj m' \<and> keys_of m' = keys_of m \<and>
        map_of m' ''additionalProperties'' = map_option rewriteBooleanItems (map_of m ''additionalProperties'')
    | JBool b \<Rightarrow> rewriteBooleanItems j = JBool b
    | _ \<Rightarrow> True"
    using obj keys by (cases j) simp_all
qed

subsection \<open>A gap between the two write paths\<close>

text \<open>
  The configuration tool looks for denied flags inside \<^verbatim>\<open>options\<close>, \<^verbatim>\<open>call_method\<close> only at the top of
  each object. With the write tier on, a recursive access control change in the shape the middleware
  takes is refused by the first and sent by the second.
\<close>

definition recursive_acl :: "json gomap" where
  "recursive_acl = [(''path'', JStr ''/mnt/tank''), (''dacl'', JArr []),
     (''options'', JObj [(''recursive'', JBool True)])]"

lemma call_method_reaches_recursive_acl:
  "sets_flag recursive_acl ''recursive'' \<and>
   snd (call_method True (one_method ''filesystem.setacl'' ''FILESYSTEM_ATTRS_WRITE'') None
      \<lparr>ci_method = ''filesystem.setacl'', ci_params = [JObj recursive_acl]\<rparr> []) =
     [get_methods_call, \<lparr>mc_method = ''filesystem.setacl'', mc_params = [JObj recursive_acl]\<rparr>] \<and>
   check_config ''filesystem.setacl'' recursive_acl \<noteq> None"
proof (intro conjI)
  let ?mw = "one_method ''filesystem.setacl'' ''FILESYSTEM_ATTRS_WRITE''"
  show flag: "sets_flag recursive_acl ''recursive''"
    by (simp add: sets_flag_def recursive_acl_def isTrue_def)
  then show "check_config ''filesystem.setacl'' recursive_acl \<noteq> None"
    using check_config_flags [of recursive_acl "''recursive''"] by (auto simp: acl_flags_def)
  have top: "check_params ''filesystem.setacl'' [JObj recursive_acl] = None"
    by (simp add: recursive_acl_def CheckDenied_def denials_def isTrue_def)
  obtain r tr' where r: "methodMetadata ?mw ''filesystem.setacl'' [] = (r, tr')" by fastforce
  with methodMetadata_trace [of ?mw "''filesystem.setacl''" "[]"] have tr': "tr' = [get_methods_call]" by simp
  have "r = Inr (role_meta ''FILESYSTEM_ATTRS_WRITE'')"
    using methodMetadata_Inr [of ?mw "''filesystem.setacl''" "[]"] one_method_lookup r by simp
  moreover have "CheckDiscoverable (meta_info (role_meta ''FILESYSTEM_ATTRS_WRITE'') ''filesystem.setacl'') True = None"
    by (simp add: CheckDiscoverable_None excluded_iff has_prefix_def denied_bare_iff DeniedMethods_eq
        meta_info_def role_meta_def)
  moreover have "\<not> mm_job (role_meta ''FILESYSTEM_ATTRS_WRITE'')" by (simp add: role_meta_def)
  ultimately show "snd (call_method True ?mw None
      \<lparr>ci_method = ''filesystem.setacl'', ci_params = [JObj recursive_acl]\<rparr> []) =
     [get_methods_call, \<lparr>mc_method = ''filesystem.setacl'', mc_params = [JObj recursive_acl]\<rparr>]"
    using top r tr' by (simp add: call_method_def Let_def split: sum.split)
qed

end
