(* ===== verification/Replay_Cache.thy ===== *)
theory Replay_Cache
  imports Go_Prelude
begin

section \<open>Maps that expire, and the replay cache\<close>

text \<open>
  \<^verbatim>\<open>internal/oauth/replay.go\<close>, after the interface it shares with the task registry: a map whose entries
  stop counting at some time and are swept out lazily, on access. Times and durations are Go's integer
  nanoseconds. The state is the map from identifiers to values.
\<close>

subsection \<open>The interface of a lazily swept map\<close>

locale expiring_map =
  fixes live :: "int \<Rightarrow> 'v \<Rightarrow> bool"
    and purge :: "int \<Rightarrow> (string \<rightharpoonup> 'v) \<Rightarrow> (string \<rightharpoonup> 'v)"
  assumes live_until: "live t' v \<Longrightarrow> t \<le> t' \<Longrightarrow> live t v"
    and purge_lookup: "purge t m k = (case m k of None \<Rightarrow> None | Some v \<Rightarrow> if live t v then Some v else None)"
begin

text \<open>Sweeping early never changes what a later sweep leaves, so laziness is not observable.\<close>

lemma purge_absorb: "t \<le> t' \<Longrightarrow> purge t' (purge t m) = purge t' m"
  by (rule ext) (auto simp: purge_lookup dest: live_until split: option.split)

lemma purge_live: "purge t m k = Some v \<Longrightarrow> live t v \<and> m k = Some v"
  by (auto simp: purge_lookup split: option.splits if_splits)

lemma purge_keeps: "m k = Some v \<Longrightarrow> live t v \<Longrightarrow> purge t m k = Some v"
  by (simp add: purge_lookup)

lemma purge_forgets: "m k = Some v \<Longrightarrow> \<not> live t v \<Longrightarrow> purge t m k = None"
  by (simp add: purge_lookup)

lemma purge_update: "live t v \<Longrightarrow> purge t (m(k \<mapsto> v)) = (purge t m)(k \<mapsto> v)"
  by (rule ext) (simp add: purge_lookup)

end

subsection \<open>The cache\<close>

type_synonym replay_cache = "string \<rightharpoonup> int"

definition NewReplayCache :: replay_cache where
  "NewReplayCache = (\<lambda>_. None)"

definition sweepLocked :: "int \<Rightarrow> replay_cache \<Rightarrow> replay_cache" where
  "sweepLocked now seen = (\<lambda>k. case seen k of
     None \<Rightarrow> None
   | Some until \<Rightarrow> if \<not> now < until then None else Some until)"

definition Claim :: "replay_cache \<Rightarrow> int \<Rightarrow> string \<Rightarrow> int \<Rightarrow> bool \<times> replay_cache" where
  "Claim c now i ttl =
     (let swept = sweepLocked now c
      in case swept i of
           Some until \<Rightarrow> if now < until then (False, swept) else (True, swept(i \<mapsto> now + ttl))
         | None \<Rightarrow> (True, swept(i \<mapsto> now + ttl)))"

interpretation claims: expiring_map "\<lambda>now until. now < until" sweepLocked
  by unfold_locales (auto simp: sweepLocked_def split: option.split)

subsection \<open>The interface to the token endpoint\<close>

text \<open>
  What the token endpoint relies on: a claim succeeds exactly when the identifier is not held; a
  successful claim holds it for the given time; and no claim releases what another one holds.
\<close>

locale single_use =
  fixes claim :: "'s \<Rightarrow> int \<Rightarrow> string \<Rightarrow> int \<Rightarrow> bool \<times> 's"
    and held :: "'s \<Rightarrow> int \<Rightarrow> string \<Rightarrow> bool"
  assumes claim_iff: "fst (claim s now i ttl) \<longleftrightarrow> \<not> held s now i"
    and claim_holds: "fst (claim s now i ttl) \<Longrightarrow> now \<le> t \<Longrightarrow> t < now + ttl \<Longrightarrow>
      held (snd (claim s now i ttl)) t i"
    and claim_keeps: "held s t j \<Longrightarrow> now \<le> t \<Longrightarrow> held (snd (claim s now i ttl)) t j"
begin

lemma held_after:
  "held s t i \<Longrightarrow> list_all (\<lambda>c. fst c \<le> t) cs \<Longrightarrow>
     held (foldl (\<lambda>s (u, j). snd (claim s u j ttl)) s cs) t i"
  by (induction cs arbitrary: s) (auto simp: claim_keeps)

text \<open>However many other claims come in between, a second claim within the time to live fails.\<close>

lemma used_once:
  assumes "fst (claim s now i ttl)" and "now \<le> t" and "t < now + ttl" and "list_all (\<lambda>c. fst c \<le> t) cs"
  shows "\<not> fst (claim (foldl (\<lambda>s (u, j). snd (claim s u j ttl)) (snd (claim s now i ttl)) cs) t i ttl')"
  using held_after [OF claim_holds [OF assms(1-3)] assms(4)] by (simp add: claim_iff)

end

text \<open>An identifier is held when its entry has not expired.\<close>

definition held :: "replay_cache \<Rightarrow> int \<Rightarrow> string \<Rightarrow> bool" where
  "held c now i = (case c i of None \<Rightarrow> False | Some until \<Rightarrow> now < until)"

interpretation replay: single_use Claim held
  by unfold_locales (auto simp: Claim_def Let_def held_def sweepLocked_def split: option.splits if_splits)

subsection \<open>Properties\<close>

text \<open>
  An identifier is used once. After a successful claim, whatever else is claimed in between, a second
  claim of the same identifier before its time to live has passed fails, however often it is tried.
\<close>

theorem claimed_once:
  assumes "fst (Claim c now i ttl)" and "now \<le> t" and "t < now + ttl" and "list_all (\<lambda>x. fst x \<le> t) between"
  shows "\<not> fst (Claim (foldl (\<lambda>s (u, j). snd (Claim s u j ttl)) (snd (Claim c now i ttl)) between) t i ttl)"
  using assms by (rule replay.used_once)

lemma claimed_once_witness:
  "fst (Claim NewReplayCache 5 ''a'' 60) \<and>
   \<not> fst (Claim (foldl (\<lambda>s (u, j). snd (Claim s u j 60)) (snd (Claim NewReplayCache 5 ''a'' 60))
      [(6, ''b''), (7, ''a'')]) 64 ''a'' 60)"
proof -
  have first: "fst (Claim NewReplayCache 5 ''a'' 60)"
    by (simp add: Claim_def NewReplayCache_def sweepLocked_def)
  show ?thesis using claimed_once [OF first, of 64 "[(6, ''b''), (7, ''a'')]"] first by simp
qed

text \<open>
  The cache does not grow without bound and forgets nothing early: after a claim at some time, every
  identifier it remembers is unexpired then, the claimed one among them when its time to live is positive;
  and an identifier remembered before is remembered still exactly when it is unexpired.
\<close>

theorem Claim_keeps_exactly_live:
  assumes "0 < ttl"
  shows "now < the (snd (Claim c now i ttl) i) \<and> dom (snd (Claim c now i ttl)) = insert i {k. held c now k} \<and>
    (\<forall>k. k \<noteq> i \<longrightarrow> snd (Claim c now i ttl) k = (if held c now k then c k else None))"
  using assms
  by (auto simp: Claim_def Let_def held_def sweepLocked_def split: option.splits if_splits)

lemma Claim_keeps_exactly_live_witness:
  "dom (snd (Claim (NewReplayCache(''old'' \<mapsto> 3, ''new'' \<mapsto> 9)) 5 ''a'' 60)) = {''a'', ''new''}"
proof -
  have "{k. held (NewReplayCache(''old'' \<mapsto> 3, ''new'' \<mapsto> 9)) 5 k} = {''new''}"
    by (auto simp: held_def NewReplayCache_def split: if_splits)
  with Claim_keeps_exactly_live [of 60 5 "NewReplayCache(''old'' \<mapsto> 3, ''new'' \<mapsto> 9)" "''a''"]
  show ?thesis by simp
qed

end
