(* ===== verification/Tasks.thy ===== *)
theory Tasks
  imports Write_Tool Config_Write_Tool Replay_Cache
begin

section \<open>Tasks\<close>

text \<open>
  \<^verbatim>\<open>internal/server/tasks.go\<close>: the registry that maps task ids to the jobs behind them and forgets them an
  hour after they were made, the substitution of a task for the result of a tool call that started a job,
  the description of a job as a task, and the three methods. Random ids and the clock are arguments;
  a time is Go's integer nanoseconds and is formatted only on output, so a task holds the time itself.
\<close>

subsection \<open>The registry\<close>

definition second_ns :: int where "second_ns = 1000000000"

definition taskTTL :: int where "taskTTL = 3600 * second_ns"
definition taskPollInterval :: int where "taskPollInterval = 2 * second_ns"

definition milliseconds :: "int \<Rightarrow> int" where "milliseconds d = d div 1000000"

record task_entry =
  te_job_id :: int
  te_tool :: string
  te_method :: string
  te_target :: string
  te_created :: int

type_synonym task_registry = "string \<rightharpoonup> task_entry"

definition newTaskRegistry :: task_registry where
  "newTaskRegistry = Map.empty"

definition prune :: "int \<Rightarrow> task_registry \<Rightarrow> task_registry" where
  "prune now r = (\<lambda>k. case r k of
     None \<Rightarrow> None
   | Some e \<Rightarrow> if te_created e < now - taskTTL then None else Some e)"

definition registry_add :: "task_registry \<Rightarrow> int \<Rightarrow> string \<Rightarrow> task_entry \<Rightarrow> task_registry" where
  "registry_add r now new_id e = (prune now r)(new_id \<mapsto> e\<lparr>te_created := now\<rparr>)"

definition registry_get :: "task_registry \<Rightarrow> int \<Rightarrow> string \<Rightarrow> task_entry option \<times> task_registry" where
  "registry_get r now i = (let r' = prune now r in (r' i, r'))"

interpretation tasks: expiring_map "\<lambda>now e. \<not> te_created e < now - taskTTL" prune
  by unfold_locales (auto simp: prune_def split: option.split)

subsection \<open>Tasks\<close>

record task =
  tk_id :: string
  tk_status :: string
  tk_message :: string
  tk_created :: int
  tk_updated :: int
  tk_ttl_ms :: int
  tk_poll_ms :: int

definition newTask :: "string \<Rightarrow> task_entry \<Rightarrow> int \<Rightarrow> task" where
  "newTask i e now = \<lparr>tk_id = i, tk_status = ''working'', tk_message = [], tk_created = te_created e,
     tk_updated = now, tk_ttl_ms = milliseconds taskTTL, tk_poll_ms = milliseconds taskPollInterval\<rparr>"

record job_completed =
  jc_job_id :: int
  jc_method :: string
  jc_target :: string
  jc_state :: string
  jc_result :: json

definition jobCompletedResult :: "task_entry \<Rightarrow> job \<Rightarrow> job_completed" where
  "jobCompletedResult e j = \<lparr>jc_job_id = jb_id j, jc_method = te_method e, jc_target = te_target e,
     jc_state = jb_state j, jc_result = jb_result j\<rparr>"

record get_task_result =
  gt_task :: task
  gt_result :: "job_completed option"
  gt_error :: "string option"

text \<open>Go's \<^verbatim>\<open>%.0f\<close>: the nearest integer, a half to the even one.\<close>

definition round_even :: "rat \<Rightarrow> int" where
  "round_even r =
     (let n = \<lfloor>r\<rfloor>; d = r - of_int n
      in if d < 1 / 2 then n else if 1 / 2 < d then n + 1 else if even n then n else n + 1)"

definition describeTask :: "string \<Rightarrow> task_entry \<Rightarrow> job \<Rightarrow> int \<Rightarrow> get_task_result" where
  "describeTask i e j now =
     (let t = newTask i e now
      in if jb_state j = ''SUCCESS'' then
           \<lparr>gt_task = t\<lparr>tk_status := ''completed'', tk_poll_ms := 0, tk_message := te_method e @ '' finished''\<rparr>,
            gt_result = Some (jobCompletedResult e j), gt_error = None\<rparr>
         else if jb_state j = ''FAILED'' then
           \<lparr>gt_task = t\<lparr>tk_status := ''failed'', tk_poll_ms := 0, tk_message := jb_error j\<rparr>,
            gt_result = None, gt_error = Some (te_method e @ '' failed on the target: '' @ jb_error j)\<rparr>
         else if jb_state j = ''ABORTED'' then
           \<lparr>gt_task = t\<lparr>tk_status := ''cancelled'', tk_poll_ms := 0,
              tk_message := te_method e @ '' was aborted on the target''\<rparr>,
            gt_result = None, gt_error = None\<rparr>
         else
           \<lparr>gt_task = t\<lparr>tk_status := ''working'',
              tk_message := (if 0 < jb_percent j
                then trim_space (jb_description j @ '' ('' @ show_int (round_even (jb_percent j)) @ ''%)'')
                else jb_description j)\<rparr>,
            gt_result = None, gt_error = None\<rparr>)"

subsection \<open>Recognising a started job\<close>

text \<open>A tool's result: whether it is an error, and its structured content, absent for \<^verbatim>\<open>nil\<close>.\<close>

record call_result =
  cr_error :: bool
  cr_structured :: "json option"

definition jobStarted :: "call_result \<Rightarrow> (int \<times> string \<times> string) option" where
  "jobStarted res =
     (if cr_error res then None
      else case cr_structured res of
        None \<Rightarrow> None
      | Some content \<Rightarrow>
          (case dec_struct (Some content) of
             None \<Rightarrow> None
           | Some kvs \<Rightarrow>
               (case (dec_int64 (jfield ''job_id'' kvs), dec_string (jfield ''method'' kvs),
                      dec_string (jfield ''target'' kvs),
                      Option.bind (dec_struct (member ''result'' kvs)) (\<lambda>rs. dec_int64 (jfield ''job_id'' rs))) of
                  (Some jid, Some m, Some t, Some nested) \<Rightarrow>
                    if 0 < jid then Some (jid, m, t)
                    else if 0 < nested then Some (nested, m, t)
                    else None
                | _ \<Rightarrow> None)))"

text \<open>The JSON of the two write tiers' answers: empty members are left out where the source says so.\<close>

definition job_started_json :: "job_started \<Rightarrow> json" where
  "job_started_json o' = JObj
     ((if js_job_id o' = 0 then [] else [(''job_id'', JInt (js_job_id o'))]) @
      [(''method'', JStr (js_method o')), (''target'', JStr (js_target o'))] @
      opt_str ''resource'' (js_resource o') @
      (if js_result o' = JNull then [] else [(''result'', js_result o')]) @ opt_str ''note'' (js_note o'))"

definition config_write_json :: "config_write_output \<Rightarrow> json" where
  "config_write_json o' = JObj
     ([(''method'', JStr (cwo_method o'))] @
      (if cwo_result o' = JNull then [] else [(''result'', cwo_result o')]) @ opt_str ''note'' (cwo_note o'))"

subsection \<open>The substitution\<close>

text \<open>
  Whether the client opted in: the extensions its capabilities name, absent when the request carries no capabilities.
\<close>

definition clientDeclaresTasks :: "string list option \<Rightarrow> bool" where
  "clientDeclaresTasks caps = (case caps of None \<Rightarrow> False | Some exts \<Rightarrow> ''io.modelcontextprotocol/tasks'' \<in> set exts)"

text \<open>
  The wire form of a task and of the result that replaces a tool's: \<open>rfc3339\<close> formats a time, and the metadata
  is the result's.
\<close>

definition task_members :: "(int \<Rightarrow> string) \<Rightarrow> task \<Rightarrow> (string \<times> json) list" where
  "task_members rfc3339 t =
     [(''taskId'', JStr (tk_id t)), (''status'', JStr (tk_status t))] @ opt_str ''statusMessage'' (tk_message t) @
     [(''createdAt'', JStr (rfc3339 (tk_created t))), (''lastUpdatedAt'', JStr (rfc3339 (tk_updated t))),
      (''ttlMs'', JInt (tk_ttl_ms t))] @
     (if tk_poll_ms t = 0 then [] else [(''pollIntervalMs'', JInt (tk_poll_ms t))])"

definition create_task_json :: "(int \<Rightarrow> string) \<Rightarrow> (string \<times> json) list \<Rightarrow> task \<Rightarrow> json" where
  "create_task_json rfc3339 meta t = JObj
     ((if meta = [] then [] else [(''_meta'', JObj meta)]) @ [(''resultType'', JStr ''task'')] @ task_members rfc3339 t)"

text \<open>A client finds the id to ask for, and no member twice.\<close>

lemma create_task_json_member:
  "\<exists>kvs. create_task_json rfc3339 meta t = JObj kvs \<and> map_of kvs ''taskId'' = Some (JStr (tk_id t)) \<and>
     map_of kvs ''resultType'' = Some (JStr ''task'') \<and> map_of kvs ''status'' = Some (JStr (tk_status t)) \<and>
     distinct (map fst kvs)"
  by (auto simp: create_task_json_def task_members_def opt_str_def)

text \<open>What the next handler of a request returned, and what the middleware makes of it.\<close>

datatype handled = CallResult call_result | OtherResult

datatype substituted =
    Unchanged "go_error + handled"
  | CreateTask task call_result

definition substitute_task ::
  "bool \<Rightarrow> string \<Rightarrow> string \<Rightarrow> go_error + handled \<Rightarrow> int \<Rightarrow> string \<Rightarrow> task_registry \<Rightarrow>
     substituted \<times> task_registry" where
  "substitute_task declares meth tool res now new_id r =
     (case res of
        Inr (CallResult callRes) \<Rightarrow>
          if meth \<noteq> ''tools/call'' \<or> \<not> declares then (Unchanged res, r)
          else (case jobStarted callRes of
            None \<Rightarrow> (Unchanged res, r)
          | Some (jid, jobMethod, target) \<Rightarrow>
              let r1 = registry_add r now new_id \<lparr>te_job_id = jid, te_tool = tool, te_method = jobMethod,
                         te_target = target, te_created = 0\<rparr>
              in (case registry_get r1 now new_id of
                    (Some e, r2) \<Rightarrow>
                      (CreateTask ((newTask new_id e now)\<lparr>tk_message := jobMethod @ '' started job '' @ show_int jid @ '' on the target''\<rparr>) callRes, r2)
                  | (None, r2) \<Rightarrow>
                      (CreateTask ((newTask new_id \<lparr>te_job_id = 0, te_tool = [], te_method = [], te_target = [], te_created = 0\<rparr> now)
                         \<lparr>tk_message := jobMethod @ '' started job '' @ show_int jid @ '' on the target''\<rparr>) callRes, r2)))
      | _ \<Rightarrow> (Unchanged res, r))"

subsection \<open>The three methods\<close>

datatype task_error =
    TaskIdRequired
  | TaskNotFound string
  | TaskExpired string int
  | TaskCallFailed go_error

definition lookupTask :: "task_registry \<Rightarrow> int \<Rightarrow> string \<Rightarrow> (task_error + task_entry) \<times> task_registry" where
  "lookupTask r now i =
     (if trim_space i = [] then (Inl TaskIdRequired, r)
      else case registry_get r now i of
        (None, r') \<Rightarrow> (Inl (TaskNotFound i), r')
      | (Some e, r') \<Rightarrow> (Inr e, r'))"

definition tasks_get ::
  "middleware \<Rightarrow> go_error option \<Rightarrow> int \<Rightarrow> string \<Rightarrow> task_registry \<Rightarrow> trace \<Rightarrow>
     (task_error + get_task_result) \<times> task_registry \<times> trace" where
  "tasks_get mw sess now i r tr =
     (case lookupTask r now i of
        (Inl e, r') \<Rightarrow> (Inl e, r', tr)
      | (Inr e, r') \<Rightarrow>
          (case sess of
             Some er \<Rightarrow> (Inl (TaskCallFailed er), r', tr)
           | None \<Rightarrow>
               (case Job mw (te_job_id e) tr of
                  (Inl er, tr') \<Rightarrow>
                    (Inl (if err_is ErrJobNotFound er then TaskExpired i (te_job_id e) else TaskCallFailed er), r', tr')
                | (Inr j, tr') \<Rightarrow> (Inr (describeTask i e j now), r', tr'))))"

definition tasks_update :: "int \<Rightarrow> string \<Rightarrow> task_registry \<Rightarrow> (task_error + unit) \<times> task_registry" where
  "tasks_update now i r =
     (case lookupTask r now i of (Inl e, r') \<Rightarrow> (Inl e, r') | (Inr e, r') \<Rightarrow> (Inr (), r'))"

definition tasks_cancel ::
  "middleware \<Rightarrow> go_error option \<Rightarrow> int \<Rightarrow> string \<Rightarrow> task_registry \<Rightarrow> trace \<Rightarrow>
     (task_error + unit) \<times> task_registry \<times> trace" where
  "tasks_cancel mw sess now i r tr =
     (case lookupTask r now i of
        (Inl e, r') \<Rightarrow> (Inl e, r', tr)
      | (Inr e, r') \<Rightarrow>
          (case sess of
             Some er \<Rightarrow> (Inl (TaskCallFailed er), r', tr)
           | None \<Rightarrow>
               (case mw_call mw ''core.job_abort'' [JInt (te_job_id e)] tr of
                  (Inl er, tr') \<Rightarrow>
                    (if err_as_call er = None then Inl (TaskCallFailed er) else Inr (), r', tr')
                | (Inr raw, tr') \<Rightarrow> (Inr (), r', tr'))))"

subsection \<open>Lemmas\<close>

lemma CallJob_int64: "fst (CallJob mw meth params tr) = Inr jid \<Longrightarrow> in_int64 jid"
proof -
  have dec: "in_int64 i" if "dec_int64 j = Some i" for j i
    using that by (cases j rule: dec_int64.cases) (auto simp: in_int64_def split: if_splits)
  have each: "in_int64 i" if "dec_each (\<lambda>x. dec_int64 (Some x)) xs = Some (i # is)" for xs i "is"
    using that by (cases xs) (auto dest: dec split: option.splits)
  assume "fst (CallJob mw meth params tr) = Inr jid"
  then show ?thesis
    by (auto simp: CallJob_def unmarshal_def dest: dec each
        split: sum.splits option.splits list.splits)
qed

lemma write_tool_answer:
  assumes "w \<in> set AppWrites" and "fst (write_tool w mw sess inp tr) = Answered out"
  shows "js_method out = wo_method w \<and> js_target out = input_target inp \<and> js_result out = JNull \<and>
    in_int64 (js_job_id out)"
proof -
  have w: "w \<in> set WriteOps" using assms(1) by (simp add: WriteOps_def)
  have app: "\<not> wo_synchronous w" using assms(1) AppWrites_target by (auto simp: list_all_iff)
  from assms(2) have t: "input_target inp \<noteq> []" and sess: "sess = None"
    by (auto simp: write_tool_def Let_def write_method_permitted [OF w] split: if_splits option.splits)
  obtain tr' where r: "resolveTarget mw w (input_target inp) tr = (None, tr')"
    using assms(2) unfolding sess write_tool_permitted [OF w t]
    by (cases "resolveTarget mw w (input_target inp) tr") (auto split: option.splits)
  obtain res tr'' where c: "CallJob mw (wo_method w) (input_params inp (input_target inp)) tr' = (res, tr'')"
    by fastforce
  with assms(2) obtain jid where jid: "res = Inr jid" and out: "out = \<lparr>js_job_id = jid, js_method = wo_method w,
      js_target = input_target inp, js_resource = ''truenas://job/'' @ show_int jid, js_result = JNull,
      js_note = started_note\<rparr>"
    unfolding sess write_tool_permitted [OF w t] by (auto simp: app r split: sum.splits)
  have "in_int64 jid" using CallJob_int64 c jid by (metis fst_conv)
  then show ?thesis by (simp add: out)
qed

text \<open>A job started by a write tool is recognised in the tool's result.\<close>

lemma jobStarted_write:
  assumes "js_result out = JNull" and "in_int64 (js_job_id out)"
  shows "jobStarted \<lparr>cr_error = False, cr_structured = Some (job_started_json out)\<rparr> =
    (if 0 < js_job_id out then Some (js_job_id out, js_method out, js_target out) else None)"
  using assms
  by (auto simp: jobStarted_def job_started_json_def jfield_def lower_char_def opt_str_def member_def)

lemma jobStarted_config:
  assumes "in_int64 jid"
  shows "jobStarted \<lparr>cr_error = False, cr_structured = Some (config_write_json
      \<lparr>cwo_method = m, cwo_result = JObj [(''job_id'', JInt jid)], cwo_note = n\<rparr>)\<rparr> =
    (if 0 < jid then Some (jid, m, []) else None)"
  using assms
  by (auto simp: jobStarted_def config_write_json_def jfield_def lower_char_def opt_str_def member_def)

lemma registry_get_add:
  assumes "now \<le> t"
  shows "fst (registry_get (registry_add r now i e) t k) =
    (if k = i then (if t \<le> now + taskTTL then Some (e\<lparr>te_created := now\<rparr>) else None)
     else fst (registry_get r t k))"
proof (cases "k = i")
  case True
  then show ?thesis by (simp add: registry_get_def registry_add_def Let_def prune_def)
next
  case False
  have "prune t ((prune now r)(i \<mapsto> e\<lparr>te_created := now\<rparr>)) k = prune t (prune now r) k"
    using False by (simp add: prune_def)
  with tasks.purge_absorb [OF assms] False show ?thesis
    by (simp add: registry_get_def registry_add_def Let_def)
qed

lemma registry_get_absorb: "now \<le> t \<Longrightarrow> fst (registry_get (snd (registry_get r now i)) t k) = fst (registry_get r t k)"
  using tasks.purge_absorb [of now t] by (simp add: registry_get_def Let_def)

lemma taskTTL_pos: "0 \<le> taskTTL"
  by (simp add: taskTTL_def second_ns_def)

lemma substitute_started:
  assumes "jobStarted res = Some (jid, m, target)"
  shows "\<exists>t r'. substitute_task True ''tools/call'' tool (Inr (CallResult res)) now i r = (CreateTask t res, r') \<and>
    tk_id t = i \<and> tk_created t = now \<and> tk_status t = ''working'' \<and>
    (\<forall>u k. now \<le> u \<longrightarrow> fst (registry_get r' u k) =
      (if k = i then (if u \<le> now + taskTTL then Some \<lparr>te_job_id = jid, te_tool = tool, te_method = m,
          te_target = target, te_created = now\<rparr> else None)
       else fst (registry_get r u k)))"
proof -
  let ?e = "\<lparr>te_job_id = jid, te_tool = tool, te_method = m, te_target = target, te_created = 0\<rparr>"
  let ?r1 = "registry_add r now i ?e"
  obtain found r' where g: "registry_get ?r1 now i = (found, r')" by fastforce
  with registry_get_add [of now now r i ?e i] taskTTL_pos
  have found: "found = Some (?e\<lparr>te_created := now\<rparr>)" by simp
  have "fst (registry_get r' u k) = fst (registry_get ?r1 u k)" if "now \<le> u" for u k
    using registry_get_absorb [OF that, of ?r1 i k] g by simp
  with g found show ?thesis
    by (simp add: substitute_task_def assms Let_def newTask_def registry_get_add)
qed

lemma lookupTask_cases:
  "lookupTask r now i =
     (if trim_space i = [] then (Inl TaskIdRequired, r)
      else (case fst (registry_get r now i) of None \<Rightarrow> Inl (TaskNotFound i) | Some e \<Rightarrow> Inr e,
            snd (registry_get r now i)))"
  by (simp add: lookupTask_def split: prod.split option.split)

definition job_query :: "int \<Rightarrow> mcall" where
  "job_query jid = \<lparr>mc_method = ''core.get_jobs'', mc_params = [JArr [JArr [JStr ''id'', JStr ''='', JInt jid]]]\<rparr>"

lemma tasks_get_calls:
  "snd (snd (tasks_get mw sess now i r tr)) = tr @
     (if sess = None \<and> trim_space i \<noteq> []
      then (case fst (registry_get r now i) of None \<Rightarrow> [] | Some e \<Rightarrow> [job_query (te_job_id e)]) else [])"
proof -
  have "snd (snd (case Job mw jid tr of (Inl er, tr') \<Rightarrow> (Inl (f er), r', tr') | (Inr j, tr') \<Rightarrow> (Inr (g j), r', tr'))) =
      tr @ [job_query jid]" for jid and r' :: task_registry and f :: "go_error \<Rightarrow> task_error" and g :: "job \<Rightarrow> get_task_result"
    using Job_trace [of mw jid tr] by (cases "Job mw jid tr") (simp add: job_query_def split: sum.split)
  then show ?thesis
    by (simp add: tasks_get_def lookupTask_cases split: option.split)
qed

lemma tasks_cancel_calls:
  "snd (snd (tasks_cancel mw sess now i r tr)) = tr @
     (if sess = None \<and> trim_space i \<noteq> []
      then (case fst (registry_get r now i) of
              None \<Rightarrow> [] | Some e \<Rightarrow> [\<lparr>mc_method = ''core.job_abort'', mc_params = [JInt (te_job_id e)]\<rparr>]) else [])"
  by (simp add: tasks_cancel_def lookupTask_cases split: option.split sum.split)

subsection \<open>Properties\<close>

text \<open>
  C36. A task follows the job its tool call started. When an app write answers with a job, a client that
  declares the extension gets a task instead, in the working state, and for an hour asking for that task
  asks the target for that very job, in a session that is up; after the hour the task is unknown and
  nothing is asked. No other task is affected.
\<close>

theorem write_task_tracks_job:
  assumes "w \<in> set AppWrites" and "fst (write_tool w mw sess inp tr) = Answered out" and "0 < js_job_id out"
    and "now \<le> later" and "trim_space new_id \<noteq> []"
  shows "\<exists>t r'. substitute_task True ''tools/call'' tool
      (Inr (CallResult \<lparr>cr_error = False, cr_structured = Some (job_started_json out)\<rparr>)) now new_id r =
      (CreateTask t \<lparr>cr_error = False, cr_structured = Some (job_started_json out)\<rparr>, r') \<and>
    tk_id t = new_id \<and> tk_status t = ''working'' \<and>
    snd (snd (tasks_get mw' None later new_id r' tr')) =
      tr' @ (if later \<le> now + taskTTL then [job_query (js_job_id out)] else []) \<and>
    (\<forall>k. k \<noteq> new_id \<longrightarrow> fst (registry_get r' later k) = fst (registry_get r later k))"
proof -
  note ans = write_tool_answer [OF assms(1,2)]
  have "jobStarted \<lparr>cr_error = False, cr_structured = Some (job_started_json out)\<rparr> =
      Some (js_job_id out, js_method out, js_target out)"
    using ans assms(3) by (simp add: jobStarted_write)
  from substitute_started [OF this, of tool now new_id r] obtain t r' where
    sub: "substitute_task True ''tools/call'' tool
      (Inr (CallResult \<lparr>cr_error = False, cr_structured = Some (job_started_json out)\<rparr>)) now new_id r =
      (CreateTask t \<lparr>cr_error = False, cr_structured = Some (job_started_json out)\<rparr>, r')"
    and t: "tk_id t = new_id" "tk_status t = ''working''"
    and get: "\<And>k. fst (registry_get r' later k) =
      (if k = new_id then (if later \<le> now + taskTTL then Some \<lparr>te_job_id = js_job_id out, te_tool = tool,
          te_method = js_method out, te_target = js_target out, te_created = now\<rparr> else None)
       else fst (registry_get r later k))"
    using assms(4) by blast
  have "snd (snd (tasks_get mw' None later new_id r' tr')) =
      tr' @ (if later \<le> now + taskTTL then [job_query (js_job_id out)] else [])"
    using assms(5) get [of new_id] by (simp add: tasks_get_calls)
  with sub t get show ?thesis by auto
qed

definition upgrade_middleware :: middleware where
  "upgrade_middleware tr c =
     (if mc_method c = ''app.query'' then Inr (Some (JArr [JObj []])) else Inr (Some (JInt 42)))"

definition app_start_op :: write_op where
  "app_start_op = write_zero\<lparr>wo_name := ''app_start'', wo_title := ''Start an app'',
     wo_description := ''Start a stopped app.'', wo_method := ''app.start'', wo_idempotent := True,
     wo_target_arg := ''app_name''\<rparr>"

lemma write_task_tracks_job_witness:
  "\<exists>t r'. substitute_task True ''tools/call'' ''app_start''
      (Inr (CallResult \<lparr>cr_error = False, cr_structured = Some (job_started_json
        \<lparr>js_job_id = 42, js_method = ''app.start'', js_target = ''plex'', js_resource = ''truenas://job/'' @ show_int 42,
         js_result = JNull, js_note = started_note\<rparr>)\<rparr>)) 0 ''t1'' (\<lambda>_. None) =
      (CreateTask t \<lparr>cr_error = False, cr_structured = Some (job_started_json
        \<lparr>js_job_id = 42, js_method = ''app.start'', js_target = ''plex'', js_resource = ''truenas://job/'' @ show_int 42,
         js_result = JNull, js_note = started_note\<rparr>)\<rparr>, r') \<and>
    snd (snd (tasks_get upgrade_middleware None 5 ''t1'' r' [])) = [job_query 42]"
proof -
  let ?out = "\<lparr>js_job_id = 42, js_method = ''app.start'', js_target = ''plex'', js_resource = ''truenas://job/'' @ show_int 42,
         js_result = JNull, js_note = started_note\<rparr>"
  let ?inp = "WriteTargetOnlyInput ''plex''"
  have w: "app_start_op \<in> set AppWrites" by (simp add: app_start_op_def AppWrites_def)
  have w': "app_start_op \<in> set WriteOps" using w by (simp add: WriteOps_def)
  have t: "input_target ?inp \<noteq> []" by simp
  have "fst (write_tool app_start_op upgrade_middleware None ?inp []) = Answered ?out"
    unfolding write_tool_permitted [OF w' t]
    by (simp add: resolveTarget_def upgrade_middleware_def app_start_op_def write_zero_def CallJob_def in_int64_def
        target_query_def)
  moreover have "trim_space ''t1'' \<noteq> []"
    by (simp add: trim_space_def trim_by.simps space_bytes_def)
  ultimately show ?thesis
    using write_task_tracks_job [OF w, of upgrade_middleware None ?inp "[]" ?out 0 5 "''t1''" "''app_start''" "\<lambda>_. None"
        upgrade_middleware "[]"]
    by (auto simp: taskTTL_def second_ns_def)
qed

text \<open>
  A task id reaches only the job it was made for: getting or cancelling a task makes exactly one call,
  about the job the registry holds for that id at that time, and no call without a session, for an empty
  id, or for an id that is unknown or expired.
\<close>

theorem task_methods_reach_own_job:
  "snd (snd (tasks_get mw sess now i r tr)) = tr @
     (if sess = None \<and> trim_space i \<noteq> []
      then (case r i of None \<Rightarrow> [] | Some e \<Rightarrow>
              if te_created e < now - taskTTL then [] else [job_query (te_job_id e)]) else []) \<and>
   snd (snd (tasks_cancel mw sess now i r tr)) = tr @
     (if sess = None \<and> trim_space i \<noteq> []
      then (case r i of None \<Rightarrow> [] | Some e \<Rightarrow>
              if te_created e < now - taskTTL then []
              else [\<lparr>mc_method = ''core.job_abort'', mc_params = [JInt (te_job_id e)]\<rparr>]) else [])"
  unfolding tasks_get_calls tasks_cancel_calls
  by (simp add: registry_get_def prune_def Let_def split: option.split)

text \<open>
  The life of a task mirrors that of its job: it is terminal exactly when the job is done, and then
  asks for no more polling; it failed or was cancelled exactly when the job did; a result is there exactly
  for a successful job and is that job's, an error exactly for a failed one.
\<close>

theorem describeTask_lifecycle:
  "let g = describeTask i e j now in
     tk_id (gt_task g) = i \<and> tk_created (gt_task g) = te_created e \<and>
     (tk_status (gt_task g) = ''working'' \<longleftrightarrow> \<not> Done j) \<and> (tk_poll_ms (gt_task g) = 0 \<longleftrightarrow> Done j) \<and>
     (tk_status (gt_task g) \<in> {''failed'', ''cancelled''} \<longleftrightarrow> Failed j) \<and>
     (gt_result g = (if tk_status (gt_task g) = ''completed'' then Some (jobCompletedResult e j) else None)) \<and>
     (tk_status (gt_task g) = ''completed'' \<longleftrightarrow> Done j \<and> \<not> Failed j) \<and>
     (gt_error g \<noteq> None \<longleftrightarrow> tk_status (gt_task g) = ''failed'')"
  by (simp add: describeTask_def newTask_def Let_def Done_def Failed_def milliseconds_def taskPollInterval_def
      second_ns_def)

end
