(* ===== verification/Inventory.thy ===== *)
theory Inventory
  imports Middleware
begin

section \<open>The inventory tool\<close>

text \<open>
  \<^verbatim>\<open>internal/server/inventory.go\<close>: the nine sections of the summary, each fetched and decoded on its own, and
  the assembly of what came back. The section calls run concurrently on one connection; the order in
  which they reach the target is a parameter, and their answers are stored by section. Formatting an
  instant as RFC 3339 is left to the time library: instants stay milliseconds. The text of a JSON decoding error
  is the library's and left out of the messages.
\<close>

subsection \<open>The answer\<close>

definition datasetLimit :: nat where
  "datasetLimit = 200"

record inventory_host =
  ih_hostname :: string
  ih_version :: string
  ih_uptime :: string

record inventory_pool =
  ip_name :: string
  ip_status :: string
  ip_healthy :: bool
  ip_size :: int
  ip_allocated :: int
  ip_free :: int

record inventory_dataset =
  id_name :: string
  id_pool :: string
  id_type :: string
  id_used :: int
  id_available :: int

record inventory_app =
  ia_name :: string
  ia_state :: string
  ia_version :: string
  ia_upgrade_available :: bool
  ia_image_updates_available :: bool

record inventory_vm =
  iv_name :: string
  iv_state :: string
  iv_vcpus :: int
  iv_memory_mib :: int

record inventory_container =
  ic_name :: string
  ic_state :: string

datatype share_kind = Smb | Nfs

record inventory_share =
  is_kind :: share_kind
  is_name :: string
  is_path :: string
  is_enabled :: bool

record inventory_alert =
  il_level :: string
  il_message :: string
  il_since :: "int option"

record inventory =
  io_host :: inventory_host
  io_pools :: "inventory_pool list"
  io_datasets :: "inventory_dataset list"
  io_apps :: "inventory_app list"
  io_vms :: "inventory_vm list"
  io_containers :: "inventory_container list"
  io_shares :: "inventory_share list"
  io_alerts :: "inventory_alert list"
  io_datasets_truncated :: bool
  io_errors :: "string gomap"
  io_generated_at :: int

subsection \<open>Decoding the sections\<close>

text \<open>A struct member of struct type: absent or \<^verbatim>\<open>null\<close> leaves it zero.\<close>

fun dec_substruct :: "json option \<Rightarrow> (string \<times> json) list option" where
  "dec_substruct None = Some []"
| "dec_substruct (Some j) = dec_struct (Some j)"

definition dec_host :: "json option \<Rightarrow> inventory_host option" where
  "dec_host j =
     (case dec_struct j of
        None \<Rightarrow> None
      | Some kvs \<Rightarrow>
          (case (dec_string (jfield ''version'' kvs), dec_string (jfield ''hostname'' kvs), dec_string (jfield ''uptime'' kvs)) of
             (Some v, Some h, Some u) \<Rightarrow> Some \<lparr>ih_hostname = h, ih_version = v, ih_uptime = u\<rparr>
           | _ \<Rightarrow> None))"

definition dec_pool :: "json \<Rightarrow> inventory_pool option" where
  "dec_pool j =
     (case dec_struct (Some j) of
        None \<Rightarrow> None
      | Some kvs \<Rightarrow>
          (case (dec_string (jfield ''name'' kvs), dec_string (jfield ''status'' kvs), dec_bool (jfield ''healthy'' kvs),
                 dec_int64 (jfield ''size'' kvs), dec_int64 (jfield ''allocated'' kvs), dec_int64 (jfield ''free'' kvs)) of
             (Some n, Some s, Some h, Some sz, Some al, Some fr) \<Rightarrow>
               Some \<lparr>ip_name = n, ip_status = s, ip_healthy = h, ip_size = sz, ip_allocated = al, ip_free = fr\<rparr>
           | _ \<Rightarrow> None))"

text \<open>\<^verbatim>\<open>parsedValue\<close>, the middleware's property object, of which the byte count matters.\<close>

definition dec_parsed :: "json option \<Rightarrow> int option" where
  "dec_parsed j = (case dec_substruct j of None \<Rightarrow> None | Some kvs \<Rightarrow> dec_int64 (jfield ''parsed'' kvs))"

definition dec_dataset :: "json \<Rightarrow> inventory_dataset option" where
  "dec_dataset j =
     (case dec_struct (Some j) of
        None \<Rightarrow> None
      | Some kvs \<Rightarrow>
          (case (dec_string (jfield ''name'' kvs), dec_string (jfield ''pool'' kvs), dec_string (jfield ''type'' kvs),
                 dec_parsed (jfield ''used'' kvs), dec_parsed (jfield ''available'' kvs)) of
             (Some n, Some p, Some t, Some u, Some a) \<Rightarrow>
               Some \<lparr>id_name = n, id_pool = p, id_type = t, id_used = u, id_available = a\<rparr>
           | _ \<Rightarrow> None))"

definition dec_app :: "json \<Rightarrow> inventory_app option" where
  "dec_app j =
     (case dec_struct (Some j) of
        None \<Rightarrow> None
      | Some kvs \<Rightarrow>
          (case (dec_string (jfield ''name'' kvs), dec_string (jfield ''state'' kvs), dec_string (jfield ''version'' kvs),
                 dec_bool (jfield ''upgrade_available'' kvs), dec_bool (jfield ''image_updates_available'' kvs)) of
             (Some n, Some s, Some v, Some u, Some i) \<Rightarrow>
               Some \<lparr>ia_name = n, ia_state = s, ia_version = v, ia_upgrade_available = u, ia_image_updates_available = i\<rparr>
           | _ \<Rightarrow> None))"

text \<open>Multiplication of two \<^verbatim>\<open>int64\<close> values, which wraps.\<close>

definition mul_int64 :: "int \<Rightarrow> int \<Rightarrow> int" where
  "mul_int64 a b = (a * b + 2 ^ 63) mod 2 ^ 64 - 2 ^ 63"

definition dec_vm :: "json \<Rightarrow> inventory_vm option" where
  "dec_vm j =
     (case dec_struct (Some j) of
        None \<Rightarrow> None
      | Some kvs \<Rightarrow>
          (case (dec_string (jfield ''name'' kvs), dec_int64 (jfield ''vcpus'' kvs), dec_int64 (jfield ''cores'' kvs),
                 dec_int64 (jfield ''memory'' kvs), dec_substruct (jfield ''status'' kvs)) of
             (Some n, Some vcpus, Some cores, Some m, Some st) \<Rightarrow>
               (case dec_string (jfield ''state'' st) of
                  None \<Rightarrow> None
                | Some s \<Rightarrow> Some \<lparr>iv_name = n, iv_state = s,
                    iv_vcpus = (if cores > 0 then mul_int64 vcpus cores else vcpus), iv_memory_mib = m\<rparr>)
           | _ \<Rightarrow> None))"

text \<open>A container's status is a bare string or an object with a state, depending on the release.\<close>

definition stateOf :: "raw \<Rightarrow> string" where
  "stateOf r =
     (case unmarshal dec_string r of
        Some s \<Rightarrow> s
      | None \<Rightarrow>
          (case unmarshal dec_struct r of
             None \<Rightarrow> []
           | Some kvs \<Rightarrow> (case dec_string (jfield ''state'' kvs) of None \<Rightarrow> [] | Some s \<Rightarrow> s)))"

definition dec_container :: "json \<Rightarrow> inventory_container option" where
  "dec_container j =
     (case dec_struct (Some j) of
        None \<Rightarrow> None
      | Some kvs \<Rightarrow>
          map_option (\<lambda>n. \<lparr>ic_name = n, ic_state = stateOf (jfield ''status'' kvs)\<rparr>) (dec_string (jfield ''name'' kvs)))"

text \<open>SMB shares are named by their name, NFS exports by their comment.\<close>

definition dec_share :: "share_kind \<Rightarrow> json \<Rightarrow> inventory_share option" where
  "dec_share kind j =
     (case dec_struct (Some j) of
        None \<Rightarrow> None
      | Some kvs \<Rightarrow>
          (case (dec_string (jfield (case kind of Smb \<Rightarrow> ''name'' | Nfs \<Rightarrow> ''comment'') kvs),
                 dec_string (jfield ''path'' kvs), dec_bool (jfield ''enabled'' kvs)) of
             (Some n, Some p, Some e) \<Rightarrow> Some \<lparr>is_kind = kind, is_name = n, is_path = p, is_enabled = e\<rparr>
           | _ \<Rightarrow> None))"

definition dec_alert :: "json \<Rightarrow> inventory_alert option" where
  "dec_alert j =
     (case dec_struct (Some j) of
        None \<Rightarrow> None
      | Some kvs \<Rightarrow>
          (case (dec_string (jfield ''level'' kvs), dec_string (jfield ''formatted'' kvs), dec_substruct (jfield ''datetime'' kvs)) of
             (Some l, Some m, Some dt) \<Rightarrow>
               (case dec_int64 (jfield ''$date'' dt) of
                  None \<Rightarrow> None
                | Some d \<Rightarrow> Some \<lparr>il_level = l, il_message = m, il_since = (if d > 0 then Some d else None)\<rparr>)
           | _ \<Rightarrow> None))"

definition dec_list :: "(json \<Rightarrow> 'a option) \<Rightarrow> raw \<Rightarrow> 'a list option" where
  "dec_list dec r = (case unmarshal dec_slice r of None \<Rightarrow> None | Some xs \<Rightarrow> dec_each dec xs)"

subsection \<open>The sections\<close>

record inventory_section =
  sec_name :: string
  sec_method :: string
  sec_params :: "json list"
  sec_apply :: "inventory \<Rightarrow> raw \<Rightarrow> inventory option"

definition apply_host :: "inventory \<Rightarrow> raw \<Rightarrow> inventory option" where
  "apply_host out r = map_option (\<lambda>h. out\<lparr>io_host := h\<rparr>) (unmarshal dec_host r)"

definition apply_pools :: "inventory \<Rightarrow> raw \<Rightarrow> inventory option" where
  "apply_pools out r = map_option (\<lambda>xs. out\<lparr>io_pools := xs\<rparr>) (dec_list dec_pool r)"

definition apply_datasets :: "inventory \<Rightarrow> raw \<Rightarrow> inventory option" where
  "apply_datasets out r =
     map_option (\<lambda>xs.
       let ys = sort_key id_name xs
       in if length ys > datasetLimit
          then out\<lparr>io_datasets := take datasetLimit ys, io_datasets_truncated := True\<rparr>
          else out\<lparr>io_datasets := ys\<rparr>) (dec_list dec_dataset r)"

definition apply_apps :: "inventory \<Rightarrow> raw \<Rightarrow> inventory option" where
  "apply_apps out r = map_option (\<lambda>xs. out\<lparr>io_apps := xs\<rparr>) (dec_list dec_app r)"

definition apply_vms :: "inventory \<Rightarrow> raw \<Rightarrow> inventory option" where
  "apply_vms out r = map_option (\<lambda>xs. out\<lparr>io_vms := xs\<rparr>) (dec_list dec_vm r)"

definition apply_containers :: "inventory \<Rightarrow> raw \<Rightarrow> inventory option" where
  "apply_containers out r = map_option (\<lambda>xs. out\<lparr>io_containers := xs\<rparr>) (dec_list dec_container r)"

definition apply_shares :: "share_kind \<Rightarrow> inventory \<Rightarrow> raw \<Rightarrow> inventory option" where
  "apply_shares kind out r = map_option (\<lambda>xs. out\<lparr>io_shares := io_shares out @ xs\<rparr>) (dec_list (dec_share kind) r)"

definition apply_alerts :: "inventory \<Rightarrow> raw \<Rightarrow> inventory option" where
  "apply_alerts out r = map_option (\<lambda>xs. out\<lparr>io_alerts := xs\<rparr>) (dec_list dec_alert r)"

text \<open>Datasets are asked for flat and with two properties only.\<close>

definition dataset_params :: "json list" where
  "dataset_params =
     [JArr [], JObj [(''extra'', JObj [(''flat'', JBool True), (''properties'', JArr [JStr ''used'', JStr ''available''])])]]"

definition section_of :: "string \<Rightarrow> string \<Rightarrow> json list \<Rightarrow> (inventory \<Rightarrow> raw \<Rightarrow> inventory option) \<Rightarrow> inventory_section" where
  "section_of n m ps f = \<lparr>sec_name = n, sec_method = m, sec_params = ps, sec_apply = f\<rparr>"

definition inventorySections :: "inventory_section list" where
  "inventorySections =
     [section_of ''host'' ''system.info'' [] apply_host,
      section_of ''pools'' ''pool.query'' [] apply_pools,
      section_of ''datasets'' ''pool.dataset.query'' dataset_params apply_datasets,
      section_of ''apps'' ''app.query'' [] apply_apps,
      section_of ''vms'' ''vm.query'' [] apply_vms,
      section_of ''containers'' ''container.query'' [] apply_containers,
      section_of ''smb'' ''sharing.smb.query'' [] (apply_shares Smb),
      section_of ''nfs'' ''sharing.nfs.query'' [] (apply_shares Nfs),
      section_of ''alerts'' ''alert.list'' [] apply_alerts]"

subsection \<open>Collecting\<close>

definition describeSectionError :: "go_error \<Rightarrow> string" where
  "describeSectionError e =
     (if err_is ErrUnauthorized e then ''this API key is not permitted to read it''
      else if err_is ErrUnauthenticated e then ''the session is no longer authenticated''
      else err_text e)"

text \<open>The key a failure is reported under: the two share protocols share one.\<close>

definition error_key :: "string \<Rightarrow> string" where
  "error_key n = (if n = ''smb'' \<or> n = ''nfs'' then ''shares'' else n)"

definition record_failure :: "string \<Rightarrow> string \<Rightarrow> string gomap \<Rightarrow> string gomap" where
  "record_failure n msg errs =
     (let msg' = (if error_key n = n then msg else n @ '': '' @ msg)
      in map_put (error_key n)
           (case map_of errs (error_key n) of None \<Rightarrow> msg' | Some prev \<Rightarrow> prev @ ''; '' @ msg') errs)"

text \<open>One section assembled, with the count of those that failed.\<close>

definition assemble_section :: "inventory_section \<Rightarrow> go_error + raw \<Rightarrow> inventory \<times> nat \<Rightarrow> inventory \<times> nat" where
  "assemble_section s r st =
     (case st of (out, nfailed) \<Rightarrow>
        (case r of
           Inl e \<Rightarrow> (out\<lparr>io_errors := record_failure (sec_name s) (describeSectionError e) (io_errors out)\<rparr>, Suc nfailed)
         | Inr raw \<Rightarrow>
             (case sec_apply s out raw of
                Some out' \<Rightarrow> (out', nfailed)
              | None \<Rightarrow> (out\<lparr>io_errors := record_failure (sec_name s) (''decoding '' @ sec_method s) (io_errors out)\<rparr>,
                         Suc nfailed))))"

fun assemble :: "(inventory_section \<times> (go_error + raw)) list \<Rightarrow> inventory \<times> nat \<Rightarrow> inventory \<times> nat" where
  "assemble [] st = st"
| "assemble ((s, r) # rest) st = assemble rest (assemble_section s r st)"

definition firstError :: "string gomap \<Rightarrow> string" where
  "firstError errs =
     (case sort (keys_of errs) of
        [] \<Rightarrow> ''unknown''
      | k # ks \<Rightarrow> k @ '': '' @ (case map_of errs k of None \<Rightarrow> [] | Some m \<Rightarrow> m))"

definition empty_inventory :: "int \<Rightarrow> inventory" where
  "empty_inventory now =
     \<lparr>io_host = \<lparr>ih_hostname = [], ih_version = [], ih_uptime = []\<rparr>, io_pools = [], io_datasets = [], io_apps = [],
      io_vms = [], io_containers = [], io_shares = [], io_alerts = [], io_datasets_truncated = False,
      io_errors = [], io_generated_at = now\<rparr>"

text \<open>
  The concurrent calls in the order they reach the target, their answers stored by section. A schedule is a
  list of section numbers; a number beyond the sections names no goroutine.
\<close>

fun fetch :: "middleware \<Rightarrow> nat list \<Rightarrow> (nat \<Rightarrow> go_error + raw) \<Rightarrow> trace \<Rightarrow> (nat \<Rightarrow> go_error + raw) \<times> trace" where
  "fetch mw [] res tr = (res, tr)"
| "fetch mw (i # is) res tr =
     (if i < length inventorySections
      then (case mw_call mw (sec_method (inventorySections ! i)) (sec_params (inventorySections ! i)) tr of
              (r, tr') \<Rightarrow> fetch mw is (res(i := r)) tr')
      else fetch mw is res tr)"

text \<open>Each section beside its answer.\<close>

definition answers :: "(nat \<Rightarrow> go_error + raw) \<Rightarrow> (inventory_section \<times> (go_error + raw)) list" where
  "answers res = zip inventorySections (map res [0..<length inventorySections])"

definition collectInventory ::
    "middleware \<Rightarrow> nat list \<Rightarrow> int \<Rightarrow> trace \<Rightarrow> (go_error + inventory) \<times> trace" where
  "collectInventory mw order now tr =
     (case fetch mw order (\<lambda>_. Inr None) tr of (res, tr') \<Rightarrow>
        (case assemble (answers res) (empty_inventory now, 0) of
           (out, nfailed) \<Rightarrow>
             (if nfailed = length inventorySections
              then Inl (Wrapped (''no inventory section could be read; first failure: '' @ firstError (io_errors out)) [])
              else Inr out, tr')))"

subsection \<open>Each section stands on its own\<close>

text \<open>What a section's result gives: nothing when the call failed or its answer does not decode.\<close>

definition got :: "(raw \<Rightarrow> 'a option) \<Rightarrow> go_error + raw \<Rightarrow> 'a option" where
  "got f r = (case r of Inl e \<Rightarrow> None | Inr raw \<Rightarrow> f raw)"

definition or_nil :: "'a list option \<Rightarrow> 'a list" where
  "or_nil x = (case x of None \<Rightarrow> [] | Some xs \<Rightarrow> xs)"

definition section_failed :: "inventory_section \<Rightarrow> go_error + raw \<Rightarrow> bool" where
  "section_failed s r \<longleftrightarrow> got (sec_apply s (empty_inventory 0)) r = None"

definition failure_text :: "inventory_section \<Rightarrow> go_error + raw \<Rightarrow> string" where
  "failure_text s r = (case r of Inl e \<Rightarrow> describeSectionError e | Inr raw \<Rightarrow> ''decoding '' @ sec_method s)"

lemmas apply_defs = apply_host_def apply_pools_def apply_datasets_def apply_apps_def apply_vms_def
  apply_containers_def apply_shares_def apply_alerts_def

text \<open>Whether a section decodes does not depend on what is assembled already.\<close>

lemma section_failure_stable:
  assumes "s \<in> set inventorySections"
  shows "sec_apply s out raw = None \<longleftrightarrow> sec_apply s out' raw = None"
  using assms by (auto simp: inventorySections_def section_of_def apply_defs)

lemma apply_keeps_errors:
  assumes "s \<in> set inventorySections" and "sec_apply s out raw = Some out'"
  shows "io_errors out' = io_errors out"
  using assms by (auto simp: inventorySections_def section_of_def apply_defs Let_def split: if_splits)

lemma assemble_section_cases:
  assumes "s \<in> set inventorySections"
  shows "assemble_section s r (out, k) =
    (if section_failed s r
     then (out\<lparr>io_errors := record_failure (sec_name s) (failure_text s r) (io_errors out)\<rparr>, Suc k)
     else (the (got (sec_apply s out) r), k))"
proof (cases r)
  case (Inl e)
  then show ?thesis by (simp add: assemble_section_def section_failed_def got_def failure_text_def)
next
  case (Inr raw)
  with section_failure_stable [OF assms, of out raw "empty_inventory 0"] show ?thesis
    by (auto simp: assemble_section_def section_failed_def got_def failure_text_def split: option.splits)
qed

lemma record_failure_keys:
  "set (keys_of (record_failure n msg errs)) = insert (error_key n) (set (keys_of errs))"
  by (force simp: record_failure_def Let_def map_put_def set_map_del)

text \<open>The failures counted and reported are exactly the failures.\<close>

lemma assemble_failures:
  assumes "set (map fst zs) \<subseteq> set inventorySections"
  shows "snd (assemble zs (out, k)) = k + length (filter (\<lambda>(s, r). section_failed s r) zs) \<and>
    set (keys_of (io_errors (fst (assemble zs (out, k))))) =
      (\<lambda>(s, r). error_key (sec_name s)) ` {z \<in> set zs. case z of (s, r) \<Rightarrow> section_failed s r} \<union> set (keys_of (io_errors out))"
  using assms
proof (induction zs arbitrary: out k)
  case Nil
  then show ?case by simp
next
  case (Cons z zs)
  obtain s r where z: "z = (s, r)" by fastforce
  with Cons.prems have s: "s \<in> set inventorySections" by simp
  have IH: "set (map fst zs) \<subseteq> set inventorySections" using Cons.prems by simp
  show ?case
  proof (cases "section_failed s r")
    case True
    have "{z \<in> set ((s, r) # zs). case z of (s, r) \<Rightarrow> section_failed s r} =
        insert (s, r) {z \<in> set zs. case z of (s, r) \<Rightarrow> section_failed s r}"
      using True by auto
    with True show ?thesis
      by (simp add: z assemble_section_cases [OF s] Cons.IH [OF IH] record_failure_keys del: set_map)
  next
    case False
    then obtain raw where raw: "r = Inr raw" by (cases r) (auto simp: section_failed_def got_def)
    with False section_failure_stable [OF s, of out raw "empty_inventory 0"]
    obtain out' where out': "sec_apply s out raw = Some out'"
      by (auto simp: section_failed_def got_def)
    have "{z \<in> set ((s, r) # zs). case z of (s, r) \<Rightarrow> section_failed s r} =
        {z \<in> set zs. case z of (s, r) \<Rightarrow> section_failed s r}"
      using False by auto
    with False apply_keeps_errors [OF s out'] out' show ?thesis
      by (simp add: z assemble_section_cases [OF s] Cons.IH [OF IH] raw got_def del: set_map)
  qed
qed

text \<open>What each step does to the answer, with the failures left to \<open>errors_after\<close>.\<close>

definition errors_after :: "inventory_section \<Rightarrow> go_error + raw \<Rightarrow> string gomap \<Rightarrow> string gomap" where
  "errors_after s r errs =
     (if section_failed s r then record_failure (sec_name s) (failure_text s r) errs else errs)"

lemmas step_defs = assemble_section_def got_def failure_text_def section_of_def errors_after_def section_failed_def

lemma host_step:
  "fst (assemble_section (section_of n m ps apply_host) r st) =
     (fst st)\<lparr>io_host := (case got (unmarshal dec_host) r of None \<Rightarrow> io_host (fst st) | Some x \<Rightarrow> x),
       io_errors := errors_after (section_of n m ps apply_host) r (io_errors (fst st))\<rparr>"
  by (cases st) (auto simp: step_defs apply_host_def split: sum.splits option.splits)

lemma pools_step:
  "fst (assemble_section (section_of n m ps apply_pools) r st) =
     (fst st)\<lparr>io_pools := (case got (dec_list dec_pool) r of None \<Rightarrow> io_pools (fst st) | Some x \<Rightarrow> x),
       io_errors := errors_after (section_of n m ps apply_pools) r (io_errors (fst st))\<rparr>"
  by (cases st) (auto simp: step_defs apply_pools_def split: sum.splits option.splits)

lemma apps_step:
  "fst (assemble_section (section_of n m ps apply_apps) r st) =
     (fst st)\<lparr>io_apps := (case got (dec_list dec_app) r of None \<Rightarrow> io_apps (fst st) | Some x \<Rightarrow> x),
       io_errors := errors_after (section_of n m ps apply_apps) r (io_errors (fst st))\<rparr>"
  by (cases st) (auto simp: step_defs apply_apps_def split: sum.splits option.splits)

lemma vms_step:
  "fst (assemble_section (section_of n m ps apply_vms) r st) =
     (fst st)\<lparr>io_vms := (case got (dec_list dec_vm) r of None \<Rightarrow> io_vms (fst st) | Some x \<Rightarrow> x),
       io_errors := errors_after (section_of n m ps apply_vms) r (io_errors (fst st))\<rparr>"
  by (cases st) (auto simp: step_defs apply_vms_def split: sum.splits option.splits)

lemma containers_step:
  "fst (assemble_section (section_of n m ps apply_containers) r st) =
     (fst st)\<lparr>io_containers := (case got (dec_list dec_container) r of None \<Rightarrow> io_containers (fst st) | Some x \<Rightarrow> x),
       io_errors := errors_after (section_of n m ps apply_containers) r (io_errors (fst st))\<rparr>"
  by (cases st) (auto simp: step_defs apply_containers_def split: sum.splits option.splits)

lemma alerts_step:
  "fst (assemble_section (section_of n m ps apply_alerts) r st) =
     (fst st)\<lparr>io_alerts := (case got (dec_list dec_alert) r of None \<Rightarrow> io_alerts (fst st) | Some x \<Rightarrow> x),
       io_errors := errors_after (section_of n m ps apply_alerts) r (io_errors (fst st))\<rparr>"
  by (cases st) (auto simp: step_defs apply_alerts_def split: sum.splits option.splits)

lemma shares_step:
  "fst (assemble_section (section_of n m ps (apply_shares kind)) r st) =
     (fst st)\<lparr>io_shares := io_shares (fst st) @ or_nil (got (dec_list (dec_share kind)) r),
       io_errors := errors_after (section_of n m ps (apply_shares kind)) r (io_errors (fst st))\<rparr>"
  by (cases st) (auto simp: step_defs apply_shares_def or_nil_def split: sum.splits option.splits)

lemma datasets_step:
  "fst (assemble_section (section_of n m ps apply_datasets) r st) =
     (fst st)\<lparr>io_datasets := (case got (dec_list dec_dataset) r of None \<Rightarrow> io_datasets (fst st)
                                | Some xs \<Rightarrow> take datasetLimit (sort_key id_name xs)),
       io_datasets_truncated := (io_datasets_truncated (fst st) \<or>
          length (or_nil (got (dec_list dec_dataset) r)) > datasetLimit),
       io_errors := errors_after (section_of n m ps apply_datasets) r (io_errors (fst st))\<rparr>"
  by (cases st) (auto simp: step_defs apply_datasets_def or_nil_def Let_def split: sum.splits option.splits)

text \<open>The same by component of the answer: a step changes its own and keeps the others.\<close>

lemma host_fields:
  "io_host (fst (assemble_section (section_of n m ps apply_host) r st)) =
     (case got (unmarshal dec_host) r of None \<Rightarrow> io_host (fst st) | Some x \<Rightarrow> x)"
  "io_pools (fst (assemble_section (section_of n m ps apply_host) r st)) =
     io_pools (fst st)"
  "io_datasets (fst (assemble_section (section_of n m ps apply_host) r st)) =
     io_datasets (fst st)"
  "io_datasets_truncated (fst (assemble_section (section_of n m ps apply_host) r st)) =
     io_datasets_truncated (fst st)"
  "io_apps (fst (assemble_section (section_of n m ps apply_host) r st)) =
     io_apps (fst st)"
  "io_vms (fst (assemble_section (section_of n m ps apply_host) r st)) =
     io_vms (fst st)"
  "io_containers (fst (assemble_section (section_of n m ps apply_host) r st)) =
     io_containers (fst st)"
  "io_shares (fst (assemble_section (section_of n m ps apply_host) r st)) =
     io_shares (fst st)"
  "io_alerts (fst (assemble_section (section_of n m ps apply_host) r st)) =
     io_alerts (fst st)"
  unfolding host_step by simp_all

lemma pools_fields:
  "io_host (fst (assemble_section (section_of n m ps apply_pools) r st)) =
     io_host (fst st)"
  "io_pools (fst (assemble_section (section_of n m ps apply_pools) r st)) =
     (case got (dec_list dec_pool) r of None \<Rightarrow> io_pools (fst st) | Some x \<Rightarrow> x)"
  "io_datasets (fst (assemble_section (section_of n m ps apply_pools) r st)) =
     io_datasets (fst st)"
  "io_datasets_truncated (fst (assemble_section (section_of n m ps apply_pools) r st)) =
     io_datasets_truncated (fst st)"
  "io_apps (fst (assemble_section (section_of n m ps apply_pools) r st)) =
     io_apps (fst st)"
  "io_vms (fst (assemble_section (section_of n m ps apply_pools) r st)) =
     io_vms (fst st)"
  "io_containers (fst (assemble_section (section_of n m ps apply_pools) r st)) =
     io_containers (fst st)"
  "io_shares (fst (assemble_section (section_of n m ps apply_pools) r st)) =
     io_shares (fst st)"
  "io_alerts (fst (assemble_section (section_of n m ps apply_pools) r st)) =
     io_alerts (fst st)"
  unfolding pools_step by simp_all

lemma apps_fields:
  "io_host (fst (assemble_section (section_of n m ps apply_apps) r st)) =
     io_host (fst st)"
  "io_pools (fst (assemble_section (section_of n m ps apply_apps) r st)) =
     io_pools (fst st)"
  "io_datasets (fst (assemble_section (section_of n m ps apply_apps) r st)) =
     io_datasets (fst st)"
  "io_datasets_truncated (fst (assemble_section (section_of n m ps apply_apps) r st)) =
     io_datasets_truncated (fst st)"
  "io_apps (fst (assemble_section (section_of n m ps apply_apps) r st)) =
     (case got (dec_list dec_app) r of None \<Rightarrow> io_apps (fst st) | Some x \<Rightarrow> x)"
  "io_vms (fst (assemble_section (section_of n m ps apply_apps) r st)) =
     io_vms (fst st)"
  "io_containers (fst (assemble_section (section_of n m ps apply_apps) r st)) =
     io_containers (fst st)"
  "io_shares (fst (assemble_section (section_of n m ps apply_apps) r st)) =
     io_shares (fst st)"
  "io_alerts (fst (assemble_section (section_of n m ps apply_apps) r st)) =
     io_alerts (fst st)"
  unfolding apps_step by simp_all

lemma vms_fields:
  "io_host (fst (assemble_section (section_of n m ps apply_vms) r st)) =
     io_host (fst st)"
  "io_pools (fst (assemble_section (section_of n m ps apply_vms) r st)) =
     io_pools (fst st)"
  "io_datasets (fst (assemble_section (section_of n m ps apply_vms) r st)) =
     io_datasets (fst st)"
  "io_datasets_truncated (fst (assemble_section (section_of n m ps apply_vms) r st)) =
     io_datasets_truncated (fst st)"
  "io_apps (fst (assemble_section (section_of n m ps apply_vms) r st)) =
     io_apps (fst st)"
  "io_vms (fst (assemble_section (section_of n m ps apply_vms) r st)) =
     (case got (dec_list dec_vm) r of None \<Rightarrow> io_vms (fst st) | Some x \<Rightarrow> x)"
  "io_containers (fst (assemble_section (section_of n m ps apply_vms) r st)) =
     io_containers (fst st)"
  "io_shares (fst (assemble_section (section_of n m ps apply_vms) r st)) =
     io_shares (fst st)"
  "io_alerts (fst (assemble_section (section_of n m ps apply_vms) r st)) =
     io_alerts (fst st)"
  unfolding vms_step by simp_all

lemma containers_fields:
  "io_host (fst (assemble_section (section_of n m ps apply_containers) r st)) =
     io_host (fst st)"
  "io_pools (fst (assemble_section (section_of n m ps apply_containers) r st)) =
     io_pools (fst st)"
  "io_datasets (fst (assemble_section (section_of n m ps apply_containers) r st)) =
     io_datasets (fst st)"
  "io_datasets_truncated (fst (assemble_section (section_of n m ps apply_containers) r st)) =
     io_datasets_truncated (fst st)"
  "io_apps (fst (assemble_section (section_of n m ps apply_containers) r st)) =
     io_apps (fst st)"
  "io_vms (fst (assemble_section (section_of n m ps apply_containers) r st)) =
     io_vms (fst st)"
  "io_containers (fst (assemble_section (section_of n m ps apply_containers) r st)) =
     (case got (dec_list dec_container) r of None \<Rightarrow> io_containers (fst st) | Some x \<Rightarrow> x)"
  "io_shares (fst (assemble_section (section_of n m ps apply_containers) r st)) =
     io_shares (fst st)"
  "io_alerts (fst (assemble_section (section_of n m ps apply_containers) r st)) =
     io_alerts (fst st)"
  unfolding containers_step by simp_all

lemma alerts_fields:
  "io_host (fst (assemble_section (section_of n m ps apply_alerts) r st)) =
     io_host (fst st)"
  "io_pools (fst (assemble_section (section_of n m ps apply_alerts) r st)) =
     io_pools (fst st)"
  "io_datasets (fst (assemble_section (section_of n m ps apply_alerts) r st)) =
     io_datasets (fst st)"
  "io_datasets_truncated (fst (assemble_section (section_of n m ps apply_alerts) r st)) =
     io_datasets_truncated (fst st)"
  "io_apps (fst (assemble_section (section_of n m ps apply_alerts) r st)) =
     io_apps (fst st)"
  "io_vms (fst (assemble_section (section_of n m ps apply_alerts) r st)) =
     io_vms (fst st)"
  "io_containers (fst (assemble_section (section_of n m ps apply_alerts) r st)) =
     io_containers (fst st)"
  "io_shares (fst (assemble_section (section_of n m ps apply_alerts) r st)) =
     io_shares (fst st)"
  "io_alerts (fst (assemble_section (section_of n m ps apply_alerts) r st)) =
     (case got (dec_list dec_alert) r of None \<Rightarrow> io_alerts (fst st) | Some x \<Rightarrow> x)"
  unfolding alerts_step by simp_all

lemma shares_fields:
  "io_host (fst (assemble_section (section_of n m ps (apply_shares kind)) r st)) =
     io_host (fst st)"
  "io_pools (fst (assemble_section (section_of n m ps (apply_shares kind)) r st)) =
     io_pools (fst st)"
  "io_datasets (fst (assemble_section (section_of n m ps (apply_shares kind)) r st)) =
     io_datasets (fst st)"
  "io_datasets_truncated (fst (assemble_section (section_of n m ps (apply_shares kind)) r st)) =
     io_datasets_truncated (fst st)"
  "io_apps (fst (assemble_section (section_of n m ps (apply_shares kind)) r st)) =
     io_apps (fst st)"
  "io_vms (fst (assemble_section (section_of n m ps (apply_shares kind)) r st)) =
     io_vms (fst st)"
  "io_containers (fst (assemble_section (section_of n m ps (apply_shares kind)) r st)) =
     io_containers (fst st)"
  "io_shares (fst (assemble_section (section_of n m ps (apply_shares kind)) r st)) =
     io_shares (fst st) @ or_nil (got (dec_list (dec_share kind)) r)"
  "io_alerts (fst (assemble_section (section_of n m ps (apply_shares kind)) r st)) =
     io_alerts (fst st)"
  unfolding shares_step by simp_all

lemma datasets_fields:
  "io_host (fst (assemble_section (section_of n m ps apply_datasets) r st)) =
     io_host (fst st)"
  "io_pools (fst (assemble_section (section_of n m ps apply_datasets) r st)) =
     io_pools (fst st)"
  "io_datasets (fst (assemble_section (section_of n m ps apply_datasets) r st)) =
     (case got (dec_list dec_dataset) r of None \<Rightarrow> io_datasets (fst st)
       | Some xs \<Rightarrow> take datasetLimit (sort_key id_name xs))"
  "io_datasets_truncated (fst (assemble_section (section_of n m ps apply_datasets) r st)) =
     (io_datasets_truncated (fst st) \<or>
       length (or_nil (got (dec_list dec_dataset) r)) > datasetLimit)"
  "io_apps (fst (assemble_section (section_of n m ps apply_datasets) r st)) =
     io_apps (fst st)"
  "io_vms (fst (assemble_section (section_of n m ps apply_datasets) r st)) =
     io_vms (fst st)"
  "io_containers (fst (assemble_section (section_of n m ps apply_datasets) r st)) =
     io_containers (fst st)"
  "io_shares (fst (assemble_section (section_of n m ps apply_datasets) r st)) =
     io_shares (fst st)"
  "io_alerts (fst (assemble_section (section_of n m ps apply_datasets) r st)) =
     io_alerts (fst st)"
  unfolding datasets_step by simp_all

lemmas section_fields = host_fields pools_fields apps_fields vms_fields containers_fields alerts_fields shares_fields
  datasets_fields

text \<open>Every section's part of the assembled answer.\<close>

lemma answers_eq:
  "answers res = zip inventorySections (map res [0, 1, 2, 3, 4, 5, 6, 7, 8])"
  by (simp add: answers_def inventorySections_def upt_rec eval_nat_numeral)

lemma assembled_parts:
  fixes res now
  defines "out \<equiv> fst (assemble (answers res) (empty_inventory now, 0))"
  shows "io_host out = (case got (unmarshal dec_host) (res 0) of None \<Rightarrow> io_host (empty_inventory now) | Some h \<Rightarrow> h)"
    and "io_pools out = or_nil (got (dec_list dec_pool) (res 1))"
    and "io_datasets out = take datasetLimit (sort_key id_name (or_nil (got (dec_list dec_dataset) (res 2))))"
    and "io_datasets_truncated out \<longleftrightarrow> length (or_nil (got (dec_list dec_dataset) (res 2))) > datasetLimit"
    and "io_apps out = or_nil (got (dec_list dec_app) (res 3))"
    and "io_vms out = or_nil (got (dec_list dec_vm) (res 4))"
    and "io_containers out = or_nil (got (dec_list dec_container) (res 5))"
    and "io_shares out = or_nil (got (dec_list (dec_share Smb)) (res 6)) @ or_nil (got (dec_list (dec_share Nfs)) (res 7))"
    and "io_alerts out = or_nil (got (dec_list dec_alert) (res 8))"
  unfolding out_def answers_eq inventorySections_def
  by (simp_all add: section_fields empty_inventory_def or_nil_def del: upt.simps split: option.split)

lemma sections_length [simp]: "length inventorySections = 9"
  by (simp add: inventorySections_def)

lemma answers_nth: "i < 9 \<Longrightarrow> answers res ! i = (inventorySections ! i, res i)"
  by (simp add: answers_def)

lemma length_answers [simp]: "length (answers res) = 9"
  by (simp add: answers_def)

lemma filter_all_length: "length (filter P xs) = length xs \<longleftrightarrow> list_all P xs"
proof (induction xs)
  case (Cons x xs)
  have "length (filter P xs) \<noteq> Suc (length xs)"
    using length_filter_le [of P xs] by linarith
  with Cons show ?case by simp
qed simp

lemma assembled_failures:
  "snd (assemble (answers res) (empty_inventory now, 0)) = 9 \<longleftrightarrow>
     list_all (\<lambda>(s, r). section_failed s r) (answers res)"
  "set (keys_of (io_errors (fst (assemble (answers res) (empty_inventory now, 0))))) =
     (\<lambda>(s, r). error_key (sec_name s)) ` {z \<in> set (answers res). case z of (s, r) \<Rightarrow> section_failed s r}"
proof -
  have "set (map fst (answers res)) \<subseteq> set inventorySections"
    by (auto simp: answers_def dest: set_zip_leftD)
  from assemble_failures [OF this, of "empty_inventory now" 0]
  have *: "snd (assemble (answers res) (empty_inventory now, 0)) = length (filter (\<lambda>(s, r). section_failed s r) (answers res))"
    and "set (keys_of (io_errors (fst (assemble (answers res) (empty_inventory now, 0))))) =
      (\<lambda>(s, r). error_key (sec_name s)) ` {z \<in> set (answers res). case z of (s, r) \<Rightarrow> section_failed s r}"
    by (simp_all add: empty_inventory_def)
  moreover have "length (filter P (answers res)) = 9 \<longleftrightarrow> list_all P (answers res)" for P
    using filter_all_length [of P "answers res"] by simp
  ultimately show "snd (assemble (answers res) (empty_inventory now, 0)) = 9 \<longleftrightarrow>
     list_all (\<lambda>(s, r). section_failed s r) (answers res)"
   "set (keys_of (io_errors (fst (assemble (answers res) (empty_inventory now, 0))))) =
     (\<lambda>(s, r). error_key (sec_name s)) ` {z \<in> set (answers res). case z of (s, r) \<Rightarrow> section_failed s r}"
    by simp_all
qed

text \<open>
  Each section of the inventory depends on its own call only. The call fails as a whole exactly when all
  nine sections failed; otherwise each section holds what its own answer decodes to, and nothing when it
  failed; SMB shares come before NFS exports; the datasets are the first 200 by name, marked
  truncated exactly when there were more; and the errors name exactly the sections that failed, both
  share protocols under the one key the view knows.
\<close>

theorem inventory_sections_independent:
  "case fetch mw order (\<lambda>_. Inr None) tr of (res, tr') \<Rightarrow>
     (case collectInventory mw order now tr of
        (Inl e, tr'') \<Rightarrow> tr'' = tr' \<and> list_all (\<lambda>(s, r). section_failed s r) (answers res)
      | (Inr out, tr'') \<Rightarrow> tr'' = tr' \<and> \<not> list_all (\<lambda>(s, r). section_failed s r) (answers res) \<and>
          io_pools out = or_nil (got (dec_list dec_pool) (res 1)) \<and>
          io_datasets out = take 200 (sort_key id_name (or_nil (got (dec_list dec_dataset) (res 2)))) \<and>
          (io_datasets_truncated out \<longleftrightarrow> length (or_nil (got (dec_list dec_dataset) (res 2))) > 200) \<and>
          io_apps out = or_nil (got (dec_list dec_app) (res 3)) \<and>
          io_vms out = or_nil (got (dec_list dec_vm) (res 4)) \<and>
          io_containers out = or_nil (got (dec_list dec_container) (res 5)) \<and>
          io_shares out = or_nil (got (dec_list (dec_share Smb)) (res 6)) @ or_nil (got (dec_list (dec_share Nfs)) (res 7)) \<and>
          io_alerts out = or_nil (got (dec_list dec_alert) (res 8)) \<and>
          set (keys_of (io_errors out)) =
            (\<lambda>(s, r). error_key (sec_name s)) ` {z \<in> set (answers res). case z of (s, r) \<Rightarrow> section_failed s r})"
proof -
  obtain res tr' where f: "fetch mw order (\<lambda>_. Inr None) tr = (res, tr')" by fastforce
  obtain out k where a: "assemble (answers res) (empty_inventory now, 0) = (out, k)" by fastforce
  have k: "k = 9 \<longleftrightarrow> list_all (\<lambda>(s, r). section_failed s r) (answers res)"
    using assembled_failures(1) [of res now] by (simp add: a)
  show ?thesis
  proof (cases "k = 9")
    case True
    with k show ?thesis by (simp add: collectInventory_def f a)
  next
    case False
    with k have "\<not> list_all (\<lambda>(s, r). section_failed s r) (answers res)" by simp
    with False show ?thesis
      using assembled_parts [of res now, unfolded a fst_conv datasetLimit_def] assembled_failures(2) [of res now, unfolded a fst_conv]
      by (simp add: collectInventory_def f a)
  qed
qed

subsection \<open>The order of the concurrent calls\<close>

lemma fetch_stateless:
  assumes "\<And>tr1 tr2 c. mw tr1 c = mw tr2 c"
  shows "fst (fetch mw order res tr) = (\<lambda>i. if i \<in> set order \<and> i < 9
    then mw [] \<lparr>mc_method = sec_method (inventorySections ! i), mc_params = sec_params (inventorySections ! i)\<rparr> else res i)"
proof (induction order arbitrary: res tr)
  case Nil
  then show ?case by simp
next
  case (Cons i order)
  show ?case using assms [of tr] by (auto simp: Cons.IH)
qed

lemma collect_depends_on_answers:
  "fst (fetch mw order (\<lambda>_. Inr None) tr) = fst (fetch mw order' (\<lambda>_. Inr None) tr) \<Longrightarrow>
     fst (collectInventory mw order now tr) = fst (collectInventory mw order' now tr)"
  by (cases "fetch mw order (\<lambda>_. Inr None) tr"; cases "fetch mw order' (\<lambda>_. Inr None) tr")
    (simp add: collectInventory_def case_prod_beta)


definition narrow_key :: middleware where
  "narrow_key tr c =
     (if mc_method c = ''pool.query'' then Inr (Some (JArr [JObj [(''name'', JStr ''tank''), (''healthy'', JBool True)]]))
      else Inl (Sentinel ErrUnauthorized))"


text \<open>
  A failed section is an empty list in the answer, where the comment on \<^verbatim>\<open>Errors\<close> says that a section listed
  there is absent from the result, not empty.
\<close>

lemma failed_section_is_empty:
  assumes "fst (fetch mw order (\<lambda>_. Inr None) tr) 3 = Inl e" and "collectInventory mw order now tr = (Inr out, tr')"
  shows "io_apps out = []"
proof -
  obtain res tr'' where f: "fetch mw order (\<lambda>_. Inr None) tr = (res, tr'')" by fastforce
  obtain out' k where a: "assemble (answers res) (empty_inventory now, 0) = (out', k)" by fastforce
  from assms(2) have "out = out'" by (simp add: collectInventory_def f a split: if_splits)
  with assembled_parts(5) [of res now] assms(1) show ?thesis by (simp add: f a got_def or_nil_def)
qed

end
