(* ===== verification/Apps.thy ===== *)
theory Apps
  imports Go_Prelude
begin

section \<open>MCP Apps\<close>

text \<open>
  \<^verbatim>\<open>internal/apps/apps.go\<close>: the inventory of views, the lookups, the metadata of a tool and of a resource,
  and the check that holds a view to the conventions. The HTML file embedded at build time is the parameter
  \<open>html\<close>.
\<close>

definition MIMEType :: string where "MIMEType = ''text/html;profile=mcp-app''"
definition Scheme :: string where "Scheme = ''ui://''"
definition ExtensionID :: string where "ExtensionID = ''io.modelcontextprotocol/ui''"
definition InventoryURI :: string where "InventoryURI = ''ui://truenas/inventory''"

record app =
  ap_tool :: string
  ap_uri :: string
  ap_name :: string
  ap_description :: string
  ap_html :: string
  ap_prefers_border :: bool

definition All :: "string \<Rightarrow> app list" where
  "All html =
     [\<lparr>ap_tool = ''inventory'', ap_uri = InventoryURI, ap_name = ''TrueNAS inventory'',
       ap_description = ''Interactive view of the inventory tool'' @ [CHR 0x27] @
         ''s result: pools, datasets, apps, virtual machines, shares, and alerts on the target, with a refresh control.'',
       ap_html = html, ap_prefers_border = True\<rparr>]"

definition ByTool :: "string \<Rightarrow> string \<Rightarrow> app option" where
  "ByTool html tool = find (\<lambda>a. ap_tool a = tool) (All html)"

definition ByURI :: "string \<Rightarrow> string \<Rightarrow> app option" where
  "ByURI html uri = find (\<lambda>a. ap_uri a = uri) (All html)"

definition ToolMeta :: "app \<Rightarrow> json" where
  "ToolMeta a = JObj [(''ui'', JObj [(''resourceUri'', JStr (ap_uri a))])]"

definition ResourceMeta :: "app \<Rightarrow> json" where
  "ResourceMeta a = JObj [(''ui'', JObj [(''prefersBorder'', JBool (ap_prefers_border a))])]"

subsection \<open>The conventions\<close>

definition reference_attrs :: "string list" where
  "reference_attrs = [''src=\"'', ''href=\"'', ''src='' @ [CHR 0x27], ''href='' @ [CHR 0x27]]"

definition is_quote :: "char \<Rightarrow> bool" where
  "is_quote c \<longleftrightarrow> c = CHR 0x22 \<or> c = CHR 0x27"

text \<open>What points off the document: a network scheme, or the scheme left to the page.\<close>

definition external_value :: "string \<Rightarrow> bool" where
  "external_value v \<longleftrightarrow>
     has_prefix ''http://'' (to_lower v) \<or> has_prefix ''https://'' (to_lower v) \<or> has_prefix ''//'' (to_lower v)"

text \<open>The inner loop for one attribute, which goes on after each match.\<close>

function find_reference :: "string \<Rightarrow> string \<Rightarrow> string option" where
  "find_reference attr rest =
     (if attr = [] then None
      else case after_first attr rest of
        None \<Rightarrow> None
      | Some r \<Rightarrow>
          if list_ex is_quote r
          then (let v = takeWhile (\<lambda>c. \<not> is_quote c) r
                in if external_value v then Some v else find_reference attr r)
          else None)"
  by pat_completeness auto
termination
  by (relation "measure (\<lambda>(_, rest). length rest)")
    (auto dest!: after_first_Some)

declare find_reference.simps [simp del]

definition externalReference :: "string \<Rightarrow> string option" where
  "externalReference html =
     (case List.map_filter (\<lambda>attr. find_reference attr html) reference_attrs of [] \<Rightarrow> None | v # vs \<Rightarrow> Some v)"

datatype app_problem =
    NamesNoTool string
  | NotUiScheme string
  | HasNoName string
  | HasNoHTML string
  | NeverInitializes string
  | ReferencesNetwork string string

definition Validate_apps :: "app \<Rightarrow> app_problem option" where
  "Validate_apps a =
     (if ap_tool a = [] then Some (NamesNoTool (ap_uri a))
      else if \<not> has_prefix Scheme (ap_uri a) then Some (NotUiScheme (ap_uri a))
      else if ap_name a = [] then Some (HasNoName (ap_uri a))
      else if trim_space (ap_html a) = [] then Some (HasNoHTML (ap_uri a))
      else if \<not> contains_str ''ui/initialize'' (ap_html a) then Some (NeverInitializes (ap_uri a))
      else map_option (ReferencesNetwork (ap_uri a)) (externalReference (ap_html a)))"

subsection \<open>The search for references\<close>

lemma find_reference_unfold:
  "attr \<noteq> [] \<Longrightarrow> find_reference attr rest =
     (case after_first attr rest of
        None \<Rightarrow> None
      | Some r \<Rightarrow>
          if list_ex is_quote r
          then if external_value (takeWhile (\<lambda>c. \<not> is_quote c) r) then Some (takeWhile (\<lambda>c. \<not> is_quote c) r)
               else find_reference attr r
          else None)"
  by (subst find_reference.simps) (simp add: Let_def split: option.split)

text \<open>
  A quoted reference: an occurrence of the attribute whose value, up to the next quote, points off the
  document.
\<close>

definition refers_to :: "string \<Rightarrow> string \<Rightarrow> string \<Rightarrow> bool" where
  "refers_to attr html v \<longleftrightarrow>
     (\<exists>pre q post. html = pre @ attr @ v @ q # post \<and> is_quote q \<and> \<not> list_ex is_quote v \<and> external_value v)"

lemma takeWhile_quote:
  "list_ex is_quote r \<Longrightarrow>
     \<exists>q post. r = takeWhile (\<lambda>c. \<not> is_quote c) r @ q # post \<and> is_quote q \<and>
       \<not> list_ex is_quote (takeWhile (\<lambda>c. \<not> is_quote c) r)"
proof (induction r)
  case Nil
  then show ?case by simp
next
  case (Cons x r)
  show ?case
  proof (cases "is_quote x")
    case True
    then show ?thesis by simp
  next
    case False
    with Cons.prems have "list_ex is_quote r" by simp
    from Cons.IH [OF this] obtain q post where "r = takeWhile (\<lambda>c. \<not> is_quote c) r @ q # post" "is_quote q"
      "\<not> list_ex is_quote (takeWhile (\<lambda>c. \<not> is_quote c) r)" by blast
    moreover from this(1) False have "x # r = takeWhile (\<lambda>c. \<not> is_quote c) (x # r) @ q # post" by simp
    moreover from calculation(3) False have "\<not> list_ex is_quote (takeWhile (\<lambda>c. \<not> is_quote c) (x # r))" by simp
    ultimately show ?thesis by blast
  qed
qed

lemma find_reference_sound:
  "attr \<noteq> [] \<Longrightarrow> find_reference attr html = Some v \<Longrightarrow> refers_to attr html v"
proof (induction attr html rule: find_reference.induct)
  case (1 attr rest)
  from "1.prems"(2) obtain r where r: "after_first attr rest = Some r" and q: "list_ex is_quote r"
    and rec: "if external_value (takeWhile (\<lambda>c. \<not> is_quote c) r) then v = takeWhile (\<lambda>c. \<not> is_quote c) r
       else find_reference attr r = Some v"
    unfolding find_reference_unfold [OF "1.prems"(1), of rest] by (auto split: option.splits if_splits)
  from after_first_Some [OF r] obtain pre where pre: "rest = pre @ attr @ r" by blast
  show ?case
  proof (cases "external_value (takeWhile (\<lambda>c. \<not> is_quote c) r)")
    case True
    with rec have v: "v = takeWhile (\<lambda>c. \<not> is_quote c) r" by simp
    from takeWhile_quote [OF q] obtain c post
      where "r = v @ c # post" "is_quote c" "\<not> list_ex is_quote v" unfolding v by blast
    with True pre v show ?thesis unfolding refers_to_def by blast
  next
    case False
    with rec have "find_reference attr r = Some v" by simp
    with "1.IH" [OF _ r q refl False] "1.prems"(1) have "refers_to attr r v" by blast
    then obtain pre' c post where "r = pre' @ attr @ v @ c # post" "is_quote c" "\<not> list_ex is_quote v" "external_value v"
      unfolding refers_to_def by blast
    with pre have "rest = (pre @ attr @ pre') @ attr @ v @ c # post" by simp
    with \<open>is_quote c\<close> \<open>\<not> list_ex is_quote v\<close> \<open>external_value v\<close> show ?thesis unfolding refers_to_def by blast
  qed
qed

text \<open>The match \<^verbatim>\<open>strings.Index\<close> finds is the leftmost.\<close>

lemma after_first_leftmost:
  "after_first sub s = Some r \<Longrightarrow> \<exists>pre. s = pre @ sub @ r \<and> (\<forall>pre' r'. s = pre' @ sub @ r' \<longrightarrow> length pre \<le> length pre')"
proof (induction sub s arbitrary: r rule: after_first.induct)
  case (1 sub)
  then have "([] :: string) = [] @ sub @ r" by (simp add: cut_prefix_Some)
  then show ?case by blast
next
  case (2 sub c cs)
  show ?case
  proof (cases "cut_prefix sub (c # cs)")
    case (Some r')
    with "2.prems" have "c # cs = [] @ sub @ r" by (simp add: cut_prefix_Some)
    then show ?thesis by (intro exI [of _ "[]"]) simp
  next
    case None
    with "2.prems" "2.IH" obtain pre where pre: "cs = pre @ sub @ r"
      and least: "\<And>pre' r'. cs = pre' @ sub @ r' \<Longrightarrow> length pre \<le> length pre'" by auto
    have "length (c # pre) \<le> length pre'" if "c # cs = pre' @ sub @ r'" for pre' r'
    proof (cases pre')
      case Nil
      with that None show ?thesis by (metis append_Nil cut_prefix_append option.distinct(1))
    next
      case (Cons a as)
      with that least [of as r'] show ?thesis by simp
    qed
    with pre show ?thesis by (intro exI [of _ "c # pre"]) auto
  qed
qed

text \<open>The attributes end with their only quote, so two occurrences never overlap.\<close>

definition quote_ended :: "string \<Rightarrow> bool" where
  "quote_ended attr \<longleftrightarrow> attr \<noteq> [] \<and> is_quote (last attr) \<and> \<not> list_ex is_quote (butlast attr)"

lemma reference_attrs_quote_ended: "list_all quote_ended reference_attrs"
  by (simp add: reference_attrs_def quote_ended_def is_quote_def)

lemma quote_ended_apart:
  assumes "quote_ended attr" and eq: "p1 @ attr @ r1 = p2 @ attr @ r2" and less: "length p1 < length p2"
  shows "length p1 + length attr \<le> length p2"
proof (rule ccontr)
  assume overlap: "\<not> ?thesis"
  let ?s = "p1 @ attr @ r1"
  let ?k = "length p1 + (length attr - 1)"
  from assms(1) have "attr \<noteq> []" by (simp add: quote_ended_def)
  then have "?s ! ?k = last attr" by (simp add: nth_append last_conv_nth)
  moreover have "0 < length attr" using \<open>attr \<noteq> []\<close> by simp
  then have inside: "length p2 \<le> ?k" "?k - length p2 < length (butlast attr)"
    using overlap less by simp_all
  define j where "j = ?k - length p2"
  with inside have k: "?k = length p2 + j" and j: "j < length (butlast attr)" by simp_all
  have "?s ! ?k = (attr @ r2) ! j" unfolding eq k by (rule nth_append_length_plus)
  moreover have "(attr @ r2) ! j = butlast attr ! j"
  proof -
    from j have "j < length attr" by simp
    with j show ?thesis by (simp add: nth_append nth_butlast)
  qed
  ultimately have "last attr = butlast attr ! j" by (simp only:)
  then have "is_quote (last attr) \<Longrightarrow> list_ex is_quote (butlast attr)"
    using j by (metis list_ex_iff nth_mem)
  with assms(1) show False by (simp add: quote_ended_def)
qed

lemma find_reference_complete:
  "quote_ended attr \<Longrightarrow> refers_to attr html v \<Longrightarrow> find_reference attr html \<noteq> None"
proof (induction attr html rule: find_reference.induct)
  case (1 attr rest)
  from "1.prems"(1) have ne: "attr \<noteq> []" by (simp add: quote_ended_def)
  from "1.prems"(2) obtain pre q post where rest: "rest = pre @ attr @ v @ q # post"
    and v: "is_quote q" "\<not> list_ex is_quote v" "external_value v" unfolding refers_to_def by blast
  from after_first_exists [of attr pre] obtain r where r: "after_first attr rest = Some r"
    unfolding rest by blast
  from after_first_leftmost [OF r] obtain pre0 where pre0: "rest = pre0 @ attr @ r"
    and least: "length pre0 \<le> length pre" using rest by blast
  show ?case
  proof (cases "length pre0 = length pre")
    case True
    with pre0 rest have "r = v @ q # post" by simp
    moreover have "takeWhile (\<lambda>c. \<not> is_quote c) (v @ q # post) = v"
      using v(1,2) by (simp add: takeWhile_append list_ex_iff)
    ultimately show ?thesis
      using r v unfolding find_reference_unfold [OF ne, of rest] by (simp add: list_ex_iff)
  next
    case False
    with least have less: "length pre0 < length pre" by simp
    from quote_ended_apart [OF "1.prems"(1) _ less, of r "v @ q # post"] pre0 rest
    have "length pre0 + length attr \<le> length pre" by simp
    moreover have "pre = take (length pre) ((pre0 @ attr) @ r)"
      using pre0 rest by (metis append.assoc append_eq_conv_conj)
    ultimately have "pre = (pre0 @ attr) @ take (length pre - length (pre0 @ attr)) r"
      by (metis length_append take_all take_append)
    then obtain mid where "pre = pre0 @ attr @ mid" by simp
    with pre0 rest have mid: "r = mid @ attr @ v @ q # post" by simp
    with v have later: "refers_to attr r v" unfolding refers_to_def by blast
    from mid v(1) have quotes: "list_ex is_quote r" by (auto simp: list_ex_iff)
    show ?thesis
      using "1.IH" [OF ne r quotes refl _ "1.prems"(1) later] r quotes
      unfolding find_reference_unfold [OF ne, of rest] by auto
  qed
qed

text \<open>
  The check for network references is exact: it reports a value exactly when the document has a quoted
  \<^verbatim>\<open>src\<close> or \<^verbatim>\<open>href\<close> whose value points off the document, and the value it reports is one of these. So a view is accepted
  exactly when it names a tool, lives under the \<^verbatim>\<open>ui\<close> scheme, has a name and HTML that starts the protocol, and refers to
  nothing off the document.
\<close>

theorem Validate_apps_exact:
  "(externalReference html = None \<longleftrightarrow> \<not> (\<exists>attr v. attr \<in> set reference_attrs \<and> refers_to attr html v)) \<and>
   (case externalReference html of None \<Rightarrow> True | Some v \<Rightarrow> (\<exists>attr. attr \<in> set reference_attrs \<and> refers_to attr html v)) \<and>
   (Validate_apps a = None \<longleftrightarrow>
      ap_tool a \<noteq> [] \<and> has_prefix ''ui://'' (ap_uri a) \<and> ap_name a \<noteq> [] \<and> trim_space (ap_html a) \<noteq> [] \<and>
      contains_str ''ui/initialize'' (ap_html a) \<and>
      \<not> (\<exists>attr v. attr \<in> set reference_attrs \<and> refers_to attr (ap_html a) v))"
proof -
  have ended: "quote_ended attr" if "attr \<in> set reference_attrs" for attr
    using that reference_attrs_quote_ended by (auto simp: list_all_iff)
  have none: "externalReference html = None \<longleftrightarrow> \<not> (\<exists>attr v. attr \<in> set reference_attrs \<and> refers_to attr html v)" for html
  proof -
    have "externalReference html = None \<longleftrightarrow> (\<forall>attr \<in> set reference_attrs. find_reference attr html = None)"
    proof -
      have "List.map_filter f xs = [] \<longleftrightarrow> (\<forall>x \<in> set xs. f x = None)" for f :: "string \<Rightarrow> string option" and xs
        by (induction xs) (auto simp: map_filter_simps split: option.split)
      note this [of "\<lambda>attr. find_reference attr html" reference_attrs]
      then show ?thesis
        by (cases "List.map_filter (\<lambda>attr. find_reference attr html) reference_attrs") (auto simp: externalReference_def)
    qed
    then show ?thesis
      using find_reference_sound find_reference_complete ended by (metis not_None_eq quote_ended_def)
  qed
  have some: "\<exists>attr. attr \<in> set reference_attrs \<and> refers_to attr html v" if "externalReference html = Some v" for v
  proof -
    from that have "v \<in> set (List.map_filter (\<lambda>attr. find_reference attr html) reference_attrs)"
      by (auto simp: externalReference_def split: list.splits)
    then obtain attr where "attr \<in> set reference_attrs" "find_reference attr html = Some v"
      by (auto simp: map_filter_def)
    with find_reference_sound ended show ?thesis by (metis quote_ended_def)
  qed
  show ?thesis
    using none some by (auto simp: Validate_apps_def Scheme_def split: option.split)
qed

end
