(* ===== verification/Resources.thy ===== *)
theory Resources
  imports Apps Write_Tool
begin

section \<open>Resources\<close>

text \<open>
  \<^verbatim>\<open>internal/server/resources.go\<close> and the resources of \<^verbatim>\<open>internal/server/apps.go\<close>: what is listed, with and without a
  session, and what reading each does. The templated job resource is the one whose URI carries a value, and it is
  the URI the write tools hand out.
\<close>

definition uriAlerts :: string where "uriAlerts = ''truenas://alerts''"
definition uriHealth :: string where "uriHealth = ''truenas://system/health''"
definition uriPools :: string where "uriPools = ''truenas://pools''"
definition uriApps :: string where "uriApps = ''truenas://apps''"
definition uriDocFilter :: string where "uriDocFilter = ''truenas://docs/query-filters''"
definition uriDocZFS :: string where "uriDocZFS = ''truenas://docs/dataset-properties''"

text \<open>The two documents, line by line.\<close>

definition docQueryFilters :: string where
  "docQueryFilters = concat (map (\<lambda>line. line @ [CHR 0x0A]) [
     ''# TrueNAS query filters'',
     [],
     ''Query-shaped middleware methods (`pool.query`, `app.query`, `core.get_jobs`)'',
     ''take a list of filters and an options object.'',
     [],
     ''A filter is a three-element list: `[field, operator, value]`.'',
     [],
     ''    [[\"name\", \"=\", \"tank\"]]'',
     ''    [[\"state\", \"!=\", \"RUNNING\"]]'',
     ''    [[\"used.parsed\", \">\", 1000000000]]'',
     [],
     ''Operators: `=`, `!=`, `>`, `>=`, `<`, `<=`, `~` (regex), `in`, `nin`.'',
     [],
     ''Combine with `AND` by listing several filters; use `OR` explicitly:'',
     [],
     ''    [[\"OR\", [[\"state\", \"=\", \"RUNNING\"], [\"state\", \"=\", \"DEPLOYING\"]]]]'',
     [],
     ''Nested fields use dots: `used.parsed`, `progress.percent`.'',
     [],
     ''Options control the shape of the result:'',
     [],
     ''    {\"limit\": 10, \"offset\": 0, \"order_by\": [\"name\"], \"select\": [\"name\", \"state\"]}'',
     [],
     ''This server'' @ [CHR 0x27] @ ''s read tools build filters for you; you only need this when'',
     ''calling a method directly through `call_method`.''])"

definition docDatasetProperties :: string where
  "docDatasetProperties = concat (map (\<lambda>line. line @ [CHR 0x0A]) [
     ''# ZFS dataset properties'',
     [],
     ''Fields returned by `pool.dataset.query` that are worth knowing.'',
     [],
     ''## Space'',
     [],
     ''- `used` '' @ [CHR 0xE2] @ [CHR 0x80] @ [CHR 0x94] @ '' space consumed by this dataset and its descendants'',
     ''- `available` '' @ [CHR 0xE2] @ [CHR 0x80] @ [CHR 0x94] @ '' space still writable, bounded by quota or pool free space'',
     ''- `referenced` '' @ [CHR 0xE2] @ [CHR 0x80] @ [CHR 0x94] @ '' space referenced by this dataset alone'',
     ''- `quota` / `refquota` '' @ [CHR 0xE2] @ [CHR 0x80] @ [CHR 0x94] @ '' hard limits; `refquota` excludes descendants'',
     ''- `reservation` / `refreservation` '' @ [CHR 0xE2] @ [CHR 0x80] @ [CHR 0x94] @ '' space guaranteed to this dataset'',
     [],
     ''Each appears as an object with `parsed` (bytes, for arithmetic) and'',
     ''`rawvalue` (the string ZFS reports). Compare on `parsed`.'',
     [],
     ''## Inheritance'',
     [],
     ''Most properties carry a `source` field:'',
     [],
     ''- `INHERITED` '' @ [CHR 0xE2] @ [CHR 0x80] @ [CHR 0x94] @ '' taken from the parent; changing the parent changes this'',
     ''- `LOCAL` '' @ [CHR 0xE2] @ [CHR 0x80] @ [CHR 0x94] @ '' set on this dataset explicitly'',
     ''- `DEFAULT` '' @ [CHR 0xE2] @ [CHR 0x80] @ [CHR 0x94] @ '' never set anywhere'',
     [],
     ''A property showing `INHERITED` is not independently configured, which'',
     ''matters before changing anything: the change belongs on the parent.'',
     [],
     ''## Common properties'',
     [],
     ''- `compression` '' @ [CHR 0xE2] @ [CHR 0x80] @ [CHR 0x94] @ '' `LZ4` is the usual default and rarely worth changing'',
     ''- `recordsize` '' @ [CHR 0xE2] @ [CHR 0x80] @ [CHR 0x94] @ '' tune only for known workloads; the default suits most'',
     ''- `atime` '' @ [CHR 0xE2] @ [CHR 0x80] @ [CHR 0x94] @ '' `OFF` reduces writes; safe unless something depends on it'',
     ''- `deduplication` '' @ [CHR 0xE2] @ [CHR 0x80] @ [CHR 0x94] @ '' costs large amounts of RAM; almost never worth it'',
     ''- `encryption` / `keyformat` '' @ [CHR 0xE2] @ [CHR 0x80] @ [CHR 0x94] @ '' set at creation, not changeable later'',
     ''- `readonly` '' @ [CHR 0xE2] @ [CHR 0x80] @ [CHR 0x94] @ '' commonly `ON` for replication targets''])"

text \<open>What serves a resource: a document, a live call, or the HTML of a view.\<close>

datatype resource_source = StaticBody string | LiveMethod string | AppPage string

record resource =
  rs_uri :: string
  rs_name :: string
  rs_mime :: string
  rs_source :: resource_source

definition doc_resources :: "resource list" where
  "doc_resources =
     [\<lparr>rs_uri = uriDocFilter, rs_name = ''TrueNAS query filter syntax'', rs_mime = ''text/markdown'',
       rs_source = StaticBody docQueryFilters\<rparr>,
      \<lparr>rs_uri = uriDocZFS, rs_name = ''ZFS dataset properties'', rs_mime = ''text/markdown'',
       rs_source = StaticBody docDatasetProperties\<rparr>]"

definition live_resources :: "resource list" where
  "live_resources =
     [\<lparr>rs_uri = uriAlerts, rs_name = ''Current alerts'', rs_mime = ''application/json'', rs_source = LiveMethod ''alert.list''\<rparr>,
      \<lparr>rs_uri = uriHealth, rs_name = ''System health'', rs_mime = ''application/json'', rs_source = LiveMethod ''system.info''\<rparr>,
      \<lparr>rs_uri = uriPools, rs_name = ''Pools'', rs_mime = ''application/json'', rs_source = LiveMethod ''pool.query''\<rparr>,
      \<lparr>rs_uri = uriApps, rs_name = ''Installed apps'', rs_mime = ''application/json'', rs_source = LiveMethod ''app.query''\<rparr>]"

text \<open>The resources registered, and whether the job template is, which needs a session.\<close>

definition registerResources :: "bool \<Rightarrow> resource list \<times> bool" where
  "registerResources session = (if session then (doc_resources @ live_resources, True) else (doc_resources, False))"

definition app_resources :: "string \<Rightarrow> resource list" where
  "app_resources html =
     map (\<lambda>a. \<lparr>rs_uri = ap_uri a, rs_name = ap_name a, rs_mime = MIMEType, rs_source = AppPage (ap_html a)\<rparr>) (All html)"

subsection \<open>Reading\<close>

datatype resource_answer =
    ReadText string string
  | ReadRaw raw
  | ReadJob job
  | ReadFailed go_error
  | NotAJobURI string

definition liveResource :: "middleware \<Rightarrow> go_error option \<Rightarrow> string \<Rightarrow> trace \<Rightarrow> resource_answer \<times> trace" where
  "liveResource mw sess meth tr =
     (case sess of
        Some e \<Rightarrow> (ReadFailed e, tr)
      | None \<Rightarrow>
          (case mw_call mw meth [] tr of
             (Inl e, tr') \<Rightarrow> (ReadFailed e, tr')
           | (Inr r, tr') \<Rightarrow> (ReadRaw r, tr')))"

definition read_resource :: "middleware \<Rightarrow> go_error option \<Rightarrow> resource \<Rightarrow> trace \<Rightarrow> resource_answer \<times> trace" where
  "read_resource mw sess r tr =
     (case rs_source r of
        StaticBody body \<Rightarrow> (ReadText (rs_mime r) body, tr)
      | AppPage html \<Rightarrow> (ReadText (rs_mime r) html, tr)
      | LiveMethod meth \<Rightarrow> liveResource mw sess meth tr)"

text \<open>
  \<^verbatim>\<open>fmt.Sscanf\<close> with the one verb \<^verbatim>\<open>%d\<close> into an \<^verbatim>\<open>int64\<close>: an optional sign and the digits that follow, within range; the
  input after them is not looked at. A URI that matches the template holds no white space.
\<close>

definition digits_value :: "string \<Rightarrow> int" where
  "digits_value s = foldl (\<lambda>n c. 10 * n + (of_char c - 48)) 0 s"

definition scan_int64 :: "string \<Rightarrow> int option" where
  "scan_int64 s =
     (let (neg, r) = (case s of
            c # cs \<Rightarrow> if c = CHR ''-'' then (True, cs) else if c = CHR ''+'' then (False, cs) else (False, s)
          | [] \<Rightarrow> (False, []));
          ds = takeWhile is_digit r;
          v = (if neg then - digits_value ds else digits_value ds)
      in if ds = [] \<or> \<not> in_int64 v then None else Some v)"

definition job_uri_prefix :: string where
  "job_uri_prefix = ''truenas://job/''"

definition read_job_resource :: "middleware \<Rightarrow> go_error option \<Rightarrow> string \<Rightarrow> trace \<Rightarrow> resource_answer \<times> trace" where
  "read_job_resource mw sess uri tr =
     (let ident = (case cut_prefix job_uri_prefix uri of None \<Rightarrow> uri | Some r \<Rightarrow> r)
      in case scan_int64 ident of
           None \<Rightarrow> (NotAJobURI uri, tr)
         | Some jid \<Rightarrow>
             (case sess of
                Some e \<Rightarrow> (ReadFailed e, tr)
              | None \<Rightarrow>
                  (case Job mw jid tr of
                     (Inl e, tr') \<Rightarrow> (ReadFailed e, tr')
                   | (Inr j, tr') \<Rightarrow> (ReadJob j, tr'))))"

subsection \<open>Printing and scanning a job id\<close>

lemma is_digit_char [simp]: "d < 10 \<Longrightarrow> is_digit (digit_char d)"
  by (simp add: is_digit_def digit_char_def)

lemma of_digit_char [simp]: "d < 10 \<Longrightarrow> (of_char (digit_char d) :: int) = 48 + int d"
proof -
  assume "d < 10"
  then have "(of_char (digit_char d) :: nat) = 48 + d" by (simp add: digit_char_def)
  then have "int (of_char (digit_char d)) = 48 + int d" by simp
  then show ?thesis by (simp only: of_nat_of_char)
qed

lemma digits_value_snoc: "digits_value (s @ [c]) = 10 * digits_value s + (of_char c - 48)"
  by (simp add: digits_value_def)

lemma show_nat_digits: "list_all is_digit (show_nat n) \<and> show_nat n \<noteq> [] \<and> digits_value (show_nat n) = int n"
proof (induction n rule: show_nat.induct)
  case (1 n)
  show ?case
  proof (cases "n < 10")
    case True
    then show ?thesis by (simp add: show_nat.simps [of n] digits_value_def)
  next
    case False
    then show ?thesis
      using "1.IH" by (simp add: show_nat.simps [of n] digits_value_snoc zdiv_int zmod_int)
  qed
qed

lemma takeWhile_digits: "list_all is_digit s \<Longrightarrow> takeWhile is_digit s = s"
  by (simp add: list_all_iff)

lemma scan_show: "in_int64 i \<Longrightarrow> scan_int64 (show_int i) = Some i"
proof (cases "i < 0")
  case True
  moreover assume "in_int64 i"
  ultimately show ?thesis
    using show_nat_digits [of "nat (- i)"]
    by (simp add: scan_int64_def show_int_def takeWhile_digits)
next
  case False
  moreover assume "in_int64 i"
  moreover obtain c cs where c: "show_nat (nat i) = c # cs" using show_nat_digits [of "nat i"] by (cases "show_nat (nat i)") auto
  moreover from c show_nat_digits [of "nat i"] have "is_digit c" by simp
  then have "c \<noteq> CHR ''-''" "c \<noteq> CHR ''+''" by (auto simp: is_digit_def)
  ultimately show ?thesis
    using show_nat_digits [of "nat i"]
    by (simp add: scan_int64_def show_int_def takeWhile_digits)
qed

lemma CallJob_in_int64: "fst (CallJob mw meth params tr) = Inr i \<Longrightarrow> in_int64 i"
proof -
  have dec: "dec_int64 x = Some j \<Longrightarrow> in_int64 j" for x j
    by (cases x rule: dec_int64.cases) (auto simp: in_int64_def split: if_splits)
  have each: "dec_each (\<lambda>x. dec_int64 (Some x)) xs = Some (j # js) \<Longrightarrow> in_int64 j" for xs j js
    by (cases xs) (auto split: option.splits intro: dec)
  assume "fst (CallJob mw meth params tr) = Inr i"
  then show ?thesis
    by (auto simp: CallJob_def unmarshal_def split: sum.splits option.splits list.splits intro: dec each)
qed

end
