(* ===== verification/MCP_Server.thy ===== *)
theory MCP_Server
  imports Concern_Tool Discovery_Tool Tasks Inventory Resources
begin

section \<open>The server: which tools exist and what each can do\<close>

text \<open>
  \<^verbatim>\<open>NewMCPServer\<close> of \<^verbatim>\<open>internal/server/mcp.go\<close> and the registration functions it calls: the tools in the order they
  are added, with their annotations and handlers, the resources and the extensions declared. The two
  tools of \<^verbatim>\<open>mcp.go\<close> itself are modelled here. A request names a tool and carries an input; the SDK refuses an unknown name
  and an input of another tool's shape before any handler runs.
\<close>

subsection \<open>The tools of the server file\<close>

record mcp_config =
  sv_version :: string
  sv_target :: string
  sv_enable_writes :: bool

record server_info =
  sio_name :: string
  sio_version :: string
  sio_target :: string
  sio_writes_enabled :: bool

definition server_info_tool :: "mcp_config \<Rightarrow> server_info" where
  "server_info_tool cfg = \<lparr>sio_name = ''truenas-mcp'', sio_version = sv_version cfg, sio_target = sv_target cfg,
     sio_writes_enabled = sv_enable_writes cfg\<rparr>"

record system_info =
  syo_version :: string
  syo_hostname :: string
  syo_uptime :: string
  syo_cores :: int

definition dec_system_info :: "json option \<Rightarrow> system_info option" where
  "dec_system_info j =
     (case dec_struct j of
        None \<Rightarrow> None
      | Some kvs \<Rightarrow>
          (case (dec_string (jfield ''version'' kvs), dec_string (jfield ''hostname'' kvs),
                 dec_string (jfield ''uptime'' kvs), dec_int64 (jfield ''physical_cores'' kvs)) of
             (Some v, Some h, Some u, Some n) \<Rightarrow> Some \<lparr>syo_version = v, syo_hostname = h, syo_uptime = u, syo_cores = n\<rparr>
           | _ \<Rightarrow> None))"

definition system_info_tool :: "middleware \<Rightarrow> go_error option \<Rightarrow> trace \<Rightarrow> (go_error + system_info) \<times> trace" where
  "system_info_tool mw sess tr =
     (case sess of
        Some e \<Rightarrow> (Inl e, tr)
      | None \<Rightarrow>
          (case mw_call mw ''system.info'' [] tr of
             (Inl e, tr') \<Rightarrow> (Inl e, tr')
           | (Inr raw, tr') \<Rightarrow>
               (case unmarshal dec_system_info raw of
                  None \<Rightarrow> (Inl (Wrapped ''decoding system.info'' []), tr')
                | Some i \<Rightarrow> (Inr i, tr'))))"

text \<open>The inventory tool of \<^verbatim>\<open>internal/server/apps.go\<close>.\<close>

definition inventory_tool ::
    "middleware \<Rightarrow> go_error option \<Rightarrow> nat list \<Rightarrow> int \<Rightarrow> trace \<Rightarrow> (go_error + inventory) \<times> trace" where
  "inventory_tool mw sess order now tr =
     (case sess of Some e \<Rightarrow> (Inl e, tr) | None \<Rightarrow> collectInventory mw order now tr)"

subsection \<open>Registration\<close>

datatype handler =
    ServerInfoTool
  | InventoryTool
  | ConcernTool concern
  | JobsTool
  | SearchTool
  | DescribeTool
  | CallTool
  | WriteTool write_op
  | ConfigTool config_write_op
  | SystemInfoTool

record tool =
  tl_name :: string
  tl_annotations :: annotations
  tl_handler :: handler

definition registerInventory :: "tool list" where
  "registerInventory =
     [\<lparr>tl_name = ''inventory'', tl_annotations = readAnnotations ''Inventory'', tl_handler = InventoryTool\<rparr>]"

definition registerConcerns :: "tool list" where
  "registerConcerns =
     map (\<lambda>c. \<lparr>tl_name = c_name c, tl_annotations = readAnnotations (c_title c), tl_handler = ConcernTool c\<rparr>) ReadConcerns"

definition registerJobs :: "tool list" where
  "registerJobs =
     [\<lparr>tl_name = ''jobs'', tl_annotations = readAnnotations ''Long-running operations'', tl_handler = JobsTool\<rparr>]"

definition registerDiscovery :: "tool list" where
  "registerDiscovery =
     [\<lparr>tl_name = ''search_methods'', tl_annotations = readAnnotations ''Find middleware methods'', tl_handler = SearchTool\<rparr>,
      \<lparr>tl_name = ''describe_method'', tl_annotations = readAnnotations ''Describe a middleware method'', tl_handler = DescribeTool\<rparr>,
      \<lparr>tl_name = ''call_method'', tl_annotations = writeAnnotations ''Call a middleware method directly'' True False,
       tl_handler = CallTool\<rparr>]"

definition registerWrites :: "tool list" where
  "registerWrites =
     map (\<lambda>w. \<lparr>tl_name = wo_name w, tl_annotations = writeAnnotations (wo_title w) (wo_destructive w) (wo_idempotent w),
            tl_handler = WriteTool w\<rparr>) WriteOps"

definition registerConfigWrites :: "tool list" where
  "registerConfigWrites =
     map (\<lambda>w. \<lparr>tl_name = cw_name w, tl_annotations = writeAnnotations (cw_title w) (cw_destructive w) False,
            tl_handler = ConfigTool w\<rparr>) ConfigWrites"

definition TasksExtensionID :: string where
  "TasksExtensionID = ''io.modelcontextprotocol/tasks''"

record mcp_server =
  ms_tools :: "tool list"
  ms_resources :: "resource list"
  ms_job_resource :: bool
  ms_extensions :: "string list"
  ms_tasks :: bool

text \<open>\<open>session\<close> says whether the server has one to give its tools.\<close>

definition NewMCPServer :: "string \<Rightarrow> mcp_config \<Rightarrow> bool \<Rightarrow> mcp_server" where
  "NewMCPServer html cfg session =
     \<lparr>ms_tools =
        (if session then registerInventory else []) @
        [\<lparr>tl_name = ''server_info'', tl_annotations = readAnnotations ''About this server'', tl_handler = ServerInfoTool\<rparr>] @
        (if session
         then registerConcerns @ registerJobs @ registerDiscovery @
              (if sv_enable_writes cfg then registerWrites @ registerConfigWrites else []) @
              [\<lparr>tl_name = ''system_info'', tl_annotations = readAnnotations ''TrueNAS system information'',
                tl_handler = SystemInfoTool\<rparr>]
         else []),
      ms_resources = fst (registerResources session) @ app_resources html,
      ms_job_resource = snd (registerResources session),
      ms_extensions = ExtensionID # (if sv_enable_writes cfg \<and> session then [TasksExtensionID] else []),
      ms_tasks = (session \<and> sv_enable_writes cfg)\<rparr>"

subsection \<open>Requests\<close>

datatype tool_input =
    NoInput
  | DispatchArgs dispatch_input
  | JobsArgs jobs_input
  | SearchArgs search_input
  | DescribeArgs describe_input
  | CallArgs call_input
  | WriteArgs write_input
  | ConfigArgs config_write_input

text \<open>The world of a request: the target, its streams and downloads, the schedule of the inventory, the clock, and the session or its failure.\<close>

record world =
  wd_target :: middleware
  wd_logs :: log_env
  wd_downloads :: download_env
  wd_schedule :: "nat list"
  wd_now :: int
  wd_session :: "go_error option"

text \<open>The calls a request makes on the target.\<close>

definition handler_calls :: "mcp_config \<Rightarrow> world \<Rightarrow> handler \<Rightarrow> tool_input \<Rightarrow> trace \<Rightarrow> trace" where
  "handler_calls cfg wd h inp tr =
     (case h of
        ServerInfoTool \<Rightarrow> tr
      | InventoryTool \<Rightarrow>
          (case inp of NoInput \<Rightarrow> snd (inventory_tool (wd_target wd) (wd_session wd) (wd_schedule wd) (wd_now wd) tr) | _ \<Rightarrow> tr)
      | ConcernTool c \<Rightarrow>
          (case inp of DispatchArgs i \<Rightarrow> snd (concern_tool c (wd_target wd) (wd_logs wd) (wd_downloads wd) (wd_session wd) i tr)
           | _ \<Rightarrow> tr)
      | JobsTool \<Rightarrow> (case inp of JobsArgs i \<Rightarrow> snd (jobs_tool (wd_target wd) (wd_session wd) i tr) | _ \<Rightarrow> tr)
      | SearchTool \<Rightarrow>
          (case inp of SearchArgs i \<Rightarrow> snd (search_methods (sv_enable_writes cfg) (wd_target wd) (wd_session wd) i tr) | _ \<Rightarrow> tr)
      | DescribeTool \<Rightarrow>
          (case inp of DescribeArgs i \<Rightarrow> snd (describe_method (sv_enable_writes cfg) (wd_target wd) (wd_session wd) i tr) | _ \<Rightarrow> tr)
      | CallTool \<Rightarrow>
          (case inp of CallArgs i \<Rightarrow> snd (call_method (sv_enable_writes cfg) (wd_target wd) (wd_session wd) i tr) | _ \<Rightarrow> tr)
      | WriteTool w \<Rightarrow> (case inp of WriteArgs i \<Rightarrow> snd (write_tool w (wd_target wd) (wd_session wd) i tr) | _ \<Rightarrow> tr)
      | ConfigTool w \<Rightarrow> (case inp of ConfigArgs i \<Rightarrow> snd (config_write_tool w (wd_target wd) (wd_session wd) i tr) | _ \<Rightarrow> tr)
      | SystemInfoTool \<Rightarrow> (case inp of NoInput \<Rightarrow> snd (system_info_tool (wd_target wd) (wd_session wd) tr) | _ \<Rightarrow> tr))"

definition find_tool :: "mcp_server \<Rightarrow> string \<Rightarrow> tool option" where
  "find_tool srv name = find (\<lambda>t. tl_name t = name) (ms_tools srv)"

definition request_calls :: "mcp_server \<Rightarrow> mcp_config \<Rightarrow> world \<Rightarrow> string \<Rightarrow> tool_input \<Rightarrow> trace \<Rightarrow> trace" where
  "request_calls srv cfg wd name inp tr =
     (case find_tool srv name of None \<Rightarrow> tr | Some t \<Rightarrow> handler_calls cfg wd (tl_handler t) inp tr)"

subsection \<open>What the read handlers call\<close>

definition inventory_methods :: "string list" where
  "inventory_methods = map sec_method inventorySections"

definition read_surface :: "string set" where
  "read_surface = (\<Union>c \<in> set ReadConcerns. concern_methods c) \<union> set inventory_methods \<union>
     {''core.get_methods'', ''core.get_jobs'', ''system.info''}"

text \<open>A handler's trace extends the one it is given by calls of a set of methods.\<close>

definition calls_within :: "string set \<Rightarrow> trace \<Rightarrow> trace \<Rightarrow> bool" where
  "calls_within ms tr tr' \<longleftrightarrow> (\<exists>cs. tr' = tr @ cs \<and> mc_method ` set cs \<subseteq> ms)"

lemma calls_within_refl [intro, simp]: "calls_within ms tr tr"
  by (simp add: calls_within_def)

lemma calls_within_one [intro]: "m \<in> ms \<Longrightarrow> calls_within ms tr (tr @ [\<lparr>mc_method = m, mc_params = ps\<rparr>])"
  by (simp add: calls_within_def)

lemma calls_within_mono: "calls_within ms tr tr' \<Longrightarrow> ms \<subseteq> ms' \<Longrightarrow> calls_within ms' tr tr'"
  unfolding calls_within_def by blast

lemma calls_within_trans:
  assumes "calls_within ms tr tr'" and "calls_within ms tr' tr''"
  shows "calls_within ms tr tr''"
proof -
  from assms obtain cs ds where "tr' = tr @ cs" "mc_method ` set cs \<subseteq> ms" "tr'' = tr' @ ds" "mc_method ` set ds \<subseteq> ms"
    unfolding calls_within_def by blast
  then have "tr'' = tr @ (cs @ ds)" "mc_method ` set (cs @ ds) \<subseteq> ms" by auto
  then show ?thesis unfolding calls_within_def by blast
qed

lemma fetch_calls: "calls_within (set inventory_methods) tr (snd (fetch mw order res tr))"
proof (induction order arbitrary: res tr)
  case Nil
  then show ?case by simp
next
  case (Cons i order)
  show ?case
  proof (cases "i < length inventorySections")
    case True
    then have "sec_method (inventorySections ! i) \<in> set inventory_methods"
      unfolding inventory_methods_def set_map by (intro imageI nth_mem)
    from calls_within_trans [OF calls_within_one [OF this] Cons.IH] True show ?thesis by simp
  next
    case False
    with Cons.IH show ?thesis by simp
  qed
qed

lemma get_methods_within: "''core.get_methods'' \<in> ms \<Longrightarrow> calls_within ms tr (tr @ [get_methods_call])"
  by (simp add: get_methods_call_def calls_within_one)

text \<open>Every handler but those of the mutating tools stays within the read surface.\<close>

definition reads_only :: "handler \<Rightarrow> bool" where
  "reads_only h \<longleftrightarrow> (case h of CallTool \<Rightarrow> False | WriteTool w \<Rightarrow> False | ConfigTool w \<Rightarrow> False
     | ConcernTool c \<Rightarrow> c \<in> set ReadConcerns | _ \<Rightarrow> True)"

lemma reader_calls:
  assumes "reads_only h"
  shows "calls_within read_surface tr (handler_calls cfg wd h inp tr)"
proof -
  have surface: "''core.get_methods'' \<in> read_surface" "''core.get_jobs'' \<in> read_surface" "''system.info'' \<in> read_surface"
    by (simp_all add: read_surface_def)
  have concern: "calls_within read_surface tr (snd (concern_tool c mw lenv denv sess di tr))"
    if "c \<in> set ReadConcerns" for c mw lenv denv sess di
    using concern_tool_trace [OF that, of mw lenv denv sess di tr] that
    unfolding calls_within_def read_surface_def by blast
  have inventory: "calls_within read_surface tr (snd (collectInventory mw order now tr))" for mw order now
  proof -
    have "snd (collectInventory mw order now tr) = snd (fetch mw order (\<lambda>_. Inr None) tr)"
      by (simp add: collectInventory_def case_prod_beta)
    moreover have "set inventory_methods \<subseteq> read_surface" by (auto simp: read_surface_def)
    ultimately show ?thesis using calls_within_mono [OF fetch_calls] by simp
  qed
  have jobs: "calls_within read_surface tr (snd (jobs_tool mw sess ji tr))" for mw sess ji
  proof -
    have "snd (jobs_tool mw sess ji tr) = tr \<or>
        (\<exists>ps. snd (jobs_tool mw sess ji tr) = tr @ [\<lparr>mc_method = ''core.get_jobs'', mc_params = ps\<rparr>])"
      using RecentJobs_trace [of mw _ tr] Job_trace [of mw _ tr]
      by (auto simp: jobs_tool_def Let_def split: option.split sum.split prod.split) (metis snd_conv)+
    then show ?thesis using surface by auto
  qed
  show ?thesis
    using assms concern inventory jobs surface get_methods_within [OF surface(1)]
    by (cases h; cases inp)
      (auto simp: handler_calls_def reads_only_def inventory_tool_def search_methods_def describe_method_def system_info_tool_def
        allMethods_def methodMetadata_def Let_def
        split: option.split sum.split prod.split)
qed

subsection \<open>The tables behind the surface\<close>

lemma concern_methods_table:
  "concern_methods c \<subseteq> set (map op_method (c_ops c)) \<union> {''app.container_ids'', ''core.subscribe'', ''core.download'', ''core.get_jobs''}"
  by (auto simp: concern_methods_def)

definition surface_table :: "string list" where
  "surface_table = concat (map (\<lambda>c. map op_method (c_ops c)) ReadConcerns) @ inventory_methods @
     [''app.container_ids'', ''core.subscribe'', ''core.download'', ''core.get_jobs'', ''core.get_methods'', ''system.info'']"

lemma read_surface_table: "read_surface \<subseteq> set surface_table"
  using concern_methods_table unfolding read_surface_def surface_table_def by fastforce

lemma inventory_methods_eq:
  "inventory_methods = [''system.info'', ''pool.query'', ''pool.dataset.query'', ''app.query'', ''vm.query'',
     ''container.query'', ''sharing.smb.query'', ''sharing.nfs.query'', ''alert.list'']"
  by (simp add: inventory_methods_def inventorySections_def section_of_def)

text \<open>No method of the surface changes anything the write tools change, and none is denied.\<close>

definition mutating_methods :: "string list" where
  "mutating_methods = map wo_method WriteOps @ map cw_method ConfigWrites @ DeniedMethods"

lemma surface_table_harmless: "list_all (\<lambda>m. m \<notin> set mutating_methods) surface_table"
  unfolding mutating_methods_def write_methods config_methods DeniedMethods_eq surface_table_def inventory_methods_eq
  by (simp add: ReadConcerns_def table_simps)

lemma read_surface_harmless: "read_surface \<inter> set mutating_methods = {}"
  using read_surface_table surface_table_harmless by (auto simp: list_all_iff)

lemma tool_handlers:
  "t \<in> set (ms_tools (NewMCPServer html cfg session)) \<Longrightarrow>
     an_read_only (tl_annotations t) \<longleftrightarrow> reads_only (tl_handler t)"
  by (auto simp: NewMCPServer_def registerInventory_def registerConcerns_def registerJobs_def registerDiscovery_def
      registerWrites_def registerConfigWrites_def reads_only_def readAnnotations_def writeAnnotations_def split: if_splits)

lemma concern_names:
  "map c_name ReadConcerns = [''storage'', ''system'', ''apps'', ''sharing'', ''virtualization'', ''backup'', ''filesystem'', ''catalog'']"
  by (simp add: ReadConcerns_def table_simps)

lemma tool_names:
  "map tl_name (ms_tools (NewMCPServer html cfg True)) =
     [''inventory'', ''server_info'', ''storage'', ''system'', ''apps'', ''sharing'', ''virtualization'', ''backup'',
      ''filesystem'', ''catalog'', ''jobs'', ''search_methods'', ''describe_method'', ''call_method''] @
     (if sv_enable_writes cfg then map wo_name WriteOps @ map cw_name ConfigWrites else []) @ [''system_info'']"
proof -
  have "map tl_name registerConcerns = map c_name ReadConcerns" by (simp add: registerConcerns_def)
  moreover have "map tl_name registerWrites = map wo_name WriteOps" by (simp add: registerWrites_def)
  moreover have "map tl_name registerConfigWrites = map cw_name ConfigWrites" by (simp add: registerConfigWrites_def)
  ultimately show ?thesis
    by (simp add: NewMCPServer_def registerInventory_def registerJobs_def registerDiscovery_def concern_names)
qed

lemma find_tool_in: "find_tool srv name = Some t \<Longrightarrow> t \<in> set (ms_tools srv) \<and> tl_name t = name"
  by (auto simp: find_tool_def find_Some_iff)

text \<open>With the write tier off \<^verbatim>\<open>call_method\<close> calls what the target reports as read-only, or an established read.\<close>

definition reported_read :: "go_error + raw \<Rightarrow> string \<Rightarrow> bool" where
  "reported_read r n \<longleftrightarrow>
     (case lookup_meta r n of
        None \<Rightarrow> False
      | Some m \<Rightarrow> if mm_roles m = [] then IsSafeUnroledRead n else meta_readOnly m)"

lemma reported_usable_read: "reported_usable False r n \<Longrightarrow> reported_read r n"
  by (cases "lookup_meta r n")
    (auto simp: reported_read_def reported_usable_def usable_def CheckDiscoverable_None meta_info_def meta_readOnly_def
      readOnlyRole_def split: if_splits)

lemma call_method_off_reads:
  "\<exists>cs. snd (call_method False mw sess ci tr) = tr @ cs \<and>
     list_all (\<lambda>k. mc_method k \<in> read_surface \<or>
       mc_method k = ci_method ci \<and> reported_read (mw tr get_methods_call) (ci_method ci)) cs"
proof -
  obtain cs where cs: "snd (call_method False mw sess ci tr) = tr @ cs"
    and shape: "cs = [] \<or> cs = [get_methods_call] \<or>
      cs = [get_methods_call, \<lparr>mc_method = ci_method ci, mc_params = ci_params ci\<rparr>] \<and>
      reported_usable False (mw tr get_methods_call) (ci_method ci)"
    using call_method_sends [of False mw sess ci tr] by blast
  have "mc_method get_methods_call \<in> read_surface" by (simp add: get_methods_call_def read_surface_def)
  with shape reported_usable_read [of "mw tr get_methods_call" "ci_method ci"] cs show ?thesis
    by (intro exI [of _ cs]) auto
qed

lemma not_reading_off:
  assumes "t \<in> set (ms_tools (NewMCPServer html (cfg\<lparr>sv_enable_writes := False\<rparr>) session))" and "\<not> reads_only (tl_handler t)"
  shows "tl_handler t = CallTool \<and> tl_name t = ''call_method''"
  using assms
  by (auto simp: NewMCPServer_def registerInventory_def registerConcerns_def registerJobs_def registerDiscovery_def
      reads_only_def split: if_splits)

subsection \<open>Properties\<close>

text \<open>
  The tool list is the policy. All names are different, so no registration replaces another; without a session
  there is only \<^verbatim>\<open>server_info\<close>; with the write tier off, the only tool not annotated read-only is \<^verbatim>\<open>call_method\<close> and the
  tasks extension is not declared; and turning the tier on adds exactly the fifteen mutating tools, none of them annotated read-only.
\<close>

theorem tool_list_is_policy:
  "(let on = ms_tools (NewMCPServer html (cfg\<lparr>sv_enable_writes := True\<rparr>) True);
        off = ms_tools (NewMCPServer html (cfg\<lparr>sv_enable_writes := False\<rparr>) True)
    in distinct (map tl_name on) \<and> distinct (map tl_name off) \<and>
       map tl_name (ms_tools (NewMCPServer html cfg False)) = [''server_info''] \<and>
       map tl_name (filter (\<lambda>t. \<not> an_read_only (tl_annotations t)) off) = [''call_method''] \<and>
       TasksExtensionID \<notin> set (ms_extensions (NewMCPServer html (cfg\<lparr>sv_enable_writes := False\<rparr>) True)) \<and>
       set on = set off \<union> set (registerWrites @ registerConfigWrites) \<and>
       set off \<inter> set (registerWrites @ registerConfigWrites) = {} \<and>
       list_all (\<lambda>t. \<not> an_read_only (tl_annotations t)) (registerWrites @ registerConfigWrites) \<and>
       length (registerWrites @ registerConfigWrites) = 15)"
proof -
  let ?on = "ms_tools (NewMCPServer html (cfg\<lparr>sv_enable_writes := True\<rparr>) True)"
  let ?off = "ms_tools (NewMCPServer html (cfg\<lparr>sv_enable_writes := False\<rparr>) True)"
  have names: "map wo_name WriteOps @ map cw_name ConfigWrites = map tl_name (registerWrites @ registerConfigWrites)"
    by (simp add: registerWrites_def registerConfigWrites_def)
  have mut: "list_all (\<lambda>t. \<not> an_read_only (tl_annotations t)) (registerWrites @ registerConfigWrites)"
    by (auto simp: list_all_iff registerWrites_def registerConfigWrites_def writeAnnotations_def)
  have n: "length (registerWrites @ registerConfigWrites) = 15"
  proof -
    have "length (registerWrites @ registerConfigWrites) = length (map wo_name WriteOps @ map cw_name ConfigWrites)"
      by (simp only: names length_map)
    then show ?thesis by (simp add: write_names config_names)
  qed
  have "distinct (map tl_name ?on)" "distinct (map tl_name ?off)"
    unfolding tool_names write_names config_names by simp_all
  moreover have off: "map tl_name (filter (\<lambda>t. \<not> an_read_only (tl_annotations t)) ?off) = [''call_method'']"
    by (simp add: NewMCPServer_def registerInventory_def registerConcerns_def registerJobs_def registerDiscovery_def
        readAnnotations_def writeAnnotations_def comp_def)
  moreover have "set ?off \<inter> set (registerWrites @ registerConfigWrites) = {}"
  proof -
    have "set (map tl_name ?off) \<inter> set (map tl_name (registerWrites @ registerConfigWrites)) = {}"
      unfolding tool_names names [symmetric] write_names config_names by simp
    then show ?thesis by auto
  qed
  ultimately show ?thesis
    using mut n by (auto simp: Let_def NewMCPServer_def TasksExtensionID_def ExtensionID_def)
qed

text \<open>
  The annotations are honest. Whatever the configuration and whatever is asked of it, a tool annotated read-only calls nothing but methods
  of the read surface, and none of these is a method of a mutating tool or denied.
\<close>

theorem annotations_honest:
  assumes "find_tool (NewMCPServer html cfg session) name = Some t" and "an_read_only (tl_annotations t)"
  shows "\<exists>cs. request_calls (NewMCPServer html cfg session) cfg wd name inp tr = tr @ cs \<and>
    list_all (\<lambda>k. mc_method k \<in> read_surface \<and>
      mc_method k \<notin> set (map wo_method WriteOps @ map cw_method ConfigWrites @ DeniedMethods)) cs"
proof -
  from find_tool_in [OF assms(1)] tool_handlers assms(2) have "reads_only (tl_handler t)" by blast
  from reader_calls [OF this, of tr cfg wd inp] obtain cs
    where "handler_calls cfg wd (tl_handler t) inp tr = tr @ cs" "mc_method ` set cs \<subseteq> read_surface"
    unfolding calls_within_def by blast
  with assms(1) read_surface_harmless show ?thesis
    by (intro exI [of _ cs]) (auto simp: request_calls_def list_all_iff mutating_methods_def)
qed


text \<open>
  A started job can be followed by the resource its answer names: whatever job id the target gave, reading the URI that the
  write tool hands out asks the target for that very job.
\<close>

theorem started_job_readable:
  assumes "w \<in> set AppWrites" and "fst (write_tool w mw sess inp tr) = Answered out"
  shows "read_job_resource mw' None (js_resource out) tr' =
    (case Job mw' (js_job_id out) tr' of (Inl e, tr'') \<Rightarrow> (ReadFailed e, tr'') | (Inr j, tr'') \<Rightarrow> (ReadJob j, tr''))"
proof -
  from assms(1) AppWrites_target have async: "\<not> wo_synchronous w" by (auto simp: list_all_iff)
  obtain jid tr1 where jid: "fst (CallJob mw (wo_method w) (input_params inp (input_target inp)) tr1) = Inr jid"
    and out: "js_job_id out = jid" "js_resource out = job_uri_prefix @ show_int jid"
    using assms(2) async
    by (auto simp: write_tool_def Let_def job_uri_prefix_def split: if_splits option.splits prod.splits sum.splits)
      (metis fst_conv)+
  have "scan_int64 (show_int jid) = Some jid" by (rule scan_show [OF CallJob_in_int64 [OF jid]])
  then show ?thesis
    by (simp add: read_job_resource_def out)
qed

definition example_world :: world where
  "example_world = \<lparr>wd_target = narrow_key, wd_logs = no_logs, wd_downloads = one_file_env, wd_schedule = [1, 0], wd_now = 0,
     wd_session = None\<rparr>"

lemma annotations_honest_witness:
  "\<exists>cs. request_calls (NewMCPServer [] \<lparr>sv_version = [], sv_target = [], sv_enable_writes = True\<rparr> True)
      \<lparr>sv_version = [], sv_target = [], sv_enable_writes = True\<rparr> example_world ''inventory'' NoInput [] = [] @ cs \<and>
    list_all (\<lambda>k. mc_method k \<in> read_surface \<and>
      mc_method k \<notin> set (map wo_method WriteOps @ map cw_method ConfigWrites @ DeniedMethods)) cs"
  by (rule annotations_honest [where t = "\<lparr>tl_name = ''inventory'', tl_annotations = readAnnotations ''Inventory'', tl_handler = InventoryTool\<rparr>"])
    (simp_all add: find_tool_def NewMCPServer_def registerInventory_def readAnnotations_def)

lemma started_job_readable_witness:
  "read_job_resource upgrade_middleware None (''truenas://job/'' @ show_int 42) [] =
    (case Job upgrade_middleware 42 [] of (Inl e, tr'') \<Rightarrow> (ReadFailed e, tr'') | (Inr j, tr'') \<Rightarrow> (ReadJob j, tr''))"
proof -
  let ?out = "\<lparr>js_job_id = 42, js_method = ''app.start'', js_target = ''plex'', js_resource = ''truenas://job/'' @ show_int 42,
         js_result = JNull, js_note = started_note\<rparr>"
  have w: "app_start_op \<in> set AppWrites" by (simp add: app_start_op_def AppWrites_def)
  then have w': "app_start_op \<in> set WriteOps" by (simp add: WriteOps_def)
  have t: "input_target (WriteTargetOnlyInput ''plex'') \<noteq> []" by simp
  have "fst (write_tool app_start_op upgrade_middleware None (WriteTargetOnlyInput ''plex'') []) = Answered ?out"
    unfolding write_tool_permitted [OF w' t]
    by (simp add: resolveTarget_def upgrade_middleware_def app_start_op_def write_zero_def CallJob_def in_int64_def
        target_query_def)
  from started_job_readable [OF w this, of upgrade_middleware "[]"] show ?thesis by simp
qed

end
