(* ===== verification/Base64.thy ===== *)
theory Base64
  imports Go_Prelude
begin

section \<open>Base64 without padding\<close>

text \<open>
  \<^verbatim>\<open>base64.RawURLEncoding\<close> of Go's standard library, which every sealed value and client id goes through.
  The decoder is not strict: it skips carriage returns and line feeds wherever they are, and ignores the
  bits of the last character that fill no byte. Several texts therefore decode to the same bytes.
\<close>

definition alphabet :: string where
  "alphabet = ''ABCDEFGHIJKLMNOPQRSTUVWXYZabcdefghijklmnopqrstuvwxyz0123456789-_''"

definition enc6 :: "nat \<Rightarrow> char" where
  "enc6 n = alphabet ! (n mod 64)"

fun index_of :: "char \<Rightarrow> string \<Rightarrow> nat option" where
  "index_of c [] = None"
| "index_of c (x # xs) = (if x = c then Some 0 else map_option Suc (index_of c xs))"

definition dec6 :: "char \<Rightarrow> nat option" where
  "dec6 c = index_of c alphabet"

definition octet :: "char \<Rightarrow> nat" where
  "octet c = of_char c"

definition char_of_octet :: "nat \<Rightarrow> char" where
  "char_of_octet n = char_of n"

fun base64_encode :: "string \<Rightarrow> string" where
  "base64_encode [] = []"
| "base64_encode [a] = [enc6 (octet a div 4), enc6 (octet a mod 4 * 16)]"
| "base64_encode [a, b] =
     [enc6 (octet a div 4), enc6 (octet a mod 4 * 16 + octet b div 16), enc6 (octet b mod 16 * 4)]"
| "base64_encode (a # b # c # r) =
     enc6 (octet a div 4) # enc6 (octet a mod 4 * 16 + octet b div 16) #
     enc6 (octet b mod 16 * 4 + octet c div 64) # enc6 (octet c mod 64) # base64_encode r"

text \<open>From sextets to bytes; a single sextet left over is an error.\<close>

fun join_sextets :: "nat list \<Rightarrow> string option" where
  "join_sextets [] = Some []"
| "join_sextets [a] = None"
| "join_sextets [a, b] = Some [char_of_octet (a * 4 + b div 16)]"
| "join_sextets [a, b, c] =
     Some [char_of_octet (a * 4 + b div 16), char_of_octet (b mod 16 * 16 + c div 4)]"
| "join_sextets (a # b # c # d # r) =
     map_option (\<lambda>s. char_of_octet (a * 4 + b div 16) # char_of_octet (b mod 16 * 16 + c div 4) #
         char_of_octet (c mod 4 * 64 + d) # s) (join_sextets r)"

fun dec_all6 :: "string \<Rightarrow> nat list option" where
  "dec_all6 [] = Some []"
| "dec_all6 (c # cs) =
     (case dec6 c of None \<Rightarrow> None | Some n \<Rightarrow> map_option (\<lambda>ns. n # ns) (dec_all6 cs))"

definition line_break :: "char \<Rightarrow> bool" where
  "line_break c \<longleftrightarrow> c = CHR 0x0A \<or> c = CHR 0x0D"

definition base64_decode :: "string \<Rightarrow> string option" where
  "base64_decode s = Option.bind (dec_all6 (filter (\<lambda>c. \<not> line_break c) s)) join_sextets"

subsection \<open>Decoding what was encoded\<close>

lemma length_alphabet [simp]: "length alphabet = 64"
  by (simp add: alphabet_def)

lemma distinct_alphabet: "distinct alphabet"
  by (simp add: alphabet_def)

lemma index_of_nth: "distinct xs \<Longrightarrow> n < length xs \<Longrightarrow> index_of (xs ! n) xs = Some n"
  by (induction xs arbitrary: n) (auto simp: nth_Cons split: nat.split)

lemma dec6_enc6: "n < 64 \<Longrightarrow> dec6 (enc6 n) = Some n"
  by (simp add: dec6_def enc6_def index_of_nth distinct_alphabet)

lemma line_breaks_outside: "\<not> line_break (enc6 n)"
proof -
  have "list_all (\<lambda>c. \<not> line_break c) alphabet" by (simp add: alphabet_def line_break_def)
  moreover have "enc6 n \<in> set alphabet" by (simp add: enc6_def)
  ultimately show ?thesis by (auto simp: list_all_iff)
qed

lemma octet_less: "octet c < 256"
  by (simp add: octet_def nat_of_char_less_256)

lemma char_of_octet_octet [simp]: "char_of_octet (octet c) = c"
  by (simp add: char_of_octet_def octet_def)

lemma octet_parts:
  "octet a div 4 < 64" "octet a mod 4 * 16 + octet b div 16 < 64" "octet a mod 4 * 16 < 64"
  "octet b mod 16 * 4 + octet c div 64 < 64" "octet b mod 16 * 4 < 64" "octet c mod 64 < 64"
proof -
  have hi: "octet a div 4 < 64" "octet b div 16 < 16" "octet c div 64 < 4"
    using octet_less [of a] octet_less [of b] octet_less [of c] by simp_all
  have lo: "octet a mod 4 < 4" "octet b mod 16 < 16" "octet c mod 64 < 64" by simp_all
  show "octet a div 4 < 64" "octet c mod 64 < 64" using hi lo by simp_all
  show "octet a mod 4 * 16 + octet b div 16 < 64" "octet a mod 4 * 16 < 64"
    "octet b mod 16 * 4 + octet c div 64 < 64" "octet b mod 16 * 4 < 64"
    using hi lo by linarith+
qed

lemma octet_join1:
  assumes "r < 16"
  shows "char_of_octet (octet a div 4 * 4 + (octet a mod 4 * 16 + r) div 16) = a"
proof -
  have "(octet a mod 4 * 16 + r) div 16 = octet a mod 4" using assms by simp
  then show ?thesis by simp
qed

lemma octet_join2:
  assumes "q < 4" and "r < 4"
  shows "char_of_octet ((q * 16 + octet b div 16) mod 16 * 16 + (octet b mod 16 * 4 + r) div 4) = b"
proof -
  have "octet b div 16 < 16" using octet_less [of b] by simp
  then have "(q * 16 + octet b div 16) mod 16 = octet b div 16" by simp
  moreover have "(octet b mod 16 * 4 + r) div 4 = octet b mod 16" using assms(2) by simp
  ultimately show ?thesis by simp
qed

lemma octet_join3: "char_of_octet ((p * 4 + octet c div 64) mod 4 * 64 + octet c mod 64) = c"
proof -
  have "octet c div 64 < 4" using octet_less [of c] by simp
  then have "(p * 4 + octet c div 64) mod 4 = octet c div 64" by simp
  then show ?thesis by simp
qed

lemma encode_clean: "filter (\<lambda>c. \<not> line_break c) (base64_encode s) = base64_encode s"
  by (induction s rule: base64_encode.induct) (simp_all add: line_breaks_outside)

lemma decode_sextets: "Option.bind (dec_all6 (base64_encode s)) join_sextets = Some s"
proof (induction s rule: base64_encode.induct)
  case 1
  then show ?case by simp
next
  case (2 a)
  then show ?case using octet_join1 [of 0 a] by (simp add: dec6_enc6 octet_parts)
next
  case (3 a b)
  have "octet b div 16 < 16" using octet_less [of b] by simp
  then show ?case using octet_join1 [of "octet b div 16" a] octet_join2 [of "octet a mod 4" 0 b]
    by (simp add: dec6_enc6 octet_parts)
next
  case (4 a b c r)
  have lt: "octet b div 16 < 16" "octet c div 64 < 4" using octet_less [of b] octet_less [of c] by simp_all
  from 4 obtain ns where ns: "dec_all6 (base64_encode r) = Some ns" "join_sextets ns = Some r"
    by (cases "dec_all6 (base64_encode r)") auto
  with octet_join1 [OF lt(1), of a] octet_join2 [of "octet a mod 4" "octet c div 64" b]
    octet_join3 [of "octet b mod 16" c] lt
  show ?case by (simp add: dec6_enc6 octet_parts)
qed

lemma base64_roundtrip [simp]: "base64_decode (base64_encode s) = Some s"
  by (simp add: base64_decode_def encode_clean decode_sextets)

text \<open>A line feed anywhere changes the text and not what it decodes to.\<close>

lemma base64_line_feed: "base64_decode (s @ [CHR 0x0A]) = base64_decode s"
  by (simp add: base64_decode_def line_break_def)

text \<open>The encoding uses its alphabet only, so it never holds the separator of a client id.\<close>

lemma base64_alphabet: "set (base64_encode s) \<subseteq> set alphabet"
  by (induction s rule: base64_encode.induct) (auto simp: enc6_def)

lemma dot_outside: "CHR ''.'' \<notin> set (base64_encode s)"
proof -
  have "CHR ''.'' \<notin> set alphabet" by (simp add: alphabet_def)
  then show ?thesis using base64_alphabet [of s] by blast
qed

end
