(* ===== verification/Json_Codec.thy ===== *)
theory Json_Codec
  imports Utf8
begin

section \<open>A codec of JSON trees for examples\<close>

text \<open>
  The encoder and decoder of sealed values are parameters of the model, with the law that decoding undoes encoding. The
  examples need one that computes: values are written with a tag and lengths in unary. It is not the text of JSON.
\<close>

definition unary :: "nat \<Rightarrow> string" where
  "unary n = replicate n (CHR ''x'') @ ''y''"

fun get_unary :: "string \<Rightarrow> (nat \<times> string) option" where
  "get_unary [] = None"
| "get_unary (c # cs) =
     (if c = CHR ''x'' then (case get_unary cs of None \<Rightarrow> None | Some (n, r) \<Rightarrow> Some (Suc n, r)) else Some (0, cs))"

lemma length_unary [simp]: "length (unary n) = Suc n"
  by (simp add: unary_def)

lemma get_unary [simp]: "get_unary (unary n @ r) = Some (n, r)"
  by (induction n) (simp_all add: unary_def)

definition put_string :: "string \<Rightarrow> string" where
  "put_string s = unary (length s) @ s"

definition get_string :: "string \<Rightarrow> (string \<times> string) option" where
  "get_string s = (case get_unary s of None \<Rightarrow> None | Some (n, r) \<Rightarrow> Some (take n r, drop n r))"

lemma get_string [simp]: "get_string (put_string s @ r) = Some (s, r)"
  by (simp add: get_string_def put_string_def)

fun put_json :: "json \<Rightarrow> string"
  and put_list :: "json list \<Rightarrow> string"
  and put_members :: "(string \<times> json) list \<Rightarrow> string" where
  "put_json JNull = ''n''"
| "put_json (JBool b) = (if b then ''t'' else ''f'')"
| "put_json (JInt i) = (if i < 0 then ''-'' @ unary (nat (- i)) else ''+'' @ unary (nat i))"
| "put_json (JFloat q) = ''n''"
| "put_json (JStr s) = ''s'' @ put_string s"
| "put_json (JArr xs) = ''a'' @ unary (length xs) @ put_list xs"
| "put_json (JObj m) = ''o'' @ unary (length m) @ put_members m"
| "put_list [] = []"
| "put_list (x # xs) = put_json x @ put_list xs"
| "put_members [] = []"
| "put_members ((k, x) # m) = put_string k @ put_json x @ put_members m"

fun get_json :: "nat \<Rightarrow> string \<Rightarrow> (json \<times> string) option"
  and get_list :: "nat \<Rightarrow> nat \<Rightarrow> string \<Rightarrow> (json list \<times> string) option"
  and get_members :: "nat \<Rightarrow> nat \<Rightarrow> string \<Rightarrow> ((string \<times> json) list \<times> string) option" where
  "get_json 0 s = None"
| "get_json (Suc f) [] = None"
| "get_json (Suc f) (c # r) =
     (if c = CHR ''t'' then Some (JBool True, r)
      else if c = CHR ''f'' then Some (JBool False, r)
      else if c = CHR ''+'' then (case get_unary r of None \<Rightarrow> None | Some (n, r') \<Rightarrow> Some (JInt (int n), r'))
      else if c = CHR ''-'' then (case get_unary r of None \<Rightarrow> None | Some (n, r') \<Rightarrow> Some (JInt (- int n), r'))
      else if c = CHR ''s'' then (case get_string r of None \<Rightarrow> None | Some (s, r') \<Rightarrow> Some (JStr s, r'))
      else if c = CHR ''a'' then
        (case get_unary r of
           None \<Rightarrow> None
         | Some (n, r') \<Rightarrow> (case get_list f n r' of None \<Rightarrow> None | Some (xs, r'') \<Rightarrow> Some (JArr xs, r'')))
      else if c = CHR ''o'' then
        (case get_unary r of
           None \<Rightarrow> None
         | Some (n, r') \<Rightarrow> (case get_members f n r' of None \<Rightarrow> None | Some (m, r'') \<Rightarrow> Some (JObj m, r'')))
      else Some (JNull, r))"
| "get_list f 0 s = Some ([], s)"
| "get_list 0 (Suc n) s = None"
| "get_list (Suc f) (Suc n) s =
     (case get_json f s of
        None \<Rightarrow> None
      | Some (x, r) \<Rightarrow> (case get_list f n r of None \<Rightarrow> None | Some (xs, r') \<Rightarrow> Some (x # xs, r')))"
| "get_members f 0 s = Some ([], s)"
| "get_members 0 (Suc n) s = None"
| "get_members (Suc f) (Suc n) s =
     (case get_string s of
        None \<Rightarrow> None
      | Some (k, r) \<Rightarrow>
          (case get_json f r of
             None \<Rightarrow> None
           | Some (x, r') \<Rightarrow>
               (case get_members f n r' of None \<Rightarrow> None | Some (m, r'') \<Rightarrow> Some ((k, x) # m, r''))))"

text \<open>A text of length \<open>n\<close> is decoded within \<open>n\<close> levels.\<close>

fun no_float :: "json \<Rightarrow> bool"
  and no_floats :: "json list \<Rightarrow> bool"
  and no_float_members :: "(string \<times> json) list \<Rightarrow> bool" where
  "no_float (JFloat q) = False"
| "no_float (JArr xs) = no_floats xs"
| "no_float (JObj m) = no_float_members m"
| "no_float _ = True"
| "no_floats [] = True"
| "no_floats (x # xs) = (no_float x \<and> no_floats xs)"
| "no_float_members [] = True"
| "no_float_members ((k, x) # m) = (no_float x \<and> no_float_members m)"

lemma get_put_json:
  "no_float j \<Longrightarrow> length (put_json j) \<le> f \<Longrightarrow> get_json f (put_json j @ r) = Some (j, r)"
  "no_floats xs \<Longrightarrow> length xs + length (put_list xs) \<le> f \<Longrightarrow> get_list f (length xs) (put_list xs @ r) = Some (xs, r)"
  "no_float_members m \<Longrightarrow> length m + length (put_members m) \<le> f \<Longrightarrow> get_members f (length m) (put_members m @ r) = Some (m, r)"
proof (induction j and xs and m arbitrary: f r and f r and f r rule: put_json_put_list_put_members.induct)
  case (2 b)
  then show ?case by (cases f; cases b) simp_all
next
  case (3 i)
  then show ?case by (cases f) (simp_all split: if_splits)
next
  case (6 xs)
  from 6 obtain g where "f = Suc g" and g: "length xs + length (put_list xs) \<le> g" by (cases f) simp_all
  with 6 show ?case by simp
next
  case (7 m)
  from 7 obtain g where "f = Suc g" and g: "length m + length (put_members m) \<le> g" by (cases f) simp_all
  with 7 show ?case by simp
next
  case (9 x xs)
  from 9 obtain g where "f = Suc g" and "length (put_json x) \<le> g" "length xs + length (put_list xs) \<le> g" by (cases f) simp_all
  with 9 show ?case by simp
next
  case (11 k x m)
  from 11 obtain g where "f = Suc g" and "length (put_json x) \<le> g" "length m + length (put_members m) \<le> g" by (cases f) simp_all
  with 11 show ?case by simp
next
  case 1
  then show ?case by (cases f) simp_all
next
  case (5 s)
  then show ?case by (cases f) simp_all
qed simp_all

end
