(* ===== verification/OAuth_Tokens.thy ===== *)
theory OAuth_Tokens
  imports Base64 Json_Codec
begin

section \<open>Sealed values\<close>

text \<open>
  \<^verbatim>\<open>internal/oauth/seal.go\<close>, \<^verbatim>\<open>token.go\<close>, \<^verbatim>\<open>code.go\<close>, \<^verbatim>\<open>client.go\<close>, \<^verbatim>\<open>keys.go\<close> and
  \<^verbatim>\<open>credential.go\<close>: access tokens, refresh tokens and authorization codes, which are payloads encrypted
  under one key and bound to a purpose, and client ids, which are payloads with a message authentication
  code. The server stores none of them.

  The cryptographic primitives and the text form of JSON are a parameter: AES-GCM sealing and opening
  under a key, a nonce and additional data, HMAC-SHA256, SHA-256, and marshalling of a JSON value to text
  and back. The hypothesis \<open>crypto_ok\<close> says what the code relies on: opening reverses sealing, opening
  with other additional data fails, and unmarshalling reverses marshalling for values whose strings are
  valid UTF-8 and whose numbers are 64-bit integers. Every failure to open is the one error
  \<^verbatim>\<open>ErrInvalidToken\<close>, here \<^term>\<open>None\<close>.
\<close>

record crypto =
  cy_seal :: "string \<Rightarrow> string \<Rightarrow> string \<Rightarrow> string \<Rightarrow> string"
  cy_open :: "string \<Rightarrow> string \<Rightarrow> string \<Rightarrow> string \<Rightarrow> string option"
  cy_hmac :: "string \<Rightarrow> string \<Rightarrow> string"
  cy_sha256 :: "string \<Rightarrow> string"
  cy_marshal :: "json \<Rightarrow> string"
  cy_unmarshal :: "string \<Rightarrow> json option"

function plain_json :: "json \<Rightarrow> bool" where
  "plain_json (JObj m) = list_all (\<lambda>p. utf8_valid (fst p) \<and> plain_json (snd p)) m"
| "plain_json (JArr xs) = list_all plain_json xs"
| "plain_json JNull = True"
| "plain_json (JBool b) = True"
| "plain_json (JInt i) = in_int64 i"
| "plain_json (JFloat r) = False"
| "plain_json (JStr s) = utf8_valid s"
  by pat_completeness auto
termination
  by (relation "measure size") (auto simp: json_member_size size_list_estimation' less_Suc_eq_le intro: size_list_estimation')

definition nonceSize :: nat where "nonceSize = 12"

definition crypto_ok :: "crypto \<Rightarrow> bool" where
  "crypto_ok cy \<longleftrightarrow>
     (\<forall>k n a t. length n = nonceSize \<longrightarrow> cy_open cy k n a (cy_seal cy k n a t) = Some t) \<and>
     (\<forall>k n a a' t. length n = nonceSize \<and> a \<noteq> a' \<longrightarrow> cy_open cy k n a' (cy_seal cy k n a t) = None) \<and>
     (\<forall>j. plain_json j \<longrightarrow> cy_unmarshal cy (cy_marshal cy j) = Some j)"

subsection \<open>Keys\<close>

record keys =
  ky_aead :: string
  ky_hmac :: string

definition labelKey :: "crypto \<Rightarrow> string \<Rightarrow> string \<Rightarrow> string" where
  "labelKey cy master label = cy_hmac cy master label"

definition DeriveKeys :: "crypto \<Rightarrow> string \<Rightarrow> keys" where
  "DeriveKeys cy master =
     \<lparr>ky_aead = labelKey cy master ''truenas-mcp-oauth-aead-v1'',
      ky_hmac = labelKey cy master ''truenas-mcp-oauth-hmac-v1''\<rparr>"

definition hex_value :: "char \<Rightarrow> nat option" where
  "hex_value c =
     (let n = octet c
      in if 48 \<le> n \<and> n \<le> 57 then Some (n - 48)
         else if 97 \<le> n \<and> n \<le> 102 then Some (n - 87)
         else if 65 \<le> n \<and> n \<le> 70 then Some (n - 55) else None)"

fun hex_decode :: "string \<Rightarrow> string option" where
  "hex_decode [] = Some []"
| "hex_decode [c] = None"
| "hex_decode (a # b # r) =
     (case (hex_value a, hex_value b) of
        (Some x, Some y) \<Rightarrow> map_option (\<lambda>s. char_of_octet (16 * x + y) # s) (hex_decode r)
      | _ \<Rightarrow> None)"

datatype key_error = WrongLength nat | NotHex

definition ParseMasterKey :: "string \<Rightarrow> key_error + string" where
  "ParseMasterKey hexKey =
     (if length hexKey \<noteq> 64 then Inl (WrongLength (length hexKey))
      else case hex_decode hexKey of None \<Rightarrow> Inl NotHex | Some b \<Rightarrow> Inr b)"

text \<open>\<^verbatim>\<open>ResolveMasterKey\<close>, the fresh random key being an argument; the flag says it was generated.\<close>

definition ResolveMasterKey :: "string \<Rightarrow> string \<Rightarrow> key_error + string \<times> bool" where
  "ResolveMasterKey fresh hexKey =
     (if hexKey = [] then Inr (fresh, True)
      else case ParseMasterKey hexKey of Inl e \<Rightarrow> Inl e | Inr k \<Rightarrow> Inr (k, False))"

subsection \<open>Sealing\<close>

text \<open>The nonce is an argument; \<^term>\<open>None\<close> when the randomness source failed.\<close>

definition seal :: "crypto \<Rightarrow> keys \<Rightarrow> string option \<Rightarrow> string \<Rightarrow> json \<Rightarrow> string option" where
  "seal cy ks nonce purpose payload =
     (case nonce of
        None \<Rightarrow> None
      | Some n \<Rightarrow> Some (base64_encode (n @ cy_seal cy (ky_aead ks) n purpose (cy_marshal cy payload))))"

definition open_sealed :: "crypto \<Rightarrow> keys \<Rightarrow> string \<Rightarrow> string \<Rightarrow> json option" where
  "open_sealed cy ks purpose token =
     (case base64_decode token of
        None \<Rightarrow> None
      | Some raw \<Rightarrow>
          if length raw < nonceSize then None
          else (case cy_open cy (ky_aead ks) (take nonceSize raw) purpose (drop nonceSize raw) of
            None \<Rightarrow> None
          | Some plaintext \<Rightarrow> cy_unmarshal cy plaintext))"

subsection \<open>Payloads\<close>

record credential =
  cd_username :: string
  cd_api_key :: string

definition credential_json :: "credential \<Rightarrow> json" where
  "credential_json c = JObj (opt_str ''username'' (cd_username c) @ [(''api_key'', JStr (cd_api_key c))])"

definition dec_credential :: "json option \<Rightarrow> credential option" where
  "dec_credential j =
     (case j of
        None \<Rightarrow> Some \<lparr>cd_username = [], cd_api_key = []\<rparr>
      | Some v \<Rightarrow>
          (case dec_struct (Some v) of
             None \<Rightarrow> None
           | Some kvs \<Rightarrow>
               (case (dec_string (jfield ''username'' kvs), dec_string (jfield ''api_key'' kvs)) of
                  (Some u, Some k) \<Rightarrow> Some \<lparr>cd_username = u, cd_api_key = k\<rparr>
                | _ \<Rightarrow> None)))"

record token_payload =
  tp_credential :: credential
  tp_expires :: int

definition token_payload_json :: "token_payload \<Rightarrow> json" where
  "token_payload_json p = JObj [(''credential'', credential_json (tp_credential p)), (''expires_at'', JInt (tp_expires p))]"

definition dec_token_payload :: "json \<Rightarrow> token_payload option" where
  "dec_token_payload j =
     (case dec_struct (Some j) of
        None \<Rightarrow> None
      | Some kvs \<Rightarrow>
          (case (dec_credential (jfield ''credential'' kvs), dec_int64 (jfield ''expires_at'' kvs)) of
             (Some c, Some e) \<Rightarrow> Some \<lparr>tp_credential = c, tp_expires = e\<rparr>
           | _ \<Rightarrow> None))"

record code_payload =
  cp_credential :: credential
  cp_client_id :: string
  cp_redirect_uri :: string
  cp_code_challenge :: string
  cp_expires :: int

definition code_payload_json :: "code_payload \<Rightarrow> json" where
  "code_payload_json p = JObj [(''credential'', credential_json (cp_credential p)),
     (''client_id'', JStr (cp_client_id p)), (''redirect_uri'', JStr (cp_redirect_uri p)),
     (''code_challenge'', JStr (cp_code_challenge p)), (''expires_at'', JInt (cp_expires p))]"

definition dec_code_payload :: "json \<Rightarrow> code_payload option" where
  "dec_code_payload j =
     (case dec_struct (Some j) of
        None \<Rightarrow> None
      | Some kvs \<Rightarrow>
          (case (dec_credential (jfield ''credential'' kvs), dec_string (jfield ''client_id'' kvs),
                 dec_string (jfield ''redirect_uri'' kvs), dec_string (jfield ''code_challenge'' kvs),
                 dec_int64 (jfield ''expires_at'' kvs)) of
             (Some c, Some i, Some r, Some ch, Some e) \<Rightarrow>
               Some \<lparr>cp_credential = c, cp_client_id = i, cp_redirect_uri = r, cp_code_challenge = ch, cp_expires = e\<rparr>
           | _ \<Rightarrow> None))"

text \<open>Go's \<^verbatim>\<open>Time.Unix\<close> of a time in nanoseconds.\<close>

definition unix_seconds :: "int \<Rightarrow> int" where
  "unix_seconds t = t div 1000000000"

subsection \<open>Tokens\<close>

definition accessTokenPurpose :: string where "accessTokenPurpose = ''tnmcp_at_v1''"
definition refreshTokenPurpose :: string where "refreshTokenPurpose = ''tnmcp_rt_v1''"
definition AccessTokenPrefix :: string where "AccessTokenPrefix = ''tnmcp_at_''"
definition RefreshTokenPrefix :: string where "RefreshTokenPrefix = ''tnmcp_rt_''"

definition encodeToken ::
  "crypto \<Rightarrow> keys \<Rightarrow> string option \<Rightarrow> string \<Rightarrow> string \<Rightarrow> credential \<Rightarrow> int \<Rightarrow> int \<Rightarrow> string option" where
  "encodeToken cy ks nonce purpose prefix cred ttl now =
     map_option (\<lambda>token. prefix @ token)
       (seal cy ks nonce purpose
          (token_payload_json \<lparr>tp_credential = cred, tp_expires = unix_seconds (now + ttl)\<rparr>))"

definition decodeToken :: "crypto \<Rightarrow> keys \<Rightarrow> string \<Rightarrow> string \<Rightarrow> string \<Rightarrow> int \<Rightarrow> token_payload option" where
  "decodeToken cy ks purpose prefix token now =
     (case cut_prefix prefix token of
        None \<Rightarrow> None
      | Some body \<Rightarrow>
          (case Option.bind (open_sealed cy ks purpose body) dec_token_payload of
             None \<Rightarrow> None
           | Some payload \<Rightarrow> if tp_expires payload \<le> unix_seconds now then None else Some payload))"

definition EncodeAccessToken :: "crypto \<Rightarrow> keys \<Rightarrow> string option \<Rightarrow> credential \<Rightarrow> int \<Rightarrow> int \<Rightarrow> string option" where
  "EncodeAccessToken cy ks nonce cred ttl now = encodeToken cy ks nonce accessTokenPurpose AccessTokenPrefix cred ttl now"

definition DecodeAccessToken :: "crypto \<Rightarrow> keys \<Rightarrow> string \<Rightarrow> int \<Rightarrow> token_payload option" where
  "DecodeAccessToken cy ks token now = decodeToken cy ks accessTokenPurpose AccessTokenPrefix token now"

definition EncodeRefreshToken :: "crypto \<Rightarrow> keys \<Rightarrow> string option \<Rightarrow> credential \<Rightarrow> int \<Rightarrow> int \<Rightarrow> string option" where
  "EncodeRefreshToken cy ks nonce cred ttl now = encodeToken cy ks nonce refreshTokenPurpose RefreshTokenPrefix cred ttl now"

definition DecodeRefreshToken :: "crypto \<Rightarrow> keys \<Rightarrow> string \<Rightarrow> int \<Rightarrow> token_payload option" where
  "DecodeRefreshToken cy ks token now = decodeToken cy ks refreshTokenPurpose RefreshTokenPrefix token now"

definition IsAccessToken :: "string \<Rightarrow> bool" where
  "IsAccessToken token = has_prefix AccessTokenPrefix token"

subsection \<open>Authorization codes\<close>

definition codePurpose :: string where "codePurpose = ''tnmcp_code_v1''"
definition CodePrefix :: string where "CodePrefix = ''tnmcp_code_''"
definition CodeTTL :: int where "CodeTTL = 60 * 1000000000"

definition EncodeCode :: "crypto \<Rightarrow> keys \<Rightarrow> string option \<Rightarrow> code_payload \<Rightarrow> int \<Rightarrow> string option" where
  "EncodeCode cy ks nonce payload now =
     map_option (\<lambda>token. CodePrefix @ token)
       (seal cy ks nonce codePurpose (code_payload_json (payload\<lparr>cp_expires := unix_seconds (now + CodeTTL)\<rparr>)))"

definition DecodeCode :: "crypto \<Rightarrow> keys \<Rightarrow> string \<Rightarrow> int \<Rightarrow> code_payload option" where
  "DecodeCode cy ks code now =
     (case cut_prefix CodePrefix code of
        None \<Rightarrow> None
      | Some body \<Rightarrow>
          (case Option.bind (open_sealed cy ks codePurpose body) dec_code_payload of
             None \<Rightarrow> None
           | Some payload \<Rightarrow> if cp_expires payload \<le> unix_seconds now then None else Some payload))"

fun hex_encode :: "string \<Rightarrow> string" where
  "hex_encode [] = []"
| "hex_encode (c # cs) = hex_digit (octet c div 16) # hex_digit (octet c mod 16) # hex_encode cs"

definition CodeReplayID :: "crypto \<Rightarrow> string \<Rightarrow> string" where
  "CodeReplayID cy code = hex_encode (cy_sha256 cy code)"

subsection \<open>Client ids\<close>

definition ClientIDPrefix :: string where "ClientIDPrefix = ''tnmcp_client_''"

record client_metadata =
  cm_redirect_uris :: "string list"
  cm_client_name :: string
  cm_created_at :: int

definition client_metadata_json :: "client_metadata \<Rightarrow> json" where
  "client_metadata_json m = JObj ([(''redirect_uris'', JArr (map JStr (cm_redirect_uris m)))] @
     opt_str ''client_name'' (cm_client_name m) @ [(''created_at'', JInt (cm_created_at m))])"

text \<open>An absent or null list decodes to the nil slice.\<close>

definition dec_strings :: "json option \<Rightarrow> string list option" where
  "dec_strings j = (case j of
     None \<Rightarrow> Some []
   | Some v \<Rightarrow> Option.bind (dec_slice (Some v)) (dec_each (\<lambda>x. dec_string (Some x))))"

definition dec_client_metadata :: "json \<Rightarrow> client_metadata option" where
  "dec_client_metadata j =
     (case dec_struct (Some j) of
        None \<Rightarrow> None
      | Some kvs \<Rightarrow>
          (case (dec_strings (jfield ''redirect_uris'' kvs), dec_string (jfield ''client_name'' kvs),
                 dec_int64 (jfield ''created_at'' kvs)) of
             (Some us, Some n, Some t) \<Rightarrow> Some \<lparr>cm_redirect_uris = us, cm_client_name = n, cm_created_at = t\<rparr>
           | _ \<Rightarrow> None))"

definition EncodeClientID :: "crypto \<Rightarrow> keys \<Rightarrow> client_metadata \<Rightarrow> string" where
  "EncodeClientID cy ks meta =
     (let payload = cy_marshal cy (client_metadata_json meta)
      in ClientIDPrefix @ base64_encode payload @ ''.'' @ base64_encode (cy_hmac cy (ky_hmac ks) payload))"

definition DecodeClientID :: "crypto \<Rightarrow> keys \<Rightarrow> string \<Rightarrow> client_metadata option" where
  "DecodeClientID cy ks clientID =
     (case cut_prefix ClientIDPrefix clientID of
        None \<Rightarrow> None
      | Some body \<Rightarrow>
          (case cut_char (CHR ''.'') body of
             None \<Rightarrow> None
           | Some (payloadPart, sigPart) \<Rightarrow>
               (case (base64_decode payloadPart, base64_decode sigPart) of
                  (Some payload, Some wantSig) \<Rightarrow>
                    if cy_hmac cy (ky_hmac ks) payload \<noteq> wantSig then None
                    else Option.bind (cy_unmarshal cy payload) dec_client_metadata
                | _ \<Rightarrow> None)))"

definition ValidateRedirectURI :: "client_metadata \<Rightarrow> string \<Rightarrow> bool" where
  "ValidateRedirectURI meta uri \<longleftrightarrow> uri \<in> set (cm_redirect_uris meta)"

subsection \<open>Lemmas\<close>

definition nonce_ok :: "string option \<Rightarrow> bool" where
  "nonce_ok n \<longleftrightarrow> (case n of None \<Rightarrow> False | Some s \<Rightarrow> length s = nonceSize)"

lemma seal_Some: "nonce_ok nonce \<Longrightarrow> \<exists>body. seal cy ks nonce purpose j = Some body"
  by (auto simp: nonce_ok_def seal_def split: option.splits)

lemma open_seal:
  assumes "crypto_ok cy" and "nonce_ok nonce" and "seal cy ks nonce purpose j = Some body"
  shows "open_sealed cy ks purpose' body =
    (if purpose' = purpose then cy_unmarshal cy (cy_marshal cy j) else None)"
proof -
  from assms(2) obtain n where n: "nonce = Some n" "length n = nonceSize"
    by (auto simp: nonce_ok_def split: option.splits)
  with assms(3) have body: "body = base64_encode (n @ cy_seal cy (ky_aead ks) n purpose (cy_marshal cy j))"
    by (simp add: seal_def)
  have "cy_open cy (ky_aead ks) n purpose' (cy_seal cy (ky_aead ks) n purpose (cy_marshal cy j)) =
      (if purpose' = purpose then Some (cy_marshal cy j) else None)"
    using assms(1) n(2) by (auto simp: crypto_ok_def)
  then show ?thesis by (simp add: open_sealed_def body n(2))
qed

lemma unmarshal_plain: "crypto_ok cy \<Longrightarrow> plain_json j \<Longrightarrow> cy_unmarshal cy (cy_marshal cy j) = Some j"
  by (simp add: crypto_ok_def)

text \<open>What can be carried by JSON unchanged.\<close>

definition credential_ok :: "credential \<Rightarrow> bool" where
  "credential_ok c \<longleftrightarrow> utf8_valid (cd_username c) \<and> utf8_valid (cd_api_key c)"

lemma ascii_utf8: "list_all (\<lambda>c. (of_char c :: nat) < 128) s \<Longrightarrow> utf8_valid s"
proof (induction s)
  case (Cons a s)
  then have "rune_size (a # s) = Some 1" by (simp add: rune_size_def byte_def)
  with Cons show ?case by (simp add: utf8_valid_rune)
qed simp

lemma utf8_base64 [simp]: "utf8_valid (base64_encode s)"
proof -
  have "list_all (\<lambda>c. (of_char c :: nat) < 128) alphabet" by (simp add: alphabet_def)
  then have "list_all (\<lambda>c. (of_char c :: nat) < 128) (base64_encode s)"
    using base64_alphabet [of s] by (auto simp: list_all_iff)
  then show ?thesis by (rule ascii_utf8)
qed

lemma payload_keys_utf8 [simp]:
  "utf8_valid ''username''" "utf8_valid ''api_key''" "utf8_valid ''credential''" "utf8_valid ''expires_at''"
  "utf8_valid ''client_id''" "utf8_valid ''redirect_uri''" "utf8_valid ''code_challenge''"
  "utf8_valid ''redirect_uris''" "utf8_valid ''client_name''" "utf8_valid ''created_at''"
  by (rule ascii_utf8, simp)+

lemma plain_credential: "credential_ok c \<Longrightarrow> plain_json (credential_json c)"
  by (simp add: credential_ok_def credential_json_def opt_str_def)

lemma dec_credential_json: "dec_credential (Some (credential_json c)) = Some c"
  by (cases c) (auto simp: dec_credential_def credential_json_def opt_str_def jfield_def lower_char_def)

lemma dec_token_payload_json: "in_int64 (tp_expires p) \<Longrightarrow> dec_token_payload (token_payload_json p) = Some p"
  by (cases p) (simp add: dec_token_payload_def token_payload_json_def jfield_def lower_char_def dec_credential_json)

lemma plain_token_payload:
  "credential_ok (tp_credential p) \<Longrightarrow> in_int64 (tp_expires p) \<Longrightarrow> plain_json (token_payload_json p)"
  by (simp add: token_payload_json_def plain_credential)

lemma dec_code_payload_json: "in_int64 (cp_expires p) \<Longrightarrow> dec_code_payload (code_payload_json p) = Some p"
  by (cases p) (simp add: dec_code_payload_def code_payload_json_def jfield_def lower_char_def dec_credential_json)

definition code_payload_ok :: "code_payload \<Rightarrow> bool" where
  "code_payload_ok p \<longleftrightarrow> credential_ok (cp_credential p) \<and> utf8_valid (cp_client_id p) \<and>
     utf8_valid (cp_redirect_uri p) \<and> utf8_valid (cp_code_challenge p)"

lemma plain_code_payload:
  "code_payload_ok p \<Longrightarrow> in_int64 (cp_expires p) \<Longrightarrow> plain_json (code_payload_json p)"
  by (simp add: code_payload_json_def code_payload_ok_def plain_credential)

definition client_metadata_ok :: "client_metadata \<Rightarrow> bool" where
  "client_metadata_ok m \<longleftrightarrow> list_all utf8_valid (cm_redirect_uris m) \<and> utf8_valid (cm_client_name m) \<and>
     in_int64 (cm_created_at m)"

lemma dec_each_strings: "dec_each (\<lambda>x. dec_string (Some x)) (map JStr xs) = Some xs"
  by (induction xs) simp_all

lemma dec_client_metadata_json:
  "in_int64 (cm_created_at m) \<Longrightarrow> dec_client_metadata (client_metadata_json m) = Some m"
  by (cases m) (auto simp: dec_client_metadata_def client_metadata_json_def opt_str_def jfield_def
      lower_char_def dec_strings_def dec_each_strings)

lemma plain_client_metadata: "client_metadata_ok m \<Longrightarrow> plain_json (client_metadata_json m)"
  by (simp add: client_metadata_ok_def client_metadata_json_def opt_str_def list_all_iff)

lemma decodeToken_encodeToken:
  assumes "crypto_ok cy" and "credential_ok cred" and "in_int64 (unix_seconds (now + ttl))"
    and "nonce_ok nonce" and "encodeToken cy ks nonce purpose prefix cred ttl now = Some token"
  shows "decodeToken cy ks purpose prefix token later =
    (if unix_seconds later < unix_seconds (now + ttl)
     then Some \<lparr>tp_credential = cred, tp_expires = unix_seconds (now + ttl)\<rparr> else None)"
proof -
  let ?p = "\<lparr>tp_credential = cred, tp_expires = unix_seconds (now + ttl)\<rparr>"
  from assms(5) obtain body where body: "seal cy ks nonce purpose (token_payload_json ?p) = Some body"
    and token: "token = prefix @ body"
    by (auto simp: encodeToken_def)
  have "open_sealed cy ks purpose body = Some (token_payload_json ?p)"
    using open_seal [OF assms(1,4) body] unmarshal_plain [OF assms(1) plain_token_payload [of ?p]] assms(2,3)
    by simp
  with dec_token_payload_json [of ?p] assms(3) show ?thesis
    by (simp add: decodeToken_def token not_le)
qed

lemma DecodeCode_EncodeCode:
  assumes "crypto_ok cy" and "code_payload_ok p" and "in_int64 (unix_seconds (now + CodeTTL))"
    and "nonce_ok nonce" and "EncodeCode cy ks nonce p now = Some code"
  shows "DecodeCode cy ks code later =
    (if unix_seconds later < unix_seconds (now + CodeTTL)
     then Some (p\<lparr>cp_expires := unix_seconds (now + CodeTTL)\<rparr>) else None)"
proof -
  let ?p = "p\<lparr>cp_expires := unix_seconds (now + CodeTTL)\<rparr>"
  from assms(5) obtain body where body: "seal cy ks nonce codePurpose (code_payload_json ?p) = Some body"
    and code: "code = CodePrefix @ body"
    by (auto simp: EncodeCode_def)
  have ok: "code_payload_ok ?p" using assms(2) by (simp add: code_payload_ok_def)
  have "open_sealed cy ks codePurpose body = Some (code_payload_json ?p)"
    using open_seal [OF assms(1,4) body] unmarshal_plain [OF assms(1) plain_code_payload [OF ok]] assms(3)
    by simp
  with dec_code_payload_json [of ?p] assms(3) show ?thesis
    by (simp add: DecodeCode_def code not_le)
qed

lemma DecodeClientID_EncodeClientID:
  assumes "crypto_ok cy" and "client_metadata_ok meta"
  shows "DecodeClientID cy ks (EncodeClientID cy ks meta) = Some meta"
proof -
  let ?p = "cy_marshal cy (client_metadata_json meta)"
  have "cut_char (CHR ''.'') (base64_encode ?p @ ''.'' @ base64_encode (cy_hmac cy (ky_hmac ks) ?p)) =
      Some (base64_encode ?p, base64_encode (cy_hmac cy (ky_hmac ks) ?p))"
    by (simp add: cut_char_Some dot_outside)
  then show ?thesis
    using unmarshal_plain [OF assms(1) plain_client_metadata [OF assms(2)]] dec_client_metadata_json [of meta] assms(2)
    by (simp add: DecodeClientID_def EncodeClientID_def Let_def client_metadata_ok_def)
qed

subsection \<open>The hypothesis can hold\<close>

text \<open>
  A concrete instance of the parameter, for the witnesses only: a sealed text is the plain one behind a
  header that spells out the key and the additional data, each after its length in unary, and a JSON
  value is written by the codec of theory \<open>Json_Codec\<close>.
\<close>

lemma plain_no_float:
  "plain_json j \<Longrightarrow> no_float j"
  "list_all plain_json xs \<Longrightarrow> no_floats xs"
  "list_all (\<lambda>p. utf8_valid (fst p) \<and> plain_json (snd p)) m \<Longrightarrow> no_float_members m"
  by (induction j and xs and m rule: put_json_put_list_put_members.induct) simp_all

lemma unary_prefix: "unary m @ u = unary n @ v \<Longrightarrow> m = n \<and> u = v"
proof (induction m arbitrary: n)
  case 0
  then show ?case by (cases n) (simp_all add: unary_def)
next
  case (Suc m)
  then show ?case by (cases n) (auto simp: unary_def)
qed

definition plain_header :: "string \<Rightarrow> string \<Rightarrow> string" where
  "plain_header k a = unary (length k) @ k @ unary (length a) @ a"

definition example_crypto :: crypto where
  "example_crypto =
     \<lparr>cy_seal = (\<lambda>k n a t. plain_header k a @ t), cy_open = (\<lambda>k n a c. cut_prefix (plain_header k a) c),
      cy_hmac = (\<lambda>k m. k @ m), cy_sha256 = (\<lambda>s. s),
      cy_marshal = put_json, cy_unmarshal = (\<lambda>s. map_option fst (get_json (length s) s))\<rparr>"

lemma example_crypto_ok: "crypto_ok example_crypto"
proof -
  have "cut_prefix (plain_header k a') (plain_header k a @ t) = None" if "a \<noteq> a'" for k a a' t
  proof (rule ccontr)
    assume "cut_prefix (plain_header k a') (plain_header k a @ t) \<noteq> None"
    then obtain r where "plain_header k a @ t = plain_header k a' @ r" by (auto simp: cut_prefix_Some)
    then have "unary (length a) @ a @ t = unary (length a') @ a' @ r" by (simp add: plain_header_def)
    from unary_prefix [OF this] have "length a = length a'" "a @ t = a' @ r" by simp_all
    with that show False by simp
  qed
  moreover have "get_json (length (put_json j)) (put_json j) = Some (j, [])" if "plain_json j" for j
    using get_put_json(1) [OF plain_no_float(1) [OF that] order_refl, of "[]"] by simp
  ultimately show ?thesis by (simp add: crypto_ok_def example_crypto_def)
qed

definition example_keys :: keys where
  "example_keys = \<lparr>ky_aead = ''k'', ky_hmac = ''h''\<rparr>"

definition example_nonce :: "string option" where
  "example_nonce = Some ''0123456789ab''"

lemma example_nonce_ok: "nonce_ok example_nonce"
  by (simp add: nonce_ok_def example_nonce_def nonceSize_def)

lemma example_credential_ok: "credential_ok \<lparr>cd_username = ''ann'', cd_api_key = ''1-abc''\<rparr>"
  by (simp add: credential_ok_def ascii_utf8)

subsection \<open>Properties\<close>

text \<open>
  C17. A token gives back the credential it was issued for until it expires, and nothing afterwards: this
  holds of access tokens and of refresh tokens, to the second.
\<close>

theorem token_roundtrip:
  assumes "crypto_ok cy" and "nonce_ok nonce" and "credential_ok cred"
    and "in_int64 (unix_seconds (now + ttl))"
  shows "\<exists>access refresh. EncodeAccessToken cy ks nonce cred ttl now = Some access \<and>
    EncodeRefreshToken cy ks nonce cred ttl now = Some refresh \<and>
    map_option tp_credential (DecodeAccessToken cy ks access later) =
      (if unix_seconds later < unix_seconds (now + ttl) then Some cred else None) \<and>
    map_option tp_credential (DecodeRefreshToken cy ks refresh later) =
      (if unix_seconds later < unix_seconds (now + ttl) then Some cred else None)"
proof -
  have some: "\<exists>token. encodeToken cy ks nonce purpose prefix cred ttl now = Some token" for purpose prefix
    using seal_Some [OF assms(2)] by (fastforce simp: encodeToken_def)
  obtain access where a: "encodeToken cy ks nonce accessTokenPurpose AccessTokenPrefix cred ttl now = Some access"
    using some by blast
  obtain refresh where r: "encodeToken cy ks nonce refreshTokenPurpose RefreshTokenPrefix cred ttl now = Some refresh"
    using some by blast
  show ?thesis
    using decodeToken_encodeToken [OF assms(1,3,4,2) a] decodeToken_encodeToken [OF assms(1,3,4,2) r] a r
    by (simp add: EncodeAccessToken_def EncodeRefreshToken_def DecodeAccessToken_def DecodeRefreshToken_def)
qed

lemma token_roundtrip_witness:
  "\<exists>access. EncodeAccessToken example_crypto example_keys example_nonce
      \<lparr>cd_username = ''ann'', cd_api_key = ''1-abc''\<rparr> 3600000000000 0 = Some access \<and>
    map_option (cd_api_key \<circ> tp_credential) (DecodeAccessToken example_crypto example_keys access 5) = Some ''1-abc'' \<and>
    DecodeAccessToken example_crypto example_keys access 3600000000000 = None"
proof -
  let ?c = "\<lparr>cd_username = ''ann'', cd_api_key = ''1-abc''\<rparr>"
  have i: "in_int64 (unix_seconds (0 + 3600000000000))" by (simp add: in_int64_def unix_seconds_def)
  note rt = token_roundtrip [OF example_crypto_ok example_nonce_ok example_credential_ok i, of example_keys]
  obtain access where "EncodeAccessToken example_crypto example_keys example_nonce ?c 3600000000000 0 = Some access"
    using rt [of 5] by auto
  with rt [of 5] rt [of 3600000000000] show ?thesis
    by (auto simp: unix_seconds_def option.map_comp [symmetric])
qed

text \<open>
  C16. A sealed value is bound to its purpose: relabelling the body of a refresh token as an access
  token or as a code, or that of a code as a token of either kind, is refused at any time.
\<close>

theorem sealed_values_not_interchangeable:
  assumes "crypto_ok cy" and "nonce_ok nonce" and "seal cy ks nonce purpose payload = Some body"
  shows "(DecodeAccessToken cy ks (AccessTokenPrefix @ body) now = None \<or> purpose = ''tnmcp_at_v1'') \<and>
    (DecodeRefreshToken cy ks (RefreshTokenPrefix @ body) now = None \<or> purpose = ''tnmcp_rt_v1'') \<and>
    (DecodeCode cy ks (CodePrefix @ body) now = None \<or> purpose = ''tnmcp_code_v1'')"
  using open_seal [OF assms]
  by (simp add: DecodeAccessToken_def DecodeRefreshToken_def DecodeCode_def decodeToken_def
      accessTokenPurpose_def refreshTokenPurpose_def codePurpose_def)

lemma sealed_values_not_interchangeable_witness:
  "\<exists>body. seal example_crypto example_keys example_nonce refreshTokenPurpose (JStr ''x'') = Some body \<and>
     DecodeAccessToken example_crypto example_keys (AccessTokenPrefix @ body) 0 = None"
proof -
  obtain body where body: "seal example_crypto example_keys example_nonce refreshTokenPurpose (JStr ''x'') = Some body"
    using seal_Some [OF example_nonce_ok] by blast
  from sealed_values_not_interchangeable [OF example_crypto_ok example_nonce_ok body, of 0] body show ?thesis
    by (auto simp: refreshTokenPurpose_def)
qed

text \<open>
  A client id is its own record: the server recovers from it exactly the metadata it was made from,
  and whatever id it accepts carries the authentication code, under the server's key, of the bytes the
  metadata is read from.
\<close>

theorem client_id_roundtrip:
  assumes "crypto_ok cy" and "client_metadata_ok meta"
  shows "DecodeClientID cy ks (EncodeClientID cy ks meta) = Some meta \<and>
    (\<forall>forged meta'. DecodeClientID cy ks forged = Some meta' \<longrightarrow>
       (\<exists>payloadPart sigPart payload. forged = ClientIDPrefix @ payloadPart @ ''.'' @ sigPart \<and>
          base64_decode payloadPart = Some payload \<and>
          base64_decode sigPart = Some (cy_hmac cy (ky_hmac ks) payload) \<and>
          Option.bind (cy_unmarshal cy payload) dec_client_metadata = Some meta'))"
proof (intro conjI allI impI)
  show "DecodeClientID cy ks (EncodeClientID cy ks meta) = Some meta"
    using assms by (rule DecodeClientID_EncodeClientID)
  fix forged meta'
  assume "DecodeClientID cy ks forged = Some meta'"
  then show "\<exists>payloadPart sigPart payload. forged = ClientIDPrefix @ payloadPart @ ''.'' @ sigPart \<and>
          base64_decode payloadPart = Some payload \<and>
          base64_decode sigPart = Some (cy_hmac cy (ky_hmac ks) payload) \<and>
          Option.bind (cy_unmarshal cy payload) dec_client_metadata = Some meta'"
    by (auto simp: DecodeClientID_def cut_prefix_Some cut_char_Some split: option.splits prod.splits if_splits)
qed

lemma client_id_roundtrip_witness:
  "DecodeClientID example_crypto example_keys (EncodeClientID example_crypto example_keys
     \<lparr>cm_redirect_uris = [''https://a.example/cb''], cm_client_name = ''a'', cm_created_at = 7\<rparr>) =
   Some \<lparr>cm_redirect_uris = [''https://a.example/cb''], cm_client_name = ''a'', cm_created_at = 7\<rparr>"
proof -
  have "client_metadata_ok \<lparr>cm_redirect_uris = [''https://a.example/cb''], cm_client_name = ''a'', cm_created_at = 7\<rparr>"
    by (simp add: client_metadata_ok_def ascii_utf8 in_int64_def)
  from client_id_roundtrip [OF example_crypto_ok this] show ?thesis by blast
qed

end
