(* ===== verification/OAuth_Server.thy ===== *)
theory OAuth_Server
  imports OAuth_Tokens Replay_Cache
begin

section \<open>The authorization server\<close>

text \<open>
  \<^verbatim>\<open>internal/oauth/register.go\<close>, \<^verbatim>\<open>authorize.go\<close>, \<^verbatim>\<open>token_handler.go\<close>, \<^verbatim>\<open>metadata.go\<close>,
  \<^verbatim>\<open>errors.go\<close> and \<^verbatim>\<open>handler.go\<close>: registration, the authorization endpoint, the token endpoint and the two
  discovery documents. Each handler returns the response as a value; the token endpoint also threads the
  replay cache, which is the only state.

  Parameters besides the cryptography: the scheme and host of an absolute URI as \<^verbatim>\<open>net/url\<close> parses it,
  whether \<^verbatim>\<open>net/url\<close> parses a URI at all, the answer of the credential validator, and the nonces.
\<close>

record oauth_env =
  oe_crypto :: crypto
  oe_uri :: "string \<Rightarrow> (string \<times> string) option"
  oe_url_ok :: "string \<Rightarrow> bool"
  oe_validate :: "string \<Rightarrow> bool"
  oe_nonce :: "nat \<Rightarrow> string option"

record oauth_config =
  oc_issuer :: string
  oc_keys :: keys
  oc_access_ttl :: int
  oc_refresh_ttl :: int

type_synonym form = "string gomap"

definition form_get :: "form \<Rightarrow> string \<Rightarrow> string" where
  "form_get f k = (case map_of f k of None \<Rightarrow> [] | Some v \<Rightarrow> v)"

subsection \<open>Responses\<close>

record authorize_request =
  ar_response_type :: string
  ar_client_id :: string
  ar_redirect_uri :: string
  ar_state :: string
  ar_code_challenge :: string
  ar_code_challenge_method :: string
  ar_client_meta :: client_metadata

record register_response =
  rr_client_id :: string
  rr_issued_at :: int
  rr_redirect_uris :: "string list"
  rr_client_name :: string
  rr_auth_method :: string
  rr_grant_types :: "string list"
  rr_response_types :: "string list"

record token_response =
  tr_access_token :: string
  tr_token_type :: string
  tr_expires_in :: int
  tr_refresh_token :: string

record server_metadata =
  sm_issuer :: string
  sm_authorization_endpoint :: string
  sm_token_endpoint :: string
  sm_registration_endpoint :: string
  sm_response_types :: "string list"
  sm_grant_types :: "string list"
  sm_challenge_methods :: "string list"
  sm_auth_methods :: "string list"

datatype oauth_answer =
    OAuthError int string string              \<comment> \<open>status, code, description\<close>
  | OAuthProblem int string                   \<comment> \<open>status, message\<close>
  | ConsentForm authorize_request string string \<comment> \<open>request, username, error\<close>
  | RedirectBack string string string         \<comment> \<open>redirect URI, code, state (empty: not set)\<close>
  | Registered register_response
  | Tokens token_response
  | ResourceMetadata string "string list"
  | ServerMetadata server_metadata

definition no_client :: client_metadata where
  "no_client = \<lparr>cm_redirect_uris = [], cm_client_name = [], cm_created_at = 0\<rparr>"

subsection \<open>Registration\<close>

datatype redirect_problem = NotAbsolute string | NotLoopback string | BadScheme string

fun redirect_problem_text :: "redirect_problem \<Rightarrow> string" where
  "redirect_problem_text (NotAbsolute raw) = ''redirect_uris must be absolute URIs, got: '' @ raw"
| "redirect_problem_text (NotLoopback raw) =
     ''http redirect_uri is only allowed for a loopback address (127.0.0.1, ::1, localhost), got: '' @ raw"
| "redirect_problem_text (BadScheme raw) =
     ''redirect_uri scheme must be https (or http for a loopback address), got: '' @ raw"

definition loopback_hosts :: "string list" where
  "loopback_hosts = [''127.0.0.1'', ''::1'', ''localhost'']"

definition validateRedirectURIScheme :: "(string \<Rightarrow> (string \<times> string) option) \<Rightarrow> string \<Rightarrow> redirect_problem option" where
  "validateRedirectURIScheme uri raw =
     (case uri raw of
        None \<Rightarrow> Some (NotAbsolute raw)
      | Some (scheme, host) \<Rightarrow>
          if scheme = ''https'' then None
          else if scheme = ''http'' then
            (if host \<in> set loopback_hosts then None else Some (NotLoopback raw))
          else Some (BadScheme raw))"

fun first_redirect_problem :: "(string \<Rightarrow> (string \<times> string) option) \<Rightarrow> string list \<Rightarrow> redirect_problem option" where
  "first_redirect_problem uri [] = None"
| "first_redirect_problem uri (u # us) =
     (case validateRedirectURIScheme uri u of Some p \<Rightarrow> Some p | None \<Rightarrow> first_redirect_problem uri us)"

record register_request =
  rq_redirect_uris :: "string list"
  rq_client_name :: string

definition dec_register_request :: "json \<Rightarrow> register_request option" where
  "dec_register_request j =
     (case dec_struct (Some j) of
        None \<Rightarrow> None
      | Some kvs \<Rightarrow>
          (case (dec_strings (jfield ''redirect_uris'' kvs), dec_string (jfield ''client_name'' kvs)) of
             (Some us, Some n) \<Rightarrow> Some \<lparr>rq_redirect_uris = us, rq_client_name = n\<rparr>
           | _ \<Rightarrow> None))"

definition grant_types :: "oauth_config \<Rightarrow> string list" where
  "grant_types cfg = ''authorization_code'' # (if 0 < oc_refresh_ttl cfg then [''refresh_token''] else [])"

text \<open>The body is the JSON value of the request, absent when it is no JSON or longer than allowed.\<close>

definition handleRegister :: "oauth_env \<Rightarrow> oauth_config \<Rightarrow> json option \<Rightarrow> int \<Rightarrow> oauth_answer" where
  "handleRegister env cfg body now =
     (case Option.bind body dec_register_request of
        None \<Rightarrow> OAuthError 400 ''invalid_client_metadata'' ''request body must be valid JSON''
      | Some req \<Rightarrow>
          if rq_redirect_uris req = [] then
            OAuthError 400 ''invalid_redirect_uri'' ''redirect_uris must name at least one URI''
          else case first_redirect_problem (oe_uri env) (rq_redirect_uris req) of
            Some p \<Rightarrow> OAuthError 400 ''invalid_redirect_uri'' (redirect_problem_text p)
          | None \<Rightarrow>
              let meta = \<lparr>cm_redirect_uris = rq_redirect_uris req, cm_client_name = rq_client_name req,
                          cm_created_at = unix_seconds now\<rparr>
              in Registered \<lparr>rr_client_id = EncodeClientID (oe_crypto env) (oc_keys cfg) meta,
                   rr_issued_at = unix_seconds now, rr_redirect_uris = cm_redirect_uris meta,
                   rr_client_name = cm_client_name meta, rr_auth_method = ''none'',
                   rr_grant_types = grant_types cfg, rr_response_types = [''code'']\<rparr>)"

subsection \<open>Authorization\<close>

definition parseAuthorizeRequest :: "oauth_env \<Rightarrow> oauth_config \<Rightarrow> form \<Rightarrow> authorize_request \<times> string" where
  "parseAuthorizeRequest env cfg values =
     (let req = \<lparr>ar_response_type = form_get values ''response_type'', ar_client_id = form_get values ''client_id'',
                 ar_redirect_uri = form_get values ''redirect_uri'', ar_state = form_get values ''state'',
                 ar_code_challenge = form_get values ''code_challenge'',
                 ar_code_challenge_method = form_get values ''code_challenge_method'',
                 ar_client_meta = no_client\<rparr>
      in if ar_response_type req \<noteq> ''code'' then (req, ''response_type is required and must be \"code\"'')
         else if ar_client_id req = [] then (req, ''client_id is required'')
         else case DecodeClientID (oe_crypto env) (oc_keys cfg) (ar_client_id req) of
           None \<Rightarrow> (req, ''client_id is not recognized; register a client first'')
         | Some meta \<Rightarrow>
             let req' = req\<lparr>ar_client_meta := meta\<rparr>
             in if ar_redirect_uri req' = [] then (req', ''redirect_uri is required'')
                else if \<not> ValidateRedirectURI meta (ar_redirect_uri req')
                  then (req', ''redirect_uri is not registered for this client'')
                else if ar_code_challenge_method req' \<noteq> ''S256'' \<or> ar_code_challenge req' = []
                  then (req', ''a code_challenge using code_challenge_method=S256 (PKCE) is required'')
                else (req', []))"

definition handleAuthorizeGet :: "oauth_env \<Rightarrow> oauth_config \<Rightarrow> form \<Rightarrow> oauth_answer" where
  "handleAuthorizeGet env cfg query =
     (case parseAuthorizeRequest env cfg query of
        (req, problem) \<Rightarrow> if problem \<noteq> [] then OAuthProblem 400 problem else ConsentForm req [] [])"

definition handleAuthorizePost :: "oauth_env \<Rightarrow> oauth_config \<Rightarrow> form option \<Rightarrow> int \<Rightarrow> oauth_answer" where
  "handleAuthorizePost env cfg parsed now =
     (case parsed of
        None \<Rightarrow> OAuthProblem 400 ''malformed form body''
      | Some f \<Rightarrow>
          (case parseAuthorizeRequest env cfg f of
             (req, problem) \<Rightarrow>
               if problem \<noteq> [] then OAuthProblem 400 problem
               else
                 let username = trim_space (form_get f ''username'');
                     apiKey = trim_space (form_get f ''api_key'')
                 in if apiKey = [] then ConsentForm req username ''a TrueNAS API key is required''
                    else if \<not> oe_validate env apiKey
                      then ConsentForm req username ''TrueNAS rejected that username or API key''
                    else (case EncodeCode (oe_crypto env) (oc_keys cfg) (oe_nonce env 0)
                        \<lparr>cp_credential = \<lparr>cd_username = username, cd_api_key = apiKey\<rparr>,
                         cp_client_id = ar_client_id req, cp_redirect_uri = ar_redirect_uri req,
                         cp_code_challenge = ar_code_challenge req, cp_expires = 0\<rparr> now of
                      None \<Rightarrow> OAuthProblem 500 ''could not issue an authorization code''
                    | Some code \<Rightarrow>
                        if \<not> oe_url_ok env (ar_redirect_uri req)
                        then OAuthProblem 500 ''redirect_uri is not a valid URL''
                        else RedirectBack (ar_redirect_uri req) code (ar_state req))))"

subsection \<open>Tokens\<close>

definition verifyPKCE :: "crypto \<Rightarrow> string \<Rightarrow> string \<Rightarrow> bool" where
  "verifyPKCE cy challenge verifier \<longleftrightarrow> base64_encode (cy_sha256 cy verifier) = challenge"

text \<open>Go's conversion of a duration to whole seconds, towards zero.\<close>

definition whole_seconds :: "int \<Rightarrow> int" where
  "whole_seconds d = (if 0 \<le> d then d div 1000000000 else - ((- d) div 1000000000))"

definition issueTokens :: "oauth_env \<Rightarrow> oauth_config \<Rightarrow> credential \<Rightarrow> int \<Rightarrow> oauth_answer" where
  "issueTokens env cfg cred now =
     (case EncodeAccessToken (oe_crypto env) (oc_keys cfg) (oe_nonce env 0) cred (oc_access_ttl cfg) now of
        None \<Rightarrow> OAuthError 500 ''server_error'' ''could not issue an access token''
      | Some access \<Rightarrow>
          let resp = \<lparr>tr_access_token = access, tr_token_type = ''Bearer'',
                      tr_expires_in = whole_seconds (oc_access_ttl cfg), tr_refresh_token = []\<rparr>
          in if 0 < oc_refresh_ttl cfg then
               (case EncodeRefreshToken (oe_crypto env) (oc_keys cfg) (oe_nonce env 1) cred (oc_refresh_ttl cfg) now of
                  None \<Rightarrow> OAuthError 500 ''server_error'' ''could not issue a refresh token''
                | Some refresh \<Rightarrow> Tokens (resp\<lparr>tr_refresh_token := refresh\<rparr>))
             else Tokens resp)"

text \<open>The clock is read twice: once to decode the code, once inside the claim.\<close>

definition handleAuthorizationCodeGrant ::
  "oauth_env \<Rightarrow> oauth_config \<Rightarrow> form \<Rightarrow> int \<Rightarrow> int \<Rightarrow> replay_cache \<Rightarrow> oauth_answer \<times> replay_cache" where
  "handleAuthorizationCodeGrant env cfg f now claim_now codes =
     (let clientID = form_get f ''client_id''; code = form_get f ''code'';
          verifier = form_get f ''code_verifier''; redirectURI = form_get f ''redirect_uri''
      in if code = [] \<or> verifier = [] \<or> redirectURI = [] \<or> clientID = [] then
           (OAuthError 400 ''invalid_request'' ''client_id, code, code_verifier, and redirect_uri are required'', codes)
         else case DecodeCode (oe_crypto env) (oc_keys cfg) code now of
           None \<Rightarrow> (OAuthError 400 ''invalid_grant'' ''authorization code is invalid or expired'', codes)
         | Some payload \<Rightarrow>
             if clientID \<noteq> cp_client_id payload then
               (OAuthError 400 ''invalid_grant'' ''authorization code was not issued to this client'', codes)
             else if redirectURI \<noteq> cp_redirect_uri payload then
               (OAuthError 400 ''invalid_grant'' ''redirect_uri does not match the authorization request'', codes)
             else if \<not> verifyPKCE (oe_crypto env) (cp_code_challenge payload) verifier then
               (OAuthError 400 ''invalid_grant'' ''code_verifier does not match code_challenge'', codes)
             else (case Claim codes claim_now (CodeReplayID (oe_crypto env) code) CodeTTL of
               (False, codes') \<Rightarrow>
                 (OAuthError 400 ''invalid_grant'' ''authorization code has already been used'', codes')
             | (True, codes') \<Rightarrow> (issueTokens env cfg (cp_credential payload) now, codes')))"

definition handleRefreshTokenGrant :: "oauth_env \<Rightarrow> oauth_config \<Rightarrow> form \<Rightarrow> int \<Rightarrow> oauth_answer" where
  "handleRefreshTokenGrant env cfg f now =
     (if oc_refresh_ttl cfg \<le> 0 then
        OAuthError 400 ''unsupported_grant_type'' ''refresh tokens are disabled on this server''
      else
        let refreshToken = form_get f ''refresh_token''
        in if refreshToken = [] then OAuthError 400 ''invalid_request'' ''refresh_token is required''
           else case DecodeRefreshToken (oe_crypto env) (oc_keys cfg) refreshToken now of
             None \<Rightarrow> OAuthError 400 ''invalid_grant'' ''refresh token is invalid or expired''
           | Some payload \<Rightarrow> issueTokens env cfg (tp_credential payload) now)"

definition handleToken ::
  "oauth_env \<Rightarrow> oauth_config \<Rightarrow> form option \<Rightarrow> int \<Rightarrow> int \<Rightarrow> replay_cache \<Rightarrow> oauth_answer \<times> replay_cache" where
  "handleToken env cfg parsed now claim_now codes =
     (case parsed of
        None \<Rightarrow> (OAuthError 400 ''invalid_request'' ''request body must be application/x-www-form-urlencoded'', codes)
      | Some f \<Rightarrow>
          if form_get f ''grant_type'' = ''authorization_code'' then
            handleAuthorizationCodeGrant env cfg f now claim_now codes
          else if form_get f ''grant_type'' = ''refresh_token'' then
            (handleRefreshTokenGrant env cfg f now, codes)
          else
            (OAuthError 400 ''unsupported_grant_type''
               ''grant_type must be \"authorization_code\" or \"refresh_token\"'', codes))"

subsection \<open>Discovery documents\<close>

definition ProtectedResourceMetadataPath :: string where
  "ProtectedResourceMetadataPath = ''/.well-known/oauth-protected-resource''"
definition AuthorizationServerMetadataPath :: string where
  "AuthorizationServerMetadataPath = ''/.well-known/oauth-authorization-server''"
definition RegisterPath :: string where "RegisterPath = ''/register''"
definition AuthorizePath :: string where "AuthorizePath = ''/authorize''"
definition TokenPath :: string where "TokenPath = ''/token''"

definition trim_suffix :: "string \<Rightarrow> string \<Rightarrow> string" where
  "trim_suffix suf s = (case cut_prefix (rev suf) (rev s) of None \<Rightarrow> s | Some r \<Rightarrow> rev r)"

definition issuerBase :: "oauth_config \<Rightarrow> string" where
  "issuerBase cfg = trim_suffix ''/'' (oc_issuer cfg)"

definition ResourceURL :: "oauth_config \<Rightarrow> string" where
  "ResourceURL cfg = issuerBase cfg @ ''/mcp''"

definition ProtectedResourceMetadataURL :: "oauth_config \<Rightarrow> string" where
  "ProtectedResourceMetadataURL cfg = issuerBase cfg @ ProtectedResourceMetadataPath"

definition handleProtectedResourceMetadata :: "oauth_config \<Rightarrow> oauth_answer" where
  "handleProtectedResourceMetadata cfg = ResourceMetadata (ResourceURL cfg) [issuerBase cfg]"

definition handleAuthorizationServerMetadata :: "oauth_config \<Rightarrow> oauth_answer" where
  "handleAuthorizationServerMetadata cfg =
     (let base = issuerBase cfg
      in ServerMetadata \<lparr>sm_issuer = base, sm_authorization_endpoint = base @ AuthorizePath,
           sm_token_endpoint = base @ TokenPath, sm_registration_endpoint = base @ RegisterPath,
           sm_response_types = [''code''], sm_grant_types = grant_types cfg,
           sm_challenge_methods = [''S256''], sm_auth_methods = [''none'']\<rparr>)"

subsection \<open>Lemmas\<close>

text \<open>What the code grant checks before it claims the code.\<close>

definition grant_ok :: "oauth_env \<Rightarrow> oauth_config \<Rightarrow> form \<Rightarrow> int \<Rightarrow> code_payload option" where
  "grant_ok env cfg f now =
     (if form_get f ''code'' = [] \<or> form_get f ''code_verifier'' = [] \<or> form_get f ''redirect_uri'' = [] \<or>
         form_get f ''client_id'' = [] then None
      else case DecodeCode (oe_crypto env) (oc_keys cfg) (form_get f ''code'') now of
        None \<Rightarrow> None
      | Some p \<Rightarrow>
          if form_get f ''client_id'' = cp_client_id p \<and> form_get f ''redirect_uri'' = cp_redirect_uri p \<and>
             verifyPKCE (oe_crypto env) (cp_code_challenge p) (form_get f ''code_verifier'')
          then Some p else None)"

definition replay_id :: "oauth_env \<Rightarrow> form \<Rightarrow> string" where
  "replay_id env f = CodeReplayID (oe_crypto env) (form_get f ''code'')"

lemma code_grant_Some:
  "grant_ok env cfg f now = Some p \<Longrightarrow> handleAuthorizationCodeGrant env cfg f now ct codes =
     (if fst (Claim codes ct (replay_id env f) CodeTTL) then issueTokens env cfg (cp_credential p) now
      else OAuthError 400 ''invalid_grant'' ''authorization code has already been used'',
      snd (Claim codes ct (replay_id env f) CodeTTL))"
  by (auto simp: handleAuthorizationCodeGrant_def grant_ok_def replay_id_def Let_def
      split: option.splits prod.split bool.split if_splits)

lemma code_grant_None:
  "grant_ok env cfg f now = None \<Longrightarrow> snd (handleAuthorizationCodeGrant env cfg f now ct codes) = codes"
  by (auto simp: handleAuthorizationCodeGrant_def grant_ok_def Let_def split: option.splits if_splits)

lemma code_grant_refused:
  "grant_ok env cfg f now = None \<Longrightarrow> fst (handleAuthorizationCodeGrant env cfg f now ct codes) \<noteq> Tokens r"
  by (auto simp: handleAuthorizationCodeGrant_def grant_ok_def Let_def split: option.splits if_splits)

lemma code_grant_Tokens:
  assumes "fst (handleAuthorizationCodeGrant env cfg f now ct codes) = Tokens r"
  shows "\<exists>p. grant_ok env cfg f now = Some p \<and> fst (Claim codes ct (replay_id env f) CodeTTL) \<and>
    issueTokens env cfg (cp_credential p) now = Tokens r \<and>
    snd (handleAuthorizationCodeGrant env cfg f now ct codes) = snd (Claim codes ct (replay_id env f) CodeTTL)"
proof (cases "grant_ok env cfg f now")
  case None
  with assms code_grant_refused [OF None, of ct codes r] show ?thesis by simp
next
  case (Some p)
  with assms show ?thesis
    by (auto simp: code_grant_Some split: if_splits)
qed

text \<open>A token request leaves the cache alone or claims one identifier.\<close>

lemma handleToken_cache:
  "snd (handleToken env cfg q now ct codes) = codes \<or>
     (\<exists>i. snd (handleToken env cfg q now ct codes) = snd (Claim codes ct i CodeTTL))"
proof (cases q)
  case None
  then show ?thesis by (simp add: handleToken_def)
next
  case (Some f)
  have "snd (handleAuthorizationCodeGrant env cfg f now ct codes) = codes \<or>
      (\<exists>i. snd (handleAuthorizationCodeGrant env cfg f now ct codes) = snd (Claim codes ct i CodeTTL))"
  proof (cases "grant_ok env cfg f now")
    case None
    then show ?thesis by (simp add: code_grant_None)
  next
    case p: (Some p)
    have "snd (handleAuthorizationCodeGrant env cfg f now ct codes) = snd (Claim codes ct (replay_id env f) CodeTTL)"
      by (simp add: code_grant_Some [OF p])
    then show ?thesis by blast
  qed
  then show ?thesis by (auto simp: Some handleToken_def)
qed

lemma handleToken_keeps_held:
  assumes "held codes t i" and "ct \<le> t"
  shows "held (snd (handleToken env cfg q now ct codes)) t i"
  using handleToken_cache [of env cfg q now ct codes] assms replay.claim_keeps by auto

text \<open>The state after a sequence of token requests, each with its two clock readings.\<close>

definition after_requests ::
  "oauth_env \<Rightarrow> oauth_config \<Rightarrow> (form option \<times> int \<times> int) list \<Rightarrow> replay_cache \<Rightarrow> replay_cache" where
  "after_requests env cfg rs codes =
     foldl (\<lambda>c (q, now, ct). snd (handleToken env cfg q now ct c)) codes rs"

lemma after_requests_keeps_held:
  "held codes t i \<Longrightarrow> list_all (\<lambda>r. snd (snd r) \<le> t) rs \<Longrightarrow> held (after_requests env cfg rs codes) t i"
  unfolding after_requests_def
  by (induction rs arbitrary: codes) (auto simp: handleToken_keeps_held)

lemma authorization_form:
  "form_get f ''grant_type'' = ''authorization_code'' \<Longrightarrow>
     handleToken env cfg (Some f) now ct codes = handleAuthorizationCodeGrant env cfg f now ct codes"
  by (simp add: handleToken_def)

lemma first_redirect_problem_None:
  "first_redirect_problem uri us = None \<longleftrightarrow> list_all (\<lambda>u. validateRedirectURIScheme uri u = None) us"
  by (induction us) (auto split: option.split)

lemma validateRedirectURIScheme_None:
  "validateRedirectURIScheme uri u = None \<longleftrightarrow>
     (\<exists>host. uri u = Some (''https'', host) \<or> (uri u = Some (''http'', host) \<and> host \<in> set loopback_hosts))"
  by (auto simp: validateRedirectURIScheme_def split: option.split prod.split)

lemma parseAuthorizeRequest_ok:
  assumes "parseAuthorizeRequest env cfg f = (req, [])"
  shows "form_get f ''response_type'' = ''code'' \<and>
    DecodeClientID (oe_crypto env) (oc_keys cfg) (form_get f ''client_id'') = Some (ar_client_meta req) \<and>
    form_get f ''redirect_uri'' \<in> set (cm_redirect_uris (ar_client_meta req)) \<and>
    form_get f ''code_challenge_method'' = ''S256'' \<and> form_get f ''code_challenge'' \<noteq> [] \<and>
    ar_client_id req = form_get f ''client_id'' \<and> ar_redirect_uri req = form_get f ''redirect_uri'' \<and>
    ar_code_challenge req = form_get f ''code_challenge'' \<and> ar_state req = form_get f ''state''"
  using assms
  by (auto simp: parseAuthorizeRequest_def Let_def ValidateRedirectURI_def split: if_splits option.splits)

text \<open>An environment and a configuration for the witnesses.\<close>

definition example_env :: oauth_env where
  "example_env = \<lparr>oe_crypto = example_crypto,
     oe_uri = (\<lambda>u. if has_prefix ''https://'' u then Some (''https'', ''a.example'') else None),
     oe_url_ok = (\<lambda>_. True), oe_validate = (\<lambda>k. k = ''1-abc''), oe_nonce = (\<lambda>_. example_nonce)\<rparr>"

definition example_config :: oauth_config where
  "example_config = \<lparr>oc_issuer = ''https://mcp.example/'', oc_keys = example_keys,
     oc_access_ttl = 3600000000000, oc_refresh_ttl = 0\<rparr>"

definition example_payload :: code_payload where
  "example_payload = \<lparr>cp_credential = \<lparr>cd_username = [], cd_api_key = ''1-abc''\<rparr>, cp_client_id = ''cid'',
     cp_redirect_uri = ''https://a.example/cb'', cp_code_challenge = base64_encode ''v'', cp_expires = 0\<rparr>"

definition example_code :: string where
  "example_code = the (EncodeCode example_crypto example_keys example_nonce example_payload 0)"

definition code_form :: "string \<Rightarrow> form" where
  "code_form code = [(''grant_type'', ''authorization_code''), (''client_id'', ''cid''), (''code'', code),
     (''code_verifier'', ''v''), (''redirect_uri'', ''https://a.example/cb'')]"

lemma example_payload_ok: "code_payload_ok example_payload"
  by (simp add: code_payload_ok_def credential_ok_def example_payload_def ascii_utf8 del: base64_encode.simps)

lemma example_code_some: "EncodeCode example_crypto example_keys example_nonce example_payload 0 = Some example_code"
proof -
  have "\<exists>c. EncodeCode example_crypto example_keys example_nonce example_payload 0 = Some c"
    using seal_Some [OF example_nonce_ok] by (fastforce simp: EncodeCode_def)
  then show ?thesis by (auto simp: example_code_def)
qed

lemma example_code_decodes:
  "DecodeCode example_crypto example_keys example_code later =
     (if unix_seconds later < 60 then Some (example_payload\<lparr>cp_expires := 60\<rparr>) else None)"
  using DecodeCode_EncodeCode [OF example_crypto_ok example_payload_ok _ example_nonce_ok example_code_some, of later]
  by (simp add: CodeTTL_def unix_seconds_def in_int64_def)

lemma example_code_nonempty: "example_code \<noteq> []"
  using example_code_decodes [of 0] by (auto simp: DecodeCode_def CodePrefix_def unix_seconds_def)

lemma example_grant_ok:
  assumes "unix_seconds now < 60"
  shows "grant_ok example_env example_config (code_form example_code) now = Some (example_payload\<lparr>cp_expires := 60\<rparr>)"
  using assms example_code_decodes [of now] example_code_nonempty
  by (simp add: grant_ok_def code_form_def form_get_def example_env_def example_config_def example_payload_def
      verifyPKCE_def example_crypto_def)

lemma example_tokens: "\<exists>r. issueTokens example_env example_config (cp_credential (example_payload\<lparr>cp_expires := 60\<rparr>)) now = Tokens r"
proof -
  have "\<exists>t. encodeToken example_crypto example_keys example_nonce accessTokenPurpose AccessTokenPrefix c ttl now = Some t"
    for c ttl using seal_Some [OF example_nonce_ok] by (fastforce simp: encodeToken_def)
  then obtain t where "EncodeAccessToken example_crypto example_keys example_nonce
      (cp_credential (example_payload\<lparr>cp_expires := 60\<rparr>)) 3600000000000 now = Some t"
    unfolding EncodeAccessToken_def by blast
  then show ?thesis by (simp add: issueTokens_def example_env_def example_config_def Let_def)
qed

lemma example_first_redemption:
  "\<exists>r. fst (handleToken example_env example_config (Some (code_form example_code)) 0 0 NewReplayCache) = Tokens r"
proof -
  have g: "form_get (code_form c) ''grant_type'' = ''authorization_code''" for c
    by (simp add: code_form_def form_get_def)
  have "unix_seconds 0 < 60" by (simp add: unix_seconds_def)
  moreover have "fst (Claim NewReplayCache 0 i CodeTTL)" for i
    by (simp add: Claim_def NewReplayCache_def sweepLocked_def)
  ultimately show ?thesis
    using example_tokens [of 0] by (simp add: authorization_form [OF g] code_grant_Some [OF example_grant_ok])
qed

subsection \<open>Properties\<close>





text \<open>
  C32. A client is only registered for redirect URIs that cannot leak its codes: each is absolute and
  https, or http to a loopback host, there is at least one, and the client id handed out carries exactly
  these, so that the authorization endpoint will accept these and no others.
\<close>

theorem registered_redirects_safe:
  assumes "crypto_ok (oe_crypto env)" and "handleRegister env cfg body now = Registered resp"
    and "list_all utf8_valid (rr_redirect_uris resp)" and "utf8_valid (rr_client_name resp)"
    and "in_int64 (unix_seconds now)"
  shows "rr_redirect_uris resp \<noteq> [] \<and>
    list_all (\<lambda>u. \<exists>scheme host. oe_uri env u = Some (scheme, host) \<and>
       (scheme = ''https'' \<or> scheme = ''http'' \<and> host \<in> {''127.0.0.1'', ''::1'', ''localhost''}))
      (rr_redirect_uris resp) \<and>
    map_option cm_redirect_uris (DecodeClientID (oe_crypto env) (oc_keys cfg) (rr_client_id resp)) =
      Some (rr_redirect_uris resp)"
proof -
  let ?meta = "\<lparr>cm_redirect_uris = rr_redirect_uris resp, cm_client_name = rr_client_name resp,
      cm_created_at = unix_seconds now\<rparr>"
  from assms(2) have ne: "rr_redirect_uris resp \<noteq> []"
    and safe: "first_redirect_problem (oe_uri env) (rr_redirect_uris resp) = None"
    and cid: "rr_client_id resp = EncodeClientID (oe_crypto env) (oc_keys cfg) ?meta"
    by (auto simp: handleRegister_def Let_def split: option.splits if_splits)
  have "client_metadata_ok ?meta" using assms(3-5) by (simp add: client_metadata_ok_def)
  with assms(1) have "DecodeClientID (oe_crypto env) (oc_keys cfg) (rr_client_id resp) = Some ?meta"
    unfolding cid by (rule DecodeClientID_EncodeClientID)
  moreover have "\<exists>scheme host. oe_uri env u = Some (scheme, host) \<and>
       (scheme = ''https'' \<or> scheme = ''http'' \<and> host \<in> {''127.0.0.1'', ''::1'', ''localhost''})"
    if "validateRedirectURIScheme (oe_uri env) u = None" for u
    using that unfolding validateRedirectURIScheme_None loopback_hosts_def by fastforce
  ultimately show ?thesis using ne safe
    unfolding first_redirect_problem_None list_all_iff by simp
qed

lemma registered_redirects_safe_witness:
  "\<exists>resp. handleRegister example_env example_config
      (Some (JObj [(''redirect_uris'', JArr [JStr ''https://a.example/cb''])])) 0 = Registered resp \<and>
    map_option cm_redirect_uris (DecodeClientID example_crypto example_keys (rr_client_id resp)) =
      Some [''https://a.example/cb'']"
proof -
  let ?body = "Some (JObj [(''redirect_uris'', JArr [JStr ''https://a.example/cb''])])"
  have "dec_register_request (JObj [(''redirect_uris'', JArr [JStr ''https://a.example/cb''])]) =
      Some \<lparr>rq_redirect_uris = [''https://a.example/cb''], rq_client_name = []\<rparr>"
    by (simp add: dec_register_request_def jfield_def lower_char_def dec_strings_def)
  then obtain resp where resp: "handleRegister example_env example_config ?body 0 = Registered resp"
    and uris: "rr_redirect_uris resp = [''https://a.example/cb'']" "rr_client_name resp = []"
    by (simp add: handleRegister_def validateRedirectURIScheme_def example_env_def has_prefix_def Let_def)
  have "crypto_ok (oe_crypto example_env)" by (simp add: example_env_def example_crypto_ok)
  from registered_redirects_safe [OF this resp] uris resp show ?thesis
    by (simp add: example_env_def example_config_def ascii_utf8 unix_seconds_def in_int64_def)
qed

text \<open>
  C11. A code is only issued after consent with a working key: the authorization endpoint redirects only
  when the client id is one the server issued, the redirect URI is one registered for it, the challenge is
  an S256 one, and the validator accepted the submitted key; the code it then sends seals that key, for
  that client, that redirect URI and that challenge, and it goes to that redirect URI with the client's
  state.
\<close>

theorem code_only_after_consent:
  assumes "handleAuthorizePost env cfg q now = RedirectBack uri code st"
  shows "\<exists>f meta. q = Some f \<and>
    DecodeClientID (oe_crypto env) (oc_keys cfg) (form_get f ''client_id'') = Some meta \<and>
    uri = form_get f ''redirect_uri'' \<and> uri \<in> set (cm_redirect_uris meta) \<and>
    form_get f ''code_challenge_method'' = ''S256'' \<and> form_get f ''code_challenge'' \<noteq> [] \<and>
    trim_space (form_get f ''api_key'') \<noteq> [] \<and> oe_validate env (trim_space (form_get f ''api_key'')) \<and>
    st = form_get f ''state'' \<and>
    EncodeCode (oe_crypto env) (oc_keys cfg) (oe_nonce env 0)
      \<lparr>cp_credential = \<lparr>cd_username = trim_space (form_get f ''username''),
                        cd_api_key = trim_space (form_get f ''api_key'')\<rparr>,
       cp_client_id = form_get f ''client_id'', cp_redirect_uri = uri,
       cp_code_challenge = form_get f ''code_challenge'', cp_expires = 0\<rparr> now = Some code"
proof -
  from assms obtain f where f: "q = Some f" by (cases q) (auto simp: handleAuthorizePost_def)
  obtain req problem where r: "parseAuthorizeRequest env cfg f = (req, problem)" by fastforce
  with assms f have ok: "problem = []" by (auto simp: handleAuthorizePost_def split: if_splits)
  note parse = parseAuthorizeRequest_ok [OF r [unfolded ok]]
  have "trim_space (form_get f ''api_key'') \<noteq> [] \<and> oe_validate env (trim_space (form_get f ''api_key'')) \<and>
      uri = ar_redirect_uri req \<and> st = ar_state req \<and>
      EncodeCode (oe_crypto env) (oc_keys cfg) (oe_nonce env 0)
        \<lparr>cp_credential = \<lparr>cd_username = trim_space (form_get f ''username''),
                          cd_api_key = trim_space (form_get f ''api_key'')\<rparr>,
         cp_client_id = ar_client_id req, cp_redirect_uri = ar_redirect_uri req,
         cp_code_challenge = ar_code_challenge req, cp_expires = 0\<rparr> now = Some code"
    using assms by (auto simp: handleAuthorizePost_def f r ok Let_def split: if_splits option.splits)
  with parse f show ?thesis by metis
qed

definition example_meta :: client_metadata where
  "example_meta = \<lparr>cm_redirect_uris = [''https://a.example/cb''], cm_client_name = ''a'', cm_created_at = 7\<rparr>"

definition example_authorize_form :: form where
  "example_authorize_form =
     [(''response_type'', ''code''), (''client_id'', EncodeClientID example_crypto example_keys example_meta),
      (''redirect_uri'', ''https://a.example/cb''), (''code_challenge'', base64_encode ''v''),
      (''code_challenge_method'', ''S256''), (''api_key'', '' 1-abc'')]"

lemma example_client_decodes:
  "DecodeClientID example_crypto example_keys (EncodeClientID example_crypto example_keys example_meta) = Some example_meta"
  by (rule DecodeClientID_EncodeClientID)
     (simp_all add: example_crypto_ok client_metadata_ok_def example_meta_def ascii_utf8 in_int64_def)

lemma trim_example_key: "trim_space '' 1-abc'' = ''1-abc''"
  by (simp add: trim_space_def trim_by.simps space_bytes_def)

lemma example_authorize:
  "\<exists>code. handleAuthorizePost example_env example_config (Some example_authorize_form) 0 =
     RedirectBack ''https://a.example/cb'' code []"
proof -
  have "EncodeClientID example_crypto example_keys example_meta \<noteq> []"
    by (simp add: EncodeClientID_def Let_def ClientIDPrefix_def)
  moreover have "base64_encode ''v'' \<noteq> []" by simp
  moreover have "cm_redirect_uris example_meta = [''https://a.example/cb'']" by (simp add: example_meta_def)
  ultimately have req: "\<exists>req. parseAuthorizeRequest example_env example_config example_authorize_form = (req, []) \<and>
      ar_redirect_uri req = ''https://a.example/cb'' \<and> ar_state req = []"
    by (simp add: parseAuthorizeRequest_def Let_def example_authorize_form_def form_get_def example_env_def
        example_config_def example_client_decodes ValidateRedirectURI_def del: base64_encode.simps)
  have "\<exists>code. EncodeCode example_crypto example_keys example_nonce p 0 = Some code" for p
    using seal_Some [OF example_nonce_ok] by (fastforce simp: EncodeCode_def)
  with req show ?thesis
    by (auto simp: handleAuthorizePost_def Let_def form_get_def example_authorize_form_def trim_example_key
        example_env_def example_config_def split: option.split)
qed

lemma code_only_after_consent_witness:
  "\<exists>code. handleAuthorizePost example_env example_config (Some example_authorize_form) 0 =
     RedirectBack ''https://a.example/cb'' code [] \<and> oe_validate example_env ''1-abc''"
proof -
  obtain code where code: "handleAuthorizePost example_env example_config (Some example_authorize_form) 0 =
     RedirectBack ''https://a.example/cb'' code []" using example_authorize by blast
  from code_only_after_consent [OF this] have "oe_validate example_env (trim_space (form_get example_authorize_form ''api_key''))"
    by auto
  with code show ?thesis by (simp add: form_get_def example_authorize_form_def trim_example_key)
qed

subsection \<open>A code has several texts\<close>

text \<open>
  The identifier under which a code is claimed is a digest of its text, but the text is decoded by a
  decoder that skips line breaks. A line feed after a code gives another text, hence another identifier,
  of the same code, so the code redeems again.
\<close>

lemma DecodeCode_line_feed:
  assumes "DecodeCode cy ks code now = Some p"
  shows "DecodeCode cy ks (code @ [CHR 0x0A]) now = Some p"
proof -
  from assms obtain body where body: "code = CodePrefix @ body"
    by (auto simp: DecodeCode_def cut_prefix_Some split: option.splits)
  have "open_sealed cy ks codePurpose (body @ [CHR 0x0A]) = open_sealed cy ks codePurpose body"
    by (simp add: open_sealed_def base64_line_feed)
  moreover have "cut_prefix CodePrefix ((CodePrefix @ body) @ [CHR 0x0A]) = Some (body @ [CHR 0x0A])"
    by (simp add: cut_prefix_Some)
  ultimately show ?thesis using assms by (simp add: DecodeCode_def body)
qed

lemma code_redeemable_again:
  "\<exists>r r'. fst (handleToken example_env example_config (Some (code_form example_code)) 0 0 NewReplayCache) = Tokens r \<and>
     fst (handleToken example_env example_config (Some (code_form (example_code @ [CHR 0x0A]))) 1 1
       (snd (handleToken example_env example_config (Some (code_form example_code)) 0 0 NewReplayCache))) = Tokens r'"
proof -
  let ?code' = "example_code @ [CHR 0x0A]"
  let ?codes = "snd (handleToken example_env example_config (Some (code_form example_code)) 0 0 NewReplayCache)"
  have g: "form_get (code_form c) ''grant_type'' = ''authorization_code''" for c
    by (simp add: code_form_def form_get_def)
  obtain r where r: "fst (handleToken example_env example_config (Some (code_form example_code)) 0 0 NewReplayCache) = Tokens r"
    using example_first_redemption by blast
  have t0: "unix_seconds 0 < 60" "unix_seconds 1 < 60" by (simp_all add: unix_seconds_def)
  have "DecodeCode example_crypto example_keys ?code' 1 = Some (example_payload\<lparr>cp_expires := 60\<rparr>)"
    using t0(2) by (intro DecodeCode_line_feed) (simp add: example_code_decodes)
  then have ok: "grant_ok example_env example_config (code_form ?code') 1 = Some (example_payload\<lparr>cp_expires := 60\<rparr>)"
    by (simp add: grant_ok_def code_form_def form_get_def example_env_def example_config_def example_payload_def
        verifyPKCE_def example_crypto_def)
  have inj: "hex_encode (s @ [c]) \<noteq> hex_encode s" for s c
  proof -
    have "length (hex_encode s) = 2 * length s" for s by (induction s) simp_all
    then show ?thesis by (metis length_append_singleton n_not_Suc_n nat_mult_eq_cancel1 zero_less_numeral)
  qed
  have "?codes = snd (Claim NewReplayCache 0 (replay_id example_env (code_form example_code)) CodeTTL)"
    by (simp add: authorization_form [OF g] code_grant_Some [OF example_grant_ok [OF t0(1)]])
  moreover have "replay_id example_env (code_form ?code') \<noteq> replay_id example_env (code_form example_code)"
    using inj by (simp add: replay_id_def CodeReplayID_def code_form_def form_get_def example_env_def example_crypto_def)
  ultimately have "\<not> held ?codes 1 (replay_id example_env (code_form ?code'))"
    by (simp add: held_def Claim_def NewReplayCache_def sweepLocked_def)
  then have "fst (Claim ?codes 1 (replay_id example_env (code_form ?code')) CodeTTL)"
    by (simp add: replay.claim_iff)
  then show ?thesis
    using r example_tokens [of 1] by (simp add: authorization_form [OF g] code_grant_Some [OF ok])
qed

end
