(* ===== verification/Session.thy ===== *)
theory Session
  imports OAuth_Server Jobs
begin

section \<open>Credentials and sessions\<close>

text \<open>
  \<^verbatim>\<open>internal/server/session.go\<close>, the login of \<^verbatim>\<open>internal/truenas/client.go\<close>, and the credential gate
  of \<^verbatim>\<open>internal/server/mcp.go\<close>: where a request's API key comes from, how a session is opened, when the
  connection behind a credential is replaced, and how handlers are cached per credential.

  A session is an opaque name of the connection behind it. Whether it is alive and what the next attempt
  to open one gives are parameters.
\<close>

subsection \<open>The credential of a request\<close>

datatype credential_error = ErrNoCredential | ErrInvalidCredential

text \<open>
  The two headers are the values of \<^verbatim>\<open>X-TrueNAS-API-Key\<close> and \<^verbatim>\<open>Authorization\<close>, empty when absent. No
  letter outside ASCII folds to a letter of \<open>bearer\<close>.
\<close>

definition CredentialFromRequest ::
  "crypto \<Rightarrow> keys option \<Rightarrow> int \<Rightarrow> string \<Rightarrow> string \<Rightarrow> credential_error + string" where
  "CredentialFromRequest cy oauthKeys now apiKeyHeader auth =
     (let v = trim_space apiKeyHeader
      in if v \<noteq> [] then Inr v
         else case cut_char (CHR '' '') auth of
           None \<Rightarrow> Inl ErrNoCredential
         | Some (scheme, value) \<Rightarrow>
             if to_lower (trim_space scheme) \<noteq> ''bearer'' then Inl ErrNoCredential
             else
               let token = trim_space value
               in if token = [] then Inl ErrNoCredential
                  else case oauthKeys of
                    None \<Rightarrow> Inr token
                  | Some ks \<Rightarrow>
                      if IsAccessToken token then
                        (case DecodeAccessToken cy ks token now of
                           None \<Rightarrow> Inl ErrInvalidCredential
                         | Some payload \<Rightarrow> Inr (cd_api_key (tp_credential payload)))
                      else Inr token)"

definition wwwAuthenticateChallenge :: "string \<Rightarrow> string" where
  "wwwAuthenticateChallenge resourceMetadataURL =
     (if resourceMetadataURL = [] then ''Bearer realm=\"truenas-mcp\"''
      else ''Bearer realm=\"truenas-mcp\", resource_metadata='' @ go_quote resourceMetadataURL)"

datatype 'h gate_answer = Unauthorized string credential_error | Served 'h

definition RequireCredential ::
  "crypto \<Rightarrow> keys option \<Rightarrow> string \<Rightarrow> int \<Rightarrow> string \<Rightarrow> string \<Rightarrow> 'h \<Rightarrow> 'h gate_answer" where
  "RequireCredential cy oauthKeys resourceMetadataURL now apiKeyHeader auth handler =
     (case CredentialFromRequest cy oauthKeys now apiKeyHeader auth of
        Inl e \<Rightarrow> Unauthorized (wwwAuthenticateChallenge resourceMetadataURL) e
      | Inr key \<Rightarrow> Served handler)"

subsection \<open>Opening a session\<close>

definition Login :: "middleware \<Rightarrow> string \<Rightarrow> trace \<Rightarrow> go_error option \<times> trace" where
  "Login mw apiKey tr =
     (case mw_call mw ''auth.login_with_api_key'' [JStr apiKey] tr of
        (Inl e, tr') \<Rightarrow> (Some (scrub e apiKey), tr')
      | (Inr raw, tr') \<Rightarrow>
          (case unmarshal dec_bool raw of
             None \<Rightarrow> (Some (Wrapped (sentinel_text ErrUnauthenticated @ '': unexpected login response'')
                         [Sentinel ErrUnauthenticated]), tr')
           | Some accepted \<Rightarrow>
               if \<not> accepted then
                 (Some (Wrapped (sentinel_text ErrUnauthenticated @ '': the target rejected the API key'')
                    [Sentinel ErrUnauthenticated]), tr')
               else (None, tr')))"

text \<open>
  \<^verbatim>\<open>SessionManager.Open\<close>. Dialling is a parameter, the error of the failed attempt or none; the flag of the
  result says that a connection was opened and closed again.
\<close>

definition Open :: "middleware \<Rightarrow> go_error option \<Rightarrow> string \<Rightarrow> trace \<Rightarrow> (go_error + unit) \<times> bool \<times> trace" where
  "Open mw dial apiKey tr =
     (case dial of
        Some e \<Rightarrow> (Inl e, False, tr)
      | None \<Rightarrow>
          (case Login mw apiKey tr of
             (Some e, tr') \<Rightarrow> (Inl e, True, tr')
           | (None, tr') \<Rightarrow>
               (case CheckVersion mw tr' of
                  ((Some e, v), tr'') \<Rightarrow> (Inl e, True, tr'')
                | ((None, v), tr'') \<Rightarrow> (Inr (), False, tr''))))"

text \<open>The validator of the authorization endpoint opens a session and closes it again.\<close>

definition Validate :: "middleware \<Rightarrow> go_error option \<Rightarrow> string \<Rightarrow> trace \<Rightarrow> go_error option \<times> trace" where
  "Validate mw dial apiKey tr =
     (case Open mw dial apiKey tr of
        (Inl e, shut, tr') \<Rightarrow> (Some e, tr')
      | (Inr u, shut, tr') \<Rightarrow> (None, tr'))"

subsection \<open>Tracked sessions\<close>

text \<open>The manager's table, and the sessions an operation closes.\<close>

type_synonym 's session_table = "'s gomap"

definition Track :: "string \<Rightarrow> 's \<Rightarrow> 's session_table \<Rightarrow> 's session_table" where
  "Track i s m = map_put i s m"

definition Release :: "string \<Rightarrow> 's session_table \<Rightarrow> 's list \<times> 's session_table" where
  "Release i m =
     ((case map_of m i of None \<Rightarrow> [] | Some s \<Rightarrow> [s]), filter (\<lambda>(k, _). k \<noteq> i) m)"

definition CloseAll :: "'s session_table \<Rightarrow> 's list \<times> 's session_table" where
  "CloseAll m = (map snd m, [])"

subsection \<open>The provider behind one credential\<close>

record 's provider =
  pv_opened :: bool
  pv_session :: "'s option"
  pv_error :: "go_error option"
  pv_attempts :: nat

definition NewSessionProvider :: "'s provider" where
  "NewSessionProvider = \<lparr>pv_opened = False, pv_session = None, pv_error = None, pv_attempts = 0\<rparr>"

text \<open>
  One call of the provider. \<open>attempt n\<close> is what the \<open>n\<close>-th attempt to open a session gives; the
  result carries the sessions closed and the table with the tracked session.
\<close>

definition open_once :: "(nat \<Rightarrow> go_error + 's) \<Rightarrow> string \<Rightarrow> 's provider \<Rightarrow> 's session_table \<Rightarrow>
    's provider \<times> 's session_table" where
  "open_once attempt i p m =
     (if pv_opened p then (p, m)
      else case attempt (pv_attempts p) of
        Inl e \<Rightarrow> (p\<lparr>pv_opened := True, pv_error := Some e, pv_attempts := Suc (pv_attempts p)\<rparr>, m)
      | Inr s \<Rightarrow> (p\<lparr>pv_opened := True, pv_session := Some s, pv_attempts := Suc (pv_attempts p)\<rparr>, Track i s m))"

definition provide ::
  "(nat \<Rightarrow> go_error + 's) \<Rightarrow> ('s \<Rightarrow> bool) \<Rightarrow> string \<Rightarrow> 's provider \<Rightarrow> 's session_table \<Rightarrow>
     (go_error + 's option) \<times> 's list \<times> 's provider \<times> 's session_table" where
  "provide attempt alive i p0 m0 =
     (case open_once attempt i p0 m0 of (p, m) \<Rightarrow>
        (case pv_error p of
           Some e \<Rightarrow> (Inl e, [], p, m)
         | None \<Rightarrow>
             (case pv_session p of
                None \<Rightarrow> (Inr None, [], p, m)
              | Some s \<Rightarrow>
                  if alive s then (Inr (Some s), [], p, m)
                  else (case attempt (pv_attempts p) of
                    Inl e \<Rightarrow> (Inl e, [], p\<lparr>pv_attempts := Suc (pv_attempts p)\<rparr>, m)
                  | Inr s' \<Rightarrow>
                      (Inr (Some s'), [s], p\<lparr>pv_session := Some s', pv_attempts := Suc (pv_attempts p)\<rparr>,
                       Track i s' m)))))"

subsection \<open>Handlers per credential\<close>

definition credentialID :: "crypto \<Rightarrow> string \<Rightarrow> string" where
  "credentialID cy apiKey = hex_encode (take 8 (cy_sha256 cy apiKey))"

text \<open>The cache of handlers, each identified with the API key its provider was made with.\<close>

definition handlerFor :: "crypto \<Rightarrow> string \<Rightarrow> (string \<rightharpoonup> string) \<Rightarrow> string \<times> (string \<rightharpoonup> string)" where
  "handlerFor cy apiKey cache =
     (let i = credentialID cy apiKey
      in case cache i of
           Some bound_key \<Rightarrow> (bound_key, cache)
         | None \<Rightarrow> (apiKey, cache(i \<mapsto> apiKey)))"

definition ServeHTTP ::
  "crypto \<Rightarrow> keys option \<Rightarrow> string \<Rightarrow> int \<Rightarrow> string \<Rightarrow> string \<Rightarrow> (string \<rightharpoonup> string) \<Rightarrow>
     string gate_answer \<times> (string \<rightharpoonup> string)" where
  "ServeHTTP cy oauthKeys resourceMetadataURL now apiKeyHeader auth cache =
     (case CredentialFromRequest cy oauthKeys now apiKeyHeader auth of
        Inl e \<Rightarrow> (Unauthorized (wwwAuthenticateChallenge resourceMetadataURL) e, cache)
      | Inr key \<Rightarrow> (case handlerFor cy key cache of (h, cache') \<Rightarrow> (Served h, cache')))"

subsection \<open>Lemmas\<close>

text \<open>Text that starts and ends with printable ASCII is not trimmed.\<close>

definition printable :: "char \<Rightarrow> bool" where
  "printable c \<longleftrightarrow> c \<notin> set (map hd space_bytes) \<and> c \<notin> set (map last space_bytes)"

lemma first_cut_None: "s \<noteq> [] \<Longrightarrow> [] \<notin> set ps \<Longrightarrow> hd s \<notin> set (map hd ps) \<Longrightarrow> first_cut ps s = None"
proof (induction ps)
  case (Cons p ps)
  then have "cut_prefix p s = None" by (cases p; cases s) auto
  with Cons show ?case by simp
qed simp

lemma trim_by_same: "first_cut ps s = None \<Longrightarrow> trim_by ps s = s"
  by (subst trim_by.simps) simp

lemma trim_space_same:
  assumes "s \<noteq> []" and "printable (hd s)" and "printable (last s)"
  shows "trim_space s = s"
proof -
  have "first_cut space_bytes s = None"
    using assms(1,2) space_bytes_nonempty(1) by (intro first_cut_None) (simp_all add: printable_def)
  moreover have "map hd (map rev space_bytes) = map last space_bytes"
    using space_bytes_nonempty(1) by (auto simp: hd_rev)
  then have "first_cut (map rev space_bytes) (rev s) = None"
    using assms(1,3) space_bytes_nonempty(2) by (intro first_cut_None) (simp_all add: printable_def hd_rev comp_def)
  ultimately show ?thesis by (simp add: trim_space_def trim_by_same)
qed

lemma alphabet_printable: "list_all printable alphabet"
  by (simp add: alphabet_def printable_def space_bytes_def)

lemma base64_nonempty: "s \<noteq> [] \<Longrightarrow> base64_encode s \<noteq> []"
  by (cases s rule: base64_encode.cases) simp_all

lemma EncodeAccessToken_parts:
  assumes "EncodeAccessToken cy ks nonce cred ttl now = Some access" and "nonce_ok nonce"
  shows "trim_space access = access \<and> IsAccessToken access \<and> access \<noteq> []"
proof -
  from assms obtain n body where n: "length n = nonceSize" and body: "access = AccessTokenPrefix @ base64_encode (n @ body)"
    by (auto simp: EncodeAccessToken_def encodeToken_def seal_def nonce_ok_def split: option.splits)
  have ne: "base64_encode (n @ body) \<noteq> []" using n by (intro base64_nonempty) (auto simp: nonceSize_def)
  then have "last access \<in> set alphabet"
    using base64_alphabet [of "n @ body"] by (auto simp: body)
  then have "printable (last access)" using alphabet_printable by (auto simp: list_all_iff)
  moreover have "printable (hd access)"
    by (simp add: body AccessTokenPrefix_def printable_def space_bytes_def)
  moreover have "access \<noteq> []" by (simp add: body AccessTokenPrefix_def)
  ultimately have "trim_space access = access" by (intro trim_space_same)
  then show ?thesis using \<open>access \<noteq> []\<close> by (simp add: IsAccessToken_def has_prefix_def body)
qed

lemma bearer_scheme: "to_lower (trim_space ''Bearer'') = ''bearer''"
proof -
  have "trim_space ''Bearer'' = ''Bearer''"
    by (rule trim_space_same) (simp_all add: printable_def space_bytes_def)
  moreover have "char_of (98 :: nat) = CHR ''b''" by code_simp
  ultimately show ?thesis by (simp add: lower_char_def)
qed

lemma trim_space_Nil [simp]: "trim_space [] = []"
proof -
  have "first_cut ps [] = None" if "[] \<notin> set ps" for ps
    using that
  proof (induction ps)
    case (Cons p ps)
    then show ?case by (cases p) simp_all
  qed simp
  then show ?thesis using space_bytes_nonempty by (simp add: trim_space_def trim_by_same)
qed

lemma bearer_credential:
  "CredentialFromRequest cy oauthKeys now [] (''Bearer '' @ value) =
     (if trim_space value = [] then Inl ErrNoCredential
      else case oauthKeys of
        None \<Rightarrow> Inr (trim_space value)
      | Some ks \<Rightarrow>
          if IsAccessToken (trim_space value) then
            (case DecodeAccessToken cy ks (trim_space value) now of
               None \<Rightarrow> Inl ErrInvalidCredential
             | Some payload \<Rightarrow> Inr (cd_api_key (tp_credential payload)))
          else Inr (trim_space value))"
proof -
  have "cut_char (CHR '' '') (''Bearer '' @ value) = Some (''Bearer'', value)" by simp
  then show ?thesis by (simp add: CredentialFromRequest_def Let_def bearer_scheme del: cut_char.simps)
qed

lemma issued_token_authenticates:
  assumes "crypto_ok cy" and "nonce_ok nonce" and "credential_ok cred"
    and "in_int64 (unix_seconds (now + ttl))" and "EncodeAccessToken cy ks nonce cred ttl now = Some access"
  shows "CredentialFromRequest cy (Some ks) later [] (''Bearer '' @ access) =
    (if unix_seconds later < unix_seconds (now + ttl) then Inr (cd_api_key cred) else Inl ErrInvalidCredential)"
proof -
  have "DecodeAccessToken cy ks access later =
      (if unix_seconds later < unix_seconds (now + ttl)
       then Some \<lparr>tp_credential = cred, tp_expires = unix_seconds (now + ttl)\<rparr> else None)"
    using decodeToken_encodeToken [OF assms(1,3,4,2)] assms(5)
    by (simp add: EncodeAccessToken_def DecodeAccessToken_def)
  with EncodeAccessToken_parts [OF assms(5,2)] show ?thesis unfolding bearer_credential by simp
qed

lemma Login_trace: "snd (Login mw k tr) = tr @ [\<lparr>mc_method = ''auth.login_with_api_key'', mc_params = [JStr k]\<rparr>]"
  by (simp add: Login_def split: sum.split option.split)

lemma dec_bool_True: "dec_bool (Some v) = Some True \<longleftrightarrow> v = JBool True"
  by (cases v) simp_all

lemma Login_accepts:
  "fst (Login mw k tr) = None \<longleftrightarrow>
     mw tr \<lparr>mc_method = ''auth.login_with_api_key'', mc_params = [JStr k]\<rparr> = Inr (Some (JBool True))"
proof (cases "mw tr \<lparr>mc_method = ''auth.login_with_api_key'', mc_params = [JStr k]\<rparr>")
  case (Inl e)
  then show ?thesis by (simp add: Login_def)
next
  case (Inr raw)
  show ?thesis
  proof (cases raw)
    case None
    with Inr show ?thesis by (simp add: Login_def)
  next
    case (Some v)
    with Inr dec_bool_True [of v] show ?thesis
      by (cases "dec_bool (Some v)") (simp_all add: Login_def)
  qed
qed

lemma CheckVersion_trace: "snd (CheckVersion mw tr) = tr @ [\<lparr>mc_method = ''system.version'', mc_params = []\<rparr>]"
  by (simp add: CheckVersion_def Let_def split: sum.split option.split prod.split)

subsection \<open>Properties\<close>

text \<open>
  The whole authorization flow hands the client the resource owner's own key and nothing else. When
  the authorization endpoint has redirected with a code, the client that presents this code in time, with
  the same client id and redirect URI and a verifier of the challenge, and for the first time, gets an
  access token; and a request with that token as its bearer credential is served with exactly the API key
  the resource owner submitted, until the token expires, and refused afterwards.
\<close>

theorem oauth_flow:
  assumes "crypto_ok (oe_crypto env)" and "nonce_ok (oe_nonce env 0)" and "nonce_ok (oe_nonce env 1)"
    and "handleAuthorizePost env cfg (Some f) t0 = RedirectBack uri code st"
    and "list_all (\<lambda>k. utf8_valid (form_get f k)) [''client_id'', ''redirect_uri'', ''code_challenge'']"
    and "credential_ok \<lparr>cd_username = trim_space (form_get f ''username''), cd_api_key = trim_space (form_get f ''api_key'')\<rparr>"
    and "in_int64 (unix_seconds (t0 + CodeTTL))" and "in_int64 (unix_seconds (t1 + oc_access_ttl cfg))"
    and "form_get g ''grant_type'' = ''authorization_code''" and "form_get g ''code'' = code"
    and "form_get g ''client_id'' = form_get f ''client_id''" and "form_get g ''client_id'' \<noteq> []"
    and "form_get g ''redirect_uri'' = uri" and "uri \<noteq> []" and "form_get g ''code_verifier'' \<noteq> []"
    and "base64_encode (cy_sha256 (oe_crypto env) (form_get g ''code_verifier'')) = form_get f ''code_challenge''"
    and "unix_seconds t1 < unix_seconds (t0 + CodeTTL)" and "\<not> held codes t1 (replay_id env g)"
  shows "\<exists>r. fst (handleToken env cfg (Some g) t1 t1 codes) = Tokens r \<and>
    CredentialFromRequest (oe_crypto env) (Some (oc_keys cfg)) t2 [] (''Bearer '' @ tr_access_token r) =
      (if unix_seconds t2 < unix_seconds (t1 + oc_access_ttl cfg)
       then Inr (trim_space (form_get f ''api_key'')) else Inl ErrInvalidCredential)"
proof -
  let ?cred = "\<lparr>cd_username = trim_space (form_get f ''username''), cd_api_key = trim_space (form_get f ''api_key'')\<rparr>"
  let ?p = "\<lparr>cp_credential = ?cred, cp_client_id = form_get f ''client_id'', cp_redirect_uri = uri,
       cp_code_challenge = form_get f ''code_challenge'', cp_expires = 0\<rparr>"
  obtain req problem where r: "parseAuthorizeRequest env cfg f = (req, problem)" by fastforce
  with assms(4) have ok: "problem = []" by (auto simp: handleAuthorizePost_def split: if_splits)
  note parse = parseAuthorizeRequest_ok [OF r [unfolded ok]]
  have code: "uri = ar_redirect_uri req \<and> EncodeCode (oe_crypto env) (oc_keys cfg) (oe_nonce env 0)
      \<lparr>cp_credential = ?cred, cp_client_id = ar_client_id req, cp_redirect_uri = ar_redirect_uri req,
       cp_code_challenge = ar_code_challenge req, cp_expires = 0\<rparr> t0 = Some code"
    using assms(4) by (auto simp: handleAuthorizePost_def r ok Let_def split: if_splits option.splits)
  then have enc: "EncodeCode (oe_crypto env) (oc_keys cfg) (oe_nonce env 0) ?p t0 = Some code"
    using parse by simp
  have "code_payload_ok ?p" using assms(5,6) code parse by (simp add: code_payload_ok_def)
  from DecodeCode_EncodeCode [OF assms(1) this assms(7,2) enc, of t1] assms(17)
  have dec: "DecodeCode (oe_crypto env) (oc_keys cfg) code t1 = Some (?p\<lparr>cp_expires := unix_seconds (t0 + CodeTTL)\<rparr>)"
    by simp
  then have "code \<noteq> []" by (auto simp: DecodeCode_def CodePrefix_def)
  with dec have grant: "grant_ok env cfg g t1 = Some (?p\<lparr>cp_expires := unix_seconds (t0 + CodeTTL)\<rparr>)"
    using assms(10-16) by (simp add: grant_ok_def verifyPKCE_def)
  obtain access where access: "EncodeAccessToken (oe_crypto env) (oc_keys cfg) (oe_nonce env 0) ?cred
      (oc_access_ttl cfg) t1 = Some access"
    using seal_Some [OF assms(2)] by (fastforce simp: EncodeAccessToken_def encodeToken_def)
  obtain refresh where "EncodeRefreshToken (oe_crypto env) (oc_keys cfg) (oe_nonce env 1) ?cred
      (oc_refresh_ttl cfg) t1 = Some refresh"
    using seal_Some [OF assms(3)] by (fastforce simp: EncodeRefreshToken_def encodeToken_def)
  with access have "\<exists>resp. issueTokens env cfg ?cred t1 = Tokens resp \<and> tr_access_token resp = access"
    by (cases "0 < oc_refresh_ttl cfg") (simp_all add: issueTokens_def Let_def)
  then obtain resp where resp: "issueTokens env cfg ?cred t1 = Tokens resp" "tr_access_token resp = access" by blast
  have "fst (handleToken env cfg (Some g) t1 t1 codes) = Tokens resp"
    using assms(18) resp(1) by (simp add: authorization_form [OF assms(9)] code_grant_Some [OF grant] replay.claim_iff)
  moreover note issued_token_authenticates [OF assms(1,2,6,8) access, of t2]
  ultimately show ?thesis using resp(2) by auto
qed

lemma oauth_flow_witness:
  "\<exists>code r. handleAuthorizePost example_env example_config (Some example_authorize_form) 0 =
     RedirectBack ''https://a.example/cb'' code [] \<and>
   fst (handleToken example_env example_config (Some
     [(''grant_type'', ''authorization_code''), (''code'', code),
      (''client_id'', EncodeClientID example_crypto example_keys example_meta),
      (''redirect_uri'', ''https://a.example/cb''), (''code_verifier'', ''v'')]) 1 1 NewReplayCache) = Tokens r \<and>
   CredentialFromRequest example_crypto (Some example_keys) 2 [] (''Bearer '' @ tr_access_token r) = Inr ''1-abc''"
proof -
  obtain code where code: "handleAuthorizePost example_env example_config (Some example_authorize_form) 0 =
     RedirectBack ''https://a.example/cb'' code []" using example_authorize by blast
  let ?g = "[(''grant_type'', ''authorization_code''), (''code'', code),
      (''client_id'', EncodeClientID example_crypto example_keys example_meta),
      (''redirect_uri'', ''https://a.example/cb''), (''code_verifier'', ''v'')]"
  have cid: "EncodeClientID example_crypto example_keys example_meta \<noteq> []"
    by (simp add: EncodeClientID_def Let_def ClientIDPrefix_def)
  have utf: "utf8_valid (EncodeClientID example_crypto example_keys example_meta)"
  proof -
    have "list_all (\<lambda>c. (of_char c :: nat) < 128) alphabet" by (simp add: alphabet_def)
    then have "list_all (\<lambda>c. (of_char c :: nat) < 128) (base64_encode s)" for s
      using base64_alphabet [of s] by (auto simp: list_all_iff)
    then show ?thesis by (intro ascii_utf8) (simp add: EncodeClientID_def Let_def ClientIDPrefix_def)
  qed
  have "\<exists>r. fst (handleToken example_env example_config (Some ?g) 1 1 NewReplayCache) = Tokens r \<and>
      CredentialFromRequest (oe_crypto example_env) (Some (oc_keys example_config)) 2 [] (''Bearer '' @ tr_access_token r) =
      (if unix_seconds 2 < unix_seconds (1 + oc_access_ttl example_config)
       then Inr (trim_space (form_get example_authorize_form ''api_key'')) else Inl ErrInvalidCredential)"
  proof (rule oauth_flow)
    show "handleAuthorizePost example_env example_config (Some example_authorize_form) 0 =
      RedirectBack ''https://a.example/cb'' code []" by (rule code)
    show "list_all (\<lambda>k. utf8_valid (form_get example_authorize_form k)) [''client_id'', ''redirect_uri'', ''code_challenge'']"
      using utf by (simp add: form_get_def example_authorize_form_def ascii_utf8 del: base64_encode.simps)
    show "base64_encode (cy_sha256 (oe_crypto example_env) (form_get ?g ''code_verifier'')) =
        form_get example_authorize_form ''code_challenge''"
      by (simp add: form_get_def example_authorize_form_def example_env_def example_crypto_def del: base64_encode.simps)
  qed (use cid in \<open>simp_all add: example_env_def example_crypto_ok example_nonce_ok form_get_def example_authorize_form_def
      trim_example_key credential_ok_def ascii_utf8 in_int64_def unix_seconds_def CodeTTL_def example_config_def held_def
      NewReplayCache_def\<close>)
  with code show ?thesis
    by (simp add: form_get_def example_authorize_form_def trim_example_key unix_seconds_def example_config_def
        example_env_def)
qed

text \<open>
  A connection is reused while it lives and replaced when it is dead. Once a session is open, the
  provider makes no attempt to authenticate as long as it is alive; when it is dead, it makes exactly one,
  hands out the new session, closes the dead one and tracks the new one, or reports why it could not and
  keeps trying on later calls. A session handed out is alive or comes from an attempt made in this call.
\<close>

theorem provider_reuses_live_session:
  "case provide attempt alive i p m of (res, shut, p', m') \<Rightarrow>
     (case res of
        Inr (Some s) \<Rightarrow>
          (alive s \<or> list_ex (\<lambda>n. attempt n = Inr s) [pv_attempts p ..< pv_attempts p']) \<and> pv_session p' = Some s
      | _ \<Rightarrow> shut = []) \<and>
     (if pv_opened p \<and> pv_error p = None then
        (case pv_session p of
           None \<Rightarrow> p' = p \<and> m' = m
         | Some s \<Rightarrow>
             if alive s then res = Inr (Some s) \<and> shut = [] \<and> p' = p \<and> m' = m
             else pv_attempts p' = Suc (pv_attempts p) \<and>
               (case attempt (pv_attempts p) of
                  Inl e \<Rightarrow> res = Inl e \<and> pv_session p' = Some s \<and> m' = m
                | Inr s' \<Rightarrow> res = Inr (Some s') \<and> shut = [s] \<and> map_of m' i = Some s'))
      else True)"
proof (cases "pv_opened p")
  case True
  then show ?thesis
    by (auto simp: provide_def open_once_def Track_def map_of_map_put split: option.split sum.split)
next
  case False
  show ?thesis
  proof (cases "attempt (pv_attempts p)")
    case (Inl e)
    with False show ?thesis by (simp add: provide_def open_once_def)
  next
    case (Inr s)
    with False show ?thesis
      by (auto simp: provide_def open_once_def list_ex_iff split: option.split sum.split)
  qed
qed

text \<open>
  Callers are kept apart. Without a credential a request changes nothing and is challenged; with one
  it is served by a handler whose key has the same identifier as its own, which later requests with that
  key reuse; and the cache stays such that every handler is filed under the identifier of its own key.
\<close>

theorem callers_kept_apart:
  assumes "\<forall>i k. cache i = Some k \<longrightarrow> credentialID cy k = i"
  shows "case ServeHTTP cy oauthKeys url now apiKeyHeader auth cache of
      (Unauthorized challenge e, cache') \<Rightarrow>
        cache' = cache \<and> CredentialFromRequest cy oauthKeys now apiKeyHeader auth = Inl e \<and>
        has_prefix ''Bearer realm='' challenge
    | (Served k, cache') \<Rightarrow>
        (\<exists>key. CredentialFromRequest cy oauthKeys now apiKeyHeader auth = Inr key \<and>
           credentialID cy k = credentialID cy key \<and> cache' (credentialID cy key) = Some k) \<and>
        (\<forall>i k. cache' i = Some k \<longrightarrow> credentialID cy k = i)"
proof (cases "CredentialFromRequest cy oauthKeys now apiKeyHeader auth")
  case (Inl e)
  then show ?thesis
    by (simp add: ServeHTTP_def wwwAuthenticateChallenge_def has_prefix_def)
next
  case (Inr key)
  with assms show ?thesis
    by (cases "cache (credentialID cy key)")
       (simp_all add: ServeHTTP_def handlerFor_def Let_def)
qed

lemma callers_kept_apart_witness:
  "ServeHTTP example_crypto None [] 0 ''1-abc'' [] (\<lambda>_. None) =
     (Served ''1-abc'', [credentialID example_crypto ''1-abc'' \<mapsto> ''1-abc'']) \<and>
   (\<exists>key. CredentialFromRequest example_crypto None 0 ''1-abc'' [] = Inr key \<and>
      credentialID example_crypto ''1-abc'' = credentialID example_crypto key)"
proof
  have t: "trim_space ''1-abc'' = ''1-abc''"
    by (rule trim_space_same) (simp_all add: printable_def space_bytes_def)
  show eq: "ServeHTTP example_crypto None [] 0 ''1-abc'' [] (\<lambda>_. None) =
     (Served ''1-abc'', [credentialID example_crypto ''1-abc'' \<mapsto> ''1-abc''])"
    by (simp add: ServeHTTP_def CredentialFromRequest_def t handlerFor_def Let_def)
  have "\<forall>i k. Map.empty i = Some k \<longrightarrow> credentialID example_crypto k = i" by simp
  from callers_kept_apart [OF this, where oauthKeys = None and url = "[]" and now = 0 and
      apiKeyHeader = "''1-abc''" and auth = "[]"]
  show "\<exists>key. CredentialFromRequest example_crypto None 0 ''1-abc'' [] = Inr key \<and>
      credentialID example_crypto ''1-abc'' = credentialID example_crypto key"
    unfolding eq prod.case gate_answer.case by blast
qed

text \<open>
  A session opens only for a key the target accepts, on a release that is supported: opening sends the
  key in the login call and nowhere else, then asks for the version; it succeeds exactly when dialling did,
  the login answered true and the version check found no fault; and a connection that was dialled is closed
  exactly when it fails.
\<close>

theorem Open_exact:
  "case Open mw dial k tr of (res, shut, tr') \<Rightarrow>
     (let login = \<lparr>mc_method = ''auth.login_with_api_key'', mc_params = [JStr k]\<rparr>;
          version = \<lparr>mc_method = ''system.version'', mc_params = []\<rparr>;
          accepted = (mw tr login = Inr (Some (JBool True)))
      in tr' = tr @ (if dial \<noteq> None then [] else if accepted then [login, version] else [login]) \<and>
         (res = Inr () \<longleftrightarrow> dial = None \<and> accepted \<and> fst (fst (CheckVersion mw (tr @ [login]))) = None) \<and>
         (shut \<longleftrightarrow> dial = None \<and> res \<noteq> Inr ()))"
proof (cases "dial = None")
  case False
  then show ?thesis by (auto simp: Open_def Let_def)
next
  case True
  let ?login = "\<lparr>mc_method = ''auth.login_with_api_key'', mc_params = [JStr k]\<rparr>"
  obtain err tr' where l: "Login mw k tr = (err, tr')" by fastforce
  with Login_trace [of mw k tr] have tr': "tr' = tr @ [?login]" by simp
  have acc: "err = None \<longleftrightarrow> mw tr ?login = Inr (Some (JBool True))"
    using Login_accepts [of mw k tr] l by simp
  obtain e v tr'' where c: "CheckVersion mw (tr @ [?login]) = ((e, v), tr'')" by (metis prod.collapse)
  with CheckVersion_trace [of mw "tr @ [?login]"] have "tr'' = tr @ [?login, \<lparr>mc_method = ''system.version'', mc_params = []\<rparr>]"
    by simp
  with True l tr' acc c show ?thesis
    by (cases err; cases e) (simp_all add: Open_def Let_def)
qed

subsection \<open>A first failure is final\<close>

text \<open>
  The first attempt of a provider runs under a \<^verbatim>\<open>sync.Once\<close> and its error is kept, so a target that was
  unreachable when a credential was first used stays so for that credential, however well a later attempt
  would go: no later attempt is made.
\<close>

lemma first_failure_is_final:
  assumes "attempt 0 = Inl e"
  shows "\<exists>p. provide attempt alive i NewSessionProvider m = (Inl e, [], p, m) \<and>
    (\<forall>attempt' alive' m'. provide attempt' alive' i p m' = (Inl e, [], p, m'))"
  using assms by (simp add: provide_def open_once_def NewSessionProvider_def)

end
