(* ===== verification/Config.thy ===== *)
theory Config
  imports OAuth_Tokens Jobs
begin

section \<open>Configuration\<close>

text \<open>
  \<^verbatim>\<open>internal/config/config.go\<close>: loading and validating the environment, the warnings, the summary line and the
  endpoint of the target. What the standard library does with host and port, booleans and integers is modelled; its
  parsers of URLs and durations are parameters, with the random key a start draws.
\<close>

subsection \<open>What the code uses of the standard library\<close>

text \<open>\<^verbatim>\<open>net.SplitHostPort\<close>: the port follows the last colon, a host with colons is in brackets.\<close>

definition split_last :: "char \<Rightarrow> string \<Rightarrow> (string \<times> string) option" where
  "split_last c s = map_option (\<lambda>(a, b). (rev b, rev a)) (cut_char c (rev s))"

definition SplitHostPort :: "string \<Rightarrow> (string \<times> string) option" where
  "SplitHostPort s =
     (case split_last (CHR '':'') s of
        None \<Rightarrow> None
      | Some (before, port) \<Rightarrow>
          if s \<noteq> [] \<and> hd s = CHR ''['' then
            (case cut_char (CHR '']'') (tl s) of
               None \<Rightarrow> None
             | Some (host, after) \<Rightarrow>
                 if after \<noteq> CHR '':'' # port \<or> CHR ''['' \<in> set (tl s) \<or> CHR '']'' \<in> set after then None
                 else Some (host, port))
          else if CHR '':'' \<in> set before \<or> CHR ''['' \<in> set s \<or> CHR '']'' \<in> set s then None
          else Some (before, port))"

text \<open>\<^verbatim>\<open>net.JoinHostPort\<close>.\<close>

definition JoinHostPort :: "string \<Rightarrow> string \<Rightarrow> string" where
  "JoinHostPort host port =
     (if CHR '':'' \<in> set host then ''['' @ host @ '']:'' @ port else host @ '':'' @ port)"

text \<open>\<^verbatim>\<open>strconv.Atoi\<close>: an optional sign and digits to the end, within range.\<close>

definition parse_int :: "string \<Rightarrow> int option" where
  "parse_int s =
     (let (neg, ds) = (case s of
            c # cs \<Rightarrow> if c = CHR ''-'' then (True, cs) else if c = CHR ''+'' then (False, cs) else (False, s)
          | [] \<Rightarrow> (False, []));
          n = foldl (\<lambda>n c. 10 * n + (of_char c - 48)) 0 ds;
          v = (if neg then - n else n)
      in if ds = [] \<or> \<not> list_all is_digit ds \<or> \<not> in_int64 v then None else Some v)"

text \<open>\<^verbatim>\<open>strconv.ParseBool\<close>.\<close>

definition parse_bool :: "string \<Rightarrow> bool option" where
  "parse_bool s =
     (if s \<in> set [''1'', ''t'', ''T'', ''TRUE'', ''true'', ''True''] then Some True
      else if s \<in> set [''0'', ''f'', ''F'', ''FALSE'', ''false'', ''False''] then Some False
      else None)"

text \<open>
  The rest: \<^verbatim>\<open>time.ParseDuration\<close> in nanoseconds, scheme and host of \<^verbatim>\<open>url.ParseRequestURI\<close>, whether \<^verbatim>\<open>url.Parse\<close>
  accepts, and the key \<^verbatim>\<open>GenerateMasterKey\<close> draws.
\<close>

record config_env =
  ce_duration :: "string \<Rightarrow> int option"
  ce_request_uri :: "string \<Rightarrow> (string \<times> string) option"
  ce_url_ok :: "string \<Rightarrow> bool"
  ce_fresh_key :: string

subsection \<open>The configuration\<close>

definition DefaultListen :: string where "DefaultListen = '':8080''"
definition APIPath :: string where "APIPath = ''/api/current''"

definition second :: int where "second = 1000000000"
definition DefaultOAuthAccessTokenTTL :: int where "DefaultOAuthAccessTokenTTL = 3600 * second"
definition DefaultOAuthRefreshTokenTTL :: int where "DefaultOAuthRefreshTokenTTL = 30 * 24 * 3600 * second"

datatype mode = ModeHTTP | ModeStdio

record config =
  cf_target :: string
  cf_listen :: string
  cf_tls_cert :: string
  cf_tls_key :: string
  cf_allow_plaintext :: bool
  cf_target_insecure :: bool
  cf_target_plaintext :: bool
  cf_enable_writes :: bool
  cf_api_key :: string
  cf_oauth_issuer :: string
  cf_oauth_encryption_key :: string
  cf_oauth_access_ttl :: int
  cf_oauth_refresh_ttl :: int
  cf_oauth_key :: string
  cf_oauth_key_generated :: bool
  cf_mode :: mode
  cf_listen_set :: bool
  cf_warnings :: "string list"

datatype config_error =
    NotADuration string
  | NegativeDuration string
  | ZeroAccessTTL
  | TargetRequired
  | TargetUnusable host_error
  | APIKeyRequired
  | APIKeyInHTTPMode
  | TLSFilesTogether
  | RefusingPlaintext
  | IssuerNotHTTPS string
  | EncryptionKeyInvalid key_error
  | ListenInvalid string
and host_error = ExpectedHost string | PortOutOfRange string | HostEmpty | URLInvalid

definition boolVar :: "(string \<Rightarrow> string) \<Rightarrow> string \<Rightarrow> bool" where
  "boolVar getenv key = (parse_bool (trim_space (getenv key)) = Some True)"

definition durationVar :: "config_env \<Rightarrow> (string \<Rightarrow> string) \<Rightarrow> string \<Rightarrow> int \<Rightarrow> config_error + int" where
  "durationVar env getenv key dflt =
     (let v = trim_space (getenv key)
      in if v = [] then Inr dflt
         else case ce_duration env v of
           None \<Rightarrow> Inl (NotADuration key)
         | Some d \<Rightarrow> if d < 0 then Inl (NegativeDuration key) else Inr d)"

definition OAuthEnabled :: "config \<Rightarrow> bool" where
  "OAuthEnabled c \<longleftrightarrow> cf_mode c = ModeHTTP \<and> cf_oauth_issuer c \<noteq> []"

definition TLSEnabled :: "config \<Rightarrow> bool" where
  "TLSEnabled c \<longleftrightarrow> cf_tls_cert c \<noteq> [] \<and> cf_tls_key c \<noteq> []"

definition forbidden_in_host :: string where
  "forbidden_in_host = [CHR '' '', CHR 0x09, CHR ''/'', CHR 0x5C, CHR ''?'', CHR ''#'', CHR ''%'']"

definition validateHost :: "config_env \<Rightarrow> string \<Rightarrow> host_error option" where
  "validateHost env target =
     (if list_ex (\<lambda>c. c \<in> set forbidden_in_host) target then Some (ExpectedHost target)
      else
        let (host, port_problem) = (case SplitHostPort target of
               None \<Rightarrow> (target, None)
             | Some (h, p) \<Rightarrow>
                 (h, case parse_int p of
                       None \<Rightarrow> Some (PortOutOfRange p)
                     | Some n \<Rightarrow> if n < 1 \<or> n > 65535 then Some (PortOutOfRange p) else None))
        in if port_problem \<noteq> None then port_problem
           else if host = [] then Some HostEmpty
           else if \<not> ce_url_ok env (''wss://'' @ target) then Some URLInvalid
           else None)"

definition validate :: "config_env \<Rightarrow> config \<Rightarrow> config_error option" where
  "validate env c =
     (if cf_target c = [] then Some TargetRequired
      else case validateHost env (cf_target c) of
        Some e \<Rightarrow> Some (TargetUnusable e)
      | None \<Rightarrow>
          if cf_mode c = ModeStdio then (if cf_api_key c = [] then Some APIKeyRequired else None)
          else if cf_api_key c \<noteq> [] then Some APIKeyInHTTPMode
          else if (cf_tls_cert c = []) \<noteq> (cf_tls_key c = []) then Some TLSFilesTogether
          else if \<not> TLSEnabled c \<and> \<not> cf_allow_plaintext c then Some RefusingPlaintext
          else if OAuthEnabled c \<and>
              (case ce_request_uri env (cf_oauth_issuer c) of
                 None \<Rightarrow> True
               | Some (scheme, host) \<Rightarrow> to_lower scheme \<noteq> ''https'' \<or> host = [])
            then Some (IssuerNotHTTPS (cf_oauth_issuer c))
          else
            (case (if OAuthEnabled c \<and> cf_oauth_encryption_key c \<noteq> []
                   then ParseMasterKey (cf_oauth_encryption_key c) else Inr []) of
               Inl e \<Rightarrow> Some (EncryptionKeyInvalid e)
             | Inr k \<Rightarrow>
                 if SplitHostPort (cf_listen c) = None then Some (ListenInvalid (cf_listen c)) else None))"

definition key_warning :: string where
  "key_warning = ''TRUENAS_MCP_OAUTH_ENCRYPTION_KEY is not set: a random key was generated for this process. Restarting invalidates every outstanding OAuth client registration, authorization code, and token (the TrueNAS credentials they wrap are unaffected). Set TRUENAS_MCP_OAUTH_ENCRYPTION_KEY to keep OAuth sessions stable across restarts.''"

definition collectWarnings :: "config \<Rightarrow> string list" where
  "collectWarnings c =
     (if cf_mode c = ModeStdio then
        (if cf_listen_set c then [''TRUENAS_MCP_LISTEN is set but has no effect in stdio mode''] else []) @
        (if cf_tls_cert c \<noteq> [] \<or> cf_tls_key c \<noteq> []
         then [''TRUENAS_MCP_TLS_CERT/TRUENAS_MCP_TLS_KEY are set but have no effect in stdio mode''] else []) @
        (if cf_allow_plaintext c then [''TRUENAS_MCP_ALLOW_PLAINTEXT is set but has no effect in stdio mode''] else []) @
        (if cf_oauth_issuer c \<noteq> [] then [''TRUENAS_MCP_OAUTH_ISSUER is set but has no effect in stdio mode''] else [])
      else if \<not> TLSEnabled c then
        [''serving MCP over plaintext: caller API keys are transmitted in the clear and TrueNAS may revoke them'']
      else []) @
     (if cf_target_insecure c then
        [''target certificate verification is disabled: the connection is encrypted but unauthenticated''] else []) @
     (if cf_target_plaintext c then
        [''connecting to the target over plaintext: TrueNAS may revoke API keys it observes in the clear''] else []) @
     (if cf_enable_writes c then [''write tier is enabled: mutating tools are exposed''] else []) @
     (if cf_mode c = ModeHTTP \<and> OAuthEnabled c \<and> cf_oauth_key_generated c then [key_warning] else [])"

text \<open>The struct \<^verbatim>\<open>Load\<close> fills before it validates.\<close>

definition read_config :: "(string \<Rightarrow> string) \<Rightarrow> mode \<Rightarrow> int \<Rightarrow> int \<Rightarrow> config" where
  "read_config getenv m accessTTL refreshTTL =
     (let var = (\<lambda>key. trim_space (getenv key)); listen = var ''TRUENAS_MCP_LISTEN''
      in \<lparr>cf_target = var ''TRUENAS_MCP_TARGET'',
          cf_listen = (if listen = [] then DefaultListen else listen),
          cf_tls_cert = var ''TRUENAS_MCP_TLS_CERT'',
          cf_tls_key = var ''TRUENAS_MCP_TLS_KEY'',
          cf_allow_plaintext = boolVar getenv ''TRUENAS_MCP_ALLOW_PLAINTEXT'',
          cf_target_insecure = boolVar getenv ''TRUENAS_MCP_TARGET_INSECURE'',
          cf_target_plaintext = boolVar getenv ''TRUENAS_MCP_TARGET_ALLOW_PLAINTEXT'',
          cf_enable_writes = boolVar getenv ''TRUENAS_MCP_ENABLE_WRITES'',
          cf_api_key = var ''TRUENAS_MCP_API_KEY'',
          cf_oauth_issuer = var ''TRUENAS_MCP_OAUTH_ISSUER'',
          cf_oauth_encryption_key = var ''TRUENAS_MCP_OAUTH_ENCRYPTION_KEY'',
          cf_oauth_access_ttl = accessTTL, cf_oauth_refresh_ttl = refreshTTL,
          cf_oauth_key = replicate 32 (CHR 0x00), cf_oauth_key_generated = False, cf_mode = m,
          cf_listen_set = (listen \<noteq> []), cf_warnings = []\<rparr>)"

definition Load :: "config_env \<Rightarrow> (string \<Rightarrow> string) \<Rightarrow> mode \<Rightarrow> config_error + config" where
  "Load env getenv m =
     (case durationVar env getenv ''TRUENAS_MCP_OAUTH_ACCESS_TOKEN_TTL'' DefaultOAuthAccessTokenTTL of
        Inl e \<Rightarrow> Inl e
      | Inr accessTTL \<Rightarrow>
          if accessTTL = 0 then Inl ZeroAccessTTL
          else case durationVar env getenv ''TRUENAS_MCP_OAUTH_REFRESH_TOKEN_TTL'' DefaultOAuthRefreshTokenTTL of
            Inl e \<Rightarrow> Inl e
          | Inr refreshTTL \<Rightarrow>
              let c = read_config getenv m accessTTL refreshTTL
              in case validate env c of
                   Some e \<Rightarrow> Inl e
                 | None \<Rightarrow>
                     if cf_mode c = ModeHTTP \<and> OAuthEnabled c then
                       (case ResolveMasterKey (ce_fresh_key env) (cf_oauth_encryption_key c) of
                          Inl e \<Rightarrow> Inl (EncryptionKeyInvalid e)
                        | Inr (key, generated) \<Rightarrow>
                            let c' = c\<lparr>cf_oauth_key := key, cf_oauth_key_generated := generated\<rparr>
                            in Inr (c'\<lparr>cf_warnings := collectWarnings c'\<rparr>))
                     else Inr (c\<lparr>cf_warnings := collectWarnings c\<rparr>))"

definition TargetURL :: "config \<Rightarrow> string" where
  "TargetURL c = (if cf_target_plaintext c then ''ws'' else ''wss'') @ ''://'' @ cf_target c @ APIPath"

definition Summary :: "config \<Rightarrow> string" where
  "Summary c =
     (let writes = (if cf_enable_writes c then ''enabled'' else ''disabled'')
      in if cf_mode c = ModeStdio then ''target='' @ cf_target c @ '' transport=stdio writes='' @ writes
         else ''target='' @ cf_target c @ '' listen='' @ cf_listen c @ '' transport=http tls='' @
           (if TLSEnabled c then ''on'' else ''off'') @ '' writes='' @ writes @ '' oauth='' @
           (if OAuthEnabled c then ''enabled'' else ''disabled''))"

subsection \<open>Splitting and joining addresses\<close>

lemma split_last_append: "c \<notin> set b \<Longrightarrow> split_last c (a @ c # b) = Some (a, b)"
proof -
  assume "c \<notin> set b"
  then have "cut_char c (rev (a @ c # b)) = Some (rev b, rev a)" by (simp add: cut_char_Some)
  then show ?thesis by (simp add: split_last_def)
qed

lemma split_last_Some: "split_last c s = Some (a, b) \<longleftrightarrow> s = a @ c # b \<and> c \<notin> set b"
proof
  assume "split_last c s = Some (a, b)"
  then have "rev s = rev b @ c # rev a \<and> c \<notin> set (rev b)"
    by (auto simp: split_last_def cut_char_Some)
  then show "s = a @ c # b \<and> c \<notin> set b" by (metis append_Cons append_Nil append_assoc rev.simps(2) rev_append rev_rev_ident set_rev)
next
  assume "s = a @ c # b \<and> c \<notin> set b"
  then show "split_last c s = Some (a, b)" by (simp add: split_last_append)
qed

text \<open>An address part that needs no bracket, and one that may stand inside brackets.\<close>

definition no_brackets :: "string \<Rightarrow> bool" where
  "no_brackets s \<longleftrightarrow> CHR ''['' \<notin> set s \<and> CHR '']'' \<notin> set s"

lemma SplitHostPort_Join:
  assumes "no_brackets host" and "no_brackets port" and "CHR '':'' \<notin> set port"
  shows "SplitHostPort (JoinHostPort host port) = Some (host, port)"
proof (cases "CHR '':'' \<in> set host")
  case True
  have "split_last (CHR '':'') (''['' @ host @ '']:'' @ port) = Some (''['' @ host @ '']'', port)"
    using split_last_append [OF assms(3), of "''['' @ host @ '']''"] by simp
  moreover have "cut_char (CHR '']'') (host @ '']:'' @ port) = Some (host, CHR '':'' # port)"
    using assms(1) by (simp add: cut_char_Some no_brackets_def)
  ultimately show ?thesis
    using True assms by (simp add: SplitHostPort_def JoinHostPort_def no_brackets_def)
next
  case False
  have "split_last (CHR '':'') (host @ '':'' @ port) = Some (host, port)"
    using split_last_append [OF assms(3), of host] by simp
  moreover have "hd (host @ '':'' @ port) \<noteq> CHR ''[''"
    using assms(1) by (cases host) (auto simp: no_brackets_def)
  ultimately show ?thesis
    using False assms by (auto simp: SplitHostPort_def JoinHostPort_def no_brackets_def)
qed

lemma SplitHostPort_parts:
  assumes "SplitHostPort s = Some (host, port)"
  shows "no_brackets host \<and> no_brackets port \<and> CHR '':'' \<notin> set port"
proof -
  from assms obtain before where b: "split_last (CHR '':'') s = Some (before, port)"
    by (auto simp: SplitHostPort_def split: option.splits if_splits)
  then have s: "s = before @ CHR '':'' # port" and p: "CHR '':'' \<notin> set port" by (simp_all add: split_last_Some)
  show ?thesis
  proof (cases "s \<noteq> [] \<and> hd s = CHR ''[''")
    case True
    with assms b obtain after where h: "cut_char (CHR '']'') (tl s) = Some (host, after)"
      and a: "after = CHR '':'' # port" "CHR ''['' \<notin> set (tl s)" "CHR '']'' \<notin> set after"
      by (auto simp: SplitHostPort_def split: option.splits if_splits)
    from h have "tl s = host @ CHR '']'' # after" "CHR '']'' \<notin> set host" by (simp_all add: cut_char_Some)
    with a p show ?thesis by (auto simp: no_brackets_def)
  next
    case False
    with assms b have "host = before" "CHR ''['' \<notin> set s" "CHR '']'' \<notin> set s"
      by (auto simp: SplitHostPort_def split: if_splits)
    with s p show ?thesis by (auto simp: no_brackets_def)
  qed
qed

subsection \<open>What a loaded configuration guarantees\<close>

lemma durationVar_range: "durationVar env getenv key dflt = Inr d \<Longrightarrow> 0 \<le> dflt \<Longrightarrow> 0 \<le> d"
  by (auto simp: durationVar_def Let_def split: if_splits option.splits)

text \<open>What \<^verbatim>\<open>Load\<close> returns is what it read, validated, with the key and the warnings added.\<close>

lemma Load_shape:
  assumes "Load env getenv m = Inr c"
  shows "\<exists>accessTTL refreshTTL. durationVar env getenv ''TRUENAS_MCP_OAUTH_ACCESS_TOKEN_TTL'' DefaultOAuthAccessTokenTTL = Inr accessTTL \<and>
    accessTTL \<noteq> 0 \<and>
    durationVar env getenv ''TRUENAS_MCP_OAUTH_REFRESH_TOKEN_TTL'' DefaultOAuthRefreshTokenTTL = Inr refreshTTL \<and>
    (let r = read_config getenv m accessTTL refreshTTL
     in validate env r = None \<and>
        (if OAuthEnabled r
         then (\<exists>key generated. ResolveMasterKey (ce_fresh_key env) (cf_oauth_encryption_key r) = Inr (key, generated) \<and>
            (let r' = r\<lparr>cf_oauth_key := key, cf_oauth_key_generated := generated\<rparr>
             in c = r'\<lparr>cf_warnings := collectWarnings r'\<rparr>))
         else c = r\<lparr>cf_warnings := collectWarnings r\<rparr>))"
proof -
  obtain a where a: "durationVar env getenv ''TRUENAS_MCP_OAUTH_ACCESS_TOKEN_TTL'' DefaultOAuthAccessTokenTTL = Inr a" "a \<noteq> 0"
    using assms by (auto simp: Load_def split: sum.splits if_splits)
  obtain t where t: "durationVar env getenv ''TRUENAS_MCP_OAUTH_REFRESH_TOKEN_TTL'' DefaultOAuthRefreshTokenTTL = Inr t"
    using assms a by (auto simp: Load_def split: sum.splits if_splits)
  let ?r = "read_config getenv m a t"
  have v: "validate env ?r = None"
    using assms a t by (auto simp: Load_def Let_def split: option.splits)
  have "OAuthEnabled ?r \<Longrightarrow> cf_mode ?r = ModeHTTP" by (simp add: OAuthEnabled_def)
  with assms a t v show ?thesis
    by (cases "OAuthEnabled ?r") (auto simp: Load_def Let_def split: sum.splits)
qed

text \<open>What \<^verbatim>\<open>validate\<close> accepts, in each mode.\<close>

lemma validate_HTTP:
  assumes "validate env r = None" and "cf_mode r = ModeHTTP"
  shows "cf_api_key r = [] \<and> (TLSEnabled r \<or> cf_allow_plaintext r) \<and> SplitHostPort (cf_listen r) \<noteq> None \<and>
    (OAuthEnabled r \<longrightarrow> (case ce_request_uri env (cf_oauth_issuer r) of
        None \<Rightarrow> False | Some (scheme, host) \<Rightarrow> to_lower scheme = ''https'' \<and> host \<noteq> []))"
proof -
  have host: "validateHost env (cf_target r) = None" "cf_target r \<noteq> []"
    using assms(1) by (auto simp: validate_def split: if_splits option.splits)
  note v = assms(1) [unfolded validate_def]
  have m: "cf_mode r \<noteq> ModeStdio" using assms(2) by simp
  have key: "cf_api_key r = []" using v host m by (auto split: if_splits)
  moreover have "TLSEnabled r \<or> cf_allow_plaintext r" using v host m key by (auto split: if_splits)
  moreover have "SplitHostPort (cf_listen r) \<noteq> None"
    using v host m key by (auto simp del: not_None_eq split: if_splits sum.splits)
  moreover have "OAuthEnabled r \<Longrightarrow> case ce_request_uri env (cf_oauth_issuer r) of
        None \<Rightarrow> False | Some (scheme, host) \<Rightarrow> to_lower scheme = ''https'' \<and> host \<noteq> []"
    using v host m key by (auto split: if_splits option.splits)
  ultimately show ?thesis by blast
qed

lemma validate_target: "validate env r = None \<Longrightarrow> cf_target r \<noteq> [] \<and> validateHost env (cf_target r) = None"
  by (auto simp: validate_def split: if_splits option.splits)

lemma validate_stdio: "validate env r = None \<Longrightarrow> cf_mode r = ModeStdio \<Longrightarrow> cf_api_key r \<noteq> []"
  by (auto simp: validate_def split: if_splits option.splits)

text \<open>
  C29. A configuration that loads is safe to start. It has a usable target, a positive access token lifetime and a refresh lifetime
  that is not negative. Over stdio it carries an API key; over HTTP it carries none, it serves with TLS unless plaintext was
  allowed explicitly, its bind address splits, and with OAuth on the issuer is an https URL with a host and the
  sealing key is the configured one, or a fresh one where none was given.
\<close>

theorem Load_safe:
  assumes "Load env getenv m = Inr c"
  shows "cf_mode c = m \<and> cf_target c \<noteq> [] \<and> validateHost env (cf_target c) = None \<and>
    0 < cf_oauth_access_ttl c \<and> 0 \<le> cf_oauth_refresh_ttl c \<and>
    (case m of
       ModeStdio \<Rightarrow> cf_api_key c \<noteq> []
     | ModeHTTP \<Rightarrow>
         cf_api_key c = [] \<and> (if TLSEnabled c then True else cf_allow_plaintext c) \<and> SplitHostPort (cf_listen c) \<noteq> None \<and>
         (if cf_oauth_issuer c = [] then True
          else (case ce_request_uri env (cf_oauth_issuer c) of
                  None \<Rightarrow> False | Some (scheme, host) \<Rightarrow> to_lower scheme = ''https'' \<and> host \<noteq> []) \<and>
               (if cf_oauth_encryption_key c = [] then cf_oauth_key c = ce_fresh_key env \<and> cf_oauth_key_generated c
                else ParseMasterKey (cf_oauth_encryption_key c) = Inr (cf_oauth_key c) \<and> \<not> cf_oauth_key_generated c)))"
proof -
  obtain a t where a: "durationVar env getenv ''TRUENAS_MCP_OAUTH_ACCESS_TOKEN_TTL'' DefaultOAuthAccessTokenTTL = Inr a" "a \<noteq> 0"
    and t: "durationVar env getenv ''TRUENAS_MCP_OAUTH_REFRESH_TOKEN_TTL'' DefaultOAuthRefreshTokenTTL = Inr t"
    and v: "validate env (read_config getenv m a t) = None"
    and c: "let r = read_config getenv m a t in
        if OAuthEnabled r
         then (\<exists>key generated. ResolveMasterKey (ce_fresh_key env) (cf_oauth_encryption_key r) = Inr (key, generated) \<and>
            (let r' = r\<lparr>cf_oauth_key := key, cf_oauth_key_generated := generated\<rparr>
             in c = r'\<lparr>cf_warnings := collectWarnings r'\<rparr>))
         else c = r\<lparr>cf_warnings := collectWarnings r\<rparr>"
    using Load_shape [OF assms] unfolding Let_def by blast
  let ?r = "read_config getenv m a t"
  have same: "cf_target c = cf_target ?r" "cf_listen c = cf_listen ?r" "cf_tls_cert c = cf_tls_cert ?r" "cf_tls_key c = cf_tls_key ?r"
    "cf_allow_plaintext c = cf_allow_plaintext ?r" "cf_api_key c = cf_api_key ?r" "cf_oauth_issuer c = cf_oauth_issuer ?r"
    "cf_oauth_encryption_key c = cf_oauth_encryption_key ?r" "cf_mode c = m" "cf_mode ?r = m"
    "cf_oauth_access_ttl c = a" "cf_oauth_refresh_ttl c = t" "TLSEnabled c = TLSEnabled ?r"
    using c by (auto simp: Let_def TLSEnabled_def read_config_def split: if_splits)
  have ttl: "0 < a" "0 \<le> t"
    using durationVar_range [OF a(1)] durationVar_range [OF t] a(2)
    by (simp_all add: DefaultOAuthAccessTokenTTL_def DefaultOAuthRefreshTokenTTL_def second_def)
  have key: "cf_oauth_issuer ?r \<noteq> [] \<Longrightarrow> m = ModeHTTP \<Longrightarrow>
      if cf_oauth_encryption_key ?r = [] then cf_oauth_key c = ce_fresh_key env \<and> cf_oauth_key_generated c
      else ParseMasterKey (cf_oauth_encryption_key ?r) = Inr (cf_oauth_key c) \<and> \<not> cf_oauth_key_generated c"
    using c same(10) by (auto simp: Let_def OAuthEnabled_def ResolveMasterKey_def split: if_splits sum.splits)
  note host = validate_target [OF v]
  show ?thesis
  proof (cases m)
    case ModeStdio
    with validate_stdio [OF v] same(10) host ttl show ?thesis by (simp add: same)
  next
    case ModeHTTP
    note h = validate_HTTP [OF v trans [OF same(10) ModeHTTP]]
    have "cf_api_key ?r = []" "TLSEnabled ?r \<or> cf_allow_plaintext ?r" "SplitHostPort (cf_listen ?r) \<noteq> None"
      using h by blast+
    moreover have "case ce_request_uri env (cf_oauth_issuer ?r) of
        None \<Rightarrow> False | Some (scheme, host) \<Rightarrow> to_lower scheme = ''https'' \<and> host \<noteq> []" if "cf_oauth_issuer ?r \<noteq> []"
      using h that ModeHTTP same(10) by (simp add: OAuthEnabled_def)
    ultimately show ?thesis using ModeHTTP host ttl key by (auto simp: same)
  qed
qed


text \<open>A concrete environment: parsers that accept little, and a fixed fresh key.\<close>

definition sample_env :: config_env where
  "sample_env = \<lparr>ce_duration = (\<lambda>s. if s = ''1s'' then Some second else None),
     ce_request_uri = (\<lambda>s. if s = ''https://mcp.example'' then Some (''https'', ''mcp.example'') else None),
     ce_url_ok = (\<lambda>s. True), ce_fresh_key = replicate 32 (CHR ''k'')\<rparr>"

definition sample_vars :: "(string \<times> string) list \<Rightarrow> string \<Rightarrow> string" where
  "sample_vars kvs key = (case map_of kvs key of None \<Rightarrow> [] | Some v \<Rightarrow> v)"

definition sample_http :: "(string \<times> string) list" where
  "sample_http = [(''TRUENAS_MCP_TARGET'', ''nas.local:8443''), (''TRUENAS_MCP_ALLOW_PLAINTEXT'', ''true''),
     (''TRUENAS_MCP_OAUTH_ISSUER'', ''https://mcp.example''), (''TRUENAS_MCP_OAUTH_ACCESS_TOKEN_TTL'', ''1s'')]"

definition sample_config :: config where
  "sample_config = \<lparr>cf_target = ''nas.local:8443'', cf_listen = '':8080'', cf_tls_cert = [], cf_tls_key = [],
     cf_allow_plaintext = True, cf_target_insecure = False, cf_target_plaintext = False, cf_enable_writes = False,
     cf_api_key = [], cf_oauth_issuer = ''https://mcp.example'', cf_oauth_encryption_key = [],
     cf_oauth_access_ttl = second, cf_oauth_refresh_ttl = DefaultOAuthRefreshTokenTTL,
     cf_oauth_key = replicate 32 (CHR ''k''), cf_oauth_key_generated = True, cf_mode = ModeHTTP, cf_listen_set = False,
     cf_warnings = [''serving MCP over plaintext: caller API keys are transmitted in the clear and TrueNAS may revoke them'',
       key_warning]\<rparr>"

lemma sample_loads: "Load sample_env (sample_vars sample_http) ModeHTTP = Inr sample_config"
  by code_simp

theorem Load_safe_witness:
  "cf_target sample_config \<noteq> [] \<and> 0 < cf_oauth_access_ttl sample_config \<and>
   (cf_oauth_key sample_config = ce_fresh_key sample_env \<and> cf_oauth_key_generated sample_config)"
  using Load_safe [OF sample_loads] by (simp add: sample_config_def sample_env_def)

text \<open>The startup log depends on no key: the summary and the warnings of a loaded configuration.\<close>

lemma Load_log:
  assumes "Load env getenv m = Inr c"
  obtains accessTTL refreshTTL where
    "Summary c = Summary (read_config getenv m accessTTL refreshTTL)"
    "cf_warnings c = collectWarnings (read_config getenv m accessTTL refreshTTL
       \<lparr>cf_oauth_key_generated := (cf_oauth_encryption_key (read_config getenv m accessTTL refreshTTL) = [])\<rparr>)"
    "durationVar env getenv ''TRUENAS_MCP_OAUTH_ACCESS_TOKEN_TTL'' DefaultOAuthAccessTokenTTL = Inr accessTTL"
    "durationVar env getenv ''TRUENAS_MCP_OAUTH_REFRESH_TOKEN_TTL'' DefaultOAuthRefreshTokenTTL = Inr refreshTTL"
proof -
  obtain a t where ttl: "durationVar env getenv ''TRUENAS_MCP_OAUTH_ACCESS_TOKEN_TTL'' DefaultOAuthAccessTokenTTL = Inr a"
      "durationVar env getenv ''TRUENAS_MCP_OAUTH_REFRESH_TOKEN_TTL'' DefaultOAuthRefreshTokenTTL = Inr t"
    and c: "let r = read_config getenv m a t in
        if OAuthEnabled r
         then (\<exists>key generated. ResolveMasterKey (ce_fresh_key env) (cf_oauth_encryption_key r) = Inr (key, generated) \<and>
            (let r' = r\<lparr>cf_oauth_key := key, cf_oauth_key_generated := generated\<rparr>
             in c = r'\<lparr>cf_warnings := collectWarnings r'\<rparr>))
         else c = r\<lparr>cf_warnings := collectWarnings r\<rparr>"
    using Load_shape [OF assms] unfolding Let_def by blast
  let ?r = "read_config getenv m a t"
  have unlogged: "Summary (r\<lparr>cf_warnings := w\<rparr>) = Summary r" "Summary (r\<lparr>cf_oauth_key := k\<rparr>) = Summary r"
    "Summary (r\<lparr>cf_oauth_key_generated := g\<rparr>) = Summary r"
    "collectWarnings (r\<lparr>cf_oauth_key := k\<rparr>) = collectWarnings r"
    "\<not> OAuthEnabled r \<Longrightarrow> collectWarnings (r\<lparr>cf_oauth_key_generated := g\<rparr>) = collectWarnings r" for r w k g
    by (simp_all add: Summary_def collectWarnings_def OAuthEnabled_def TLSEnabled_def Let_def cong: if_cong)
  have "Summary c = Summary ?r \<and> cf_warnings c =
      collectWarnings (?r\<lparr>cf_oauth_key_generated := (cf_oauth_encryption_key ?r = [])\<rparr>)"
  proof (cases "OAuthEnabled ?r")
    case True
    with c obtain k g where k: "ResolveMasterKey (ce_fresh_key env) (cf_oauth_encryption_key ?r) = Inr (k, g)"
      and c': "c = ?r\<lparr>cf_oauth_key := k, cf_oauth_key_generated := g,
        cf_warnings := collectWarnings (?r\<lparr>cf_oauth_key := k, cf_oauth_key_generated := g\<rparr>)\<rparr>"
      by (auto simp: Let_def)
    have "g = (cf_oauth_encryption_key ?r = [])" using k by (auto simp: ResolveMasterKey_def split: if_splits sum.splits)
    moreover have "collectWarnings (?r\<lparr>cf_oauth_key := k, cf_oauth_key_generated := g\<rparr>) =
        collectWarnings (?r\<lparr>cf_oauth_key_generated := g\<rparr>)"
      by (simp add: collectWarnings_def OAuthEnabled_def TLSEnabled_def)
    ultimately show ?thesis using c' by (simp add: unlogged)
  next
    case False
    with c have "c = ?r\<lparr>cf_warnings := collectWarnings ?r\<rparr>" by (simp add: Let_def)
    with False show ?thesis by (simp add: unlogged)
  qed
  with ttl that show thesis by blast
qed

text \<open>
  C30. No secret reaches the startup log. Two environments that differ only in the values of the API key and of the OAuth
  encryption key, both set or both unset in each, load to configurations with the same summary line and the same
  warnings, the only things a start logs of its configuration.
\<close>

theorem startup_log_hides_secrets:
  assumes "Load env getenv m = Inr c" and "Load env getenv' m = Inr c'"
    and "\<And>key. key \<noteq> ''TRUENAS_MCP_API_KEY'' \<Longrightarrow> key \<noteq> ''TRUENAS_MCP_OAUTH_ENCRYPTION_KEY'' \<Longrightarrow> getenv' key = getenv key"
    and "(trim_space (getenv' ''TRUENAS_MCP_OAUTH_ENCRYPTION_KEY'') = []) =
         (trim_space (getenv ''TRUENAS_MCP_OAUTH_ENCRYPTION_KEY'') = [])"
  shows "Summary c' = Summary c \<and> cf_warnings c' = cf_warnings c"
proof -
  obtain a t where c: "Summary c = Summary (read_config getenv m a t)"
    "cf_warnings c = collectWarnings (read_config getenv m a t
       \<lparr>cf_oauth_key_generated := (cf_oauth_encryption_key (read_config getenv m a t) = [])\<rparr>)"
    by (rule Load_log [OF assms(1)])
  obtain a' t' where c': "Summary c' = Summary (read_config getenv' m a' t')"
    "cf_warnings c' = collectWarnings (read_config getenv' m a' t'
       \<lparr>cf_oauth_key_generated := (cf_oauth_encryption_key (read_config getenv' m a' t') = [])\<rparr>)"
    by (rule Load_log [OF assms(2)])
  have "Summary (read_config getenv' m a' t') = Summary (read_config getenv m a t)"
    by (simp add: Summary_def read_config_def TLSEnabled_def OAuthEnabled_def boolVar_def Let_def assms(3))
  moreover have "collectWarnings (read_config getenv' m a' t'
       \<lparr>cf_oauth_key_generated := (cf_oauth_encryption_key (read_config getenv' m a' t') = [])\<rparr>) =
     collectWarnings (read_config getenv m a t
       \<lparr>cf_oauth_key_generated := (cf_oauth_encryption_key (read_config getenv m a t) = [])\<rparr>)"
    by (simp add: collectWarnings_def read_config_def TLSEnabled_def OAuthEnabled_def boolVar_def Let_def assms(3,4))
  ultimately show ?thesis using c c' by simp
qed

definition sample_stdio :: "string \<Rightarrow> (string \<times> string) list" where
  "sample_stdio key = [(''TRUENAS_MCP_TARGET'', ''nas.local''), (''TRUENAS_MCP_API_KEY'', key),
     (''TRUENAS_MCP_ENABLE_WRITES'', ''1'')]"

lemma sample_stdio_loads:
  "key = ''1-first'' \<or> key = ''2-other'' \<Longrightarrow>
   \<exists>c. Load sample_env (sample_vars (sample_stdio key)) ModeStdio = Inr c \<and> cf_api_key c = key"
proof -
  have "case Load sample_env (sample_vars (sample_stdio ''1-first'')) ModeStdio of
      Inl e \<Rightarrow> False | Inr c \<Rightarrow> cf_api_key c = ''1-first''"
    "case Load sample_env (sample_vars (sample_stdio ''2-other'')) ModeStdio of
      Inl e \<Rightarrow> False | Inr c \<Rightarrow> cf_api_key c = ''2-other''"
    by code_simp+
  then show "key = ''1-first'' \<or> key = ''2-other'' \<Longrightarrow> ?thesis"
    by (auto split: sum.splits)
qed

theorem startup_log_hides_secrets_witness:
  "\<exists>c c'. Load sample_env (sample_vars (sample_stdio ''1-first'')) ModeStdio = Inr c \<and>
     Load sample_env (sample_vars (sample_stdio ''2-other'')) ModeStdio = Inr c' \<and>
     cf_api_key c \<noteq> cf_api_key c' \<and> Summary c' = Summary c"
proof -
  obtain c where c: "Load sample_env (sample_vars (sample_stdio ''1-first'')) ModeStdio = Inr c" "cf_api_key c = ''1-first''"
    using sample_stdio_loads [of "''1-first''"] by blast
  obtain c' where c': "Load sample_env (sample_vars (sample_stdio ''2-other'')) ModeStdio = Inr c'" "cf_api_key c' = ''2-other''"
    using sample_stdio_loads [of "''2-other''"] by blast
  have "Summary c' = Summary c \<and> cf_warnings c' = cf_warnings c"
    using c(1) c'(1) by (rule startup_log_hides_secrets) (simp_all add: sample_vars_def sample_stdio_def)
  with c c' show ?thesis by simp
qed

text \<open>
  Loading is strict for durations and for the target, not for booleans: an unparsable one reads as false. Setting
  the write tier to a misspelt value starts a server without it, and never an error.
\<close>

lemma unparsable_bool_is_false:
  "parse_bool (trim_space (getenv key)) = None \<Longrightarrow> \<not> boolVar getenv key"
  by (simp add: boolVar_def)

end
