(* ===== verification/Health.thy ===== *)
theory Health
  imports Config
begin

section \<open>The health signal and its probe\<close>

text \<open>
  \<^verbatim>\<open>internal/server/health.go\<close> and \<^verbatim>\<open>internal/server/probe.go\<close>: what the health endpoint answers, the URL
  the container's health check calls, and how it reads the answer. The HTTP client is a parameter.
\<close>

subsection \<open>The endpoint\<close>

record health =
  hl_version :: string
  hl_serving :: bool
  hl_reason :: string

definition NewHealth :: "string \<Rightarrow> health" where
  "NewHealth version = \<lparr>hl_version = version, hl_serving = False, hl_reason = ''starting up''\<rparr>"

definition SetServing :: "bool \<Rightarrow> health \<Rightarrow> health" where
  "SetServing serving h =
     h\<lparr>hl_serving := serving,
       hl_reason := (if serving then [] else if hl_reason h = [] then ''not serving'' else hl_reason h)\<rparr>"

definition SetUnhealthy :: "string \<Rightarrow> health \<Rightarrow> health" where
  "SetUnhealthy reason h = h\<lparr>hl_serving := False, hl_reason := reason\<rparr>"

record health_reply =
  hr_status :: nat
  hr_content_type :: string
  hr_body :: "string gomap"

definition ServeHTTP_health :: "health \<Rightarrow> health_reply" where
  "ServeHTTP_health h =
     (let body = [(''version'', hl_version h)]
      in if hl_serving h
         then \<lparr>hr_status = 200, hr_content_type = ''application/json'',
                hr_body = map_put ''status'' ''healthy'' body\<rparr>
         else \<lparr>hr_status = 503, hr_content_type = ''application/json'',
                hr_body = map_put ''reason'' (hl_reason h) (map_put ''status'' ''unhealthy'' body)\<rparr>)"

subsection \<open>The probe\<close>

definition wildcard_hosts :: "string list" where
  "wildcard_hosts = ['''', ''0.0.0.0'', ''::'']"

definition ProbeURL :: "string \<Rightarrow> string" where
  "ProbeURL listen =
     (case SplitHostPort listen of
        None \<Rightarrow> ''http://127.0.0.1'' @ listen @ ''/healthz''
      | Some (host, port) \<Rightarrow>
          let host' = (if host \<in> set wildcard_hosts then ''127.0.0.1'' else host)
          in ''http://'' @ JoinHostPort host' port @ ''/healthz'')"

datatype probe_error = NotReached string | Reported nat

text \<open>\<open>get\<close> is the HTTP client: the error of a request that got no answer, or the status of the answer.\<close>

definition Probe :: "(string \<Rightarrow> string + nat) \<Rightarrow> string \<Rightarrow> probe_error option" where
  "Probe get url =
     (case get url of
        Inl e \<Rightarrow> Some (NotReached e)
      | Inr status \<Rightarrow> if status \<noteq> 200 then Some (Reported status) else None)"

subsection \<open>Lemmas\<close>

lemma ServeHTTP_health_status: "hr_status (ServeHTTP_health h) = (if hl_serving h then 200 else 503)"
  by (simp add: ServeHTTP_health_def Let_def)

lemma ServeHTTP_health_reason:
  "map_of (hr_body (ServeHTTP_health h)) ''reason'' = (if hl_serving h then None else Some (hl_reason h))"
  by (simp add: ServeHTTP_health_def Let_def map_of_map_put)

lemma loopback_plain: "no_brackets ''127.0.0.1''"
  by (simp add: no_brackets_def)

text \<open>
  The probe reaches no listener that serves TLS: its URL is a plain one whatever the configuration, so an
  address on which plain requests are refused is always reported unhealthy.
\<close>

lemma probe_ignores_tls:
  assumes "\<And>hostport. get (''http://'' @ hostport @ ''/healthz'') = Inr 400"
  shows "Probe get (ProbeURL listen) = Some (Reported 400)"
proof -
  have "ProbeURL listen = ''http://'' @ (''127.0.0.1'' @ listen) @ ''/healthz''
      \<or> (\<exists>hp. ProbeURL listen = ''http://'' @ hp @ ''/healthz'')"
    unfolding ProbeURL_def Let_def by (cases "SplitHostPort listen") auto
  then obtain hp where "ProbeURL listen = ''http://'' @ hp @ ''/healthz''" by blast
  with assms [of hp] show ?thesis by (simp add: Probe_def)
qed

subsection \<open>Properties\<close>

text \<open>
  The probe calls the address the listener is bound to. Splitting the address of the probe's URL gives the bind
  address's port and its host, with loopback in place of an empty or wildcard host, which cannot be dialled; names, IPv4
  and bracketed IPv6 addresses alike.
\<close>

theorem ProbeURL_targets_listener:
  assumes "SplitHostPort listen = Some (host, port)"
  shows "\<exists>hostport. ProbeURL listen = ''http://'' @ hostport @ ''/healthz'' \<and>
    SplitHostPort hostport = Some (if host \<in> set wildcard_hosts then ''127.0.0.1'' else host, port)"
proof -
  let ?h = "if host \<in> set wildcard_hosts then ''127.0.0.1'' else host"
  note parts = SplitHostPort_parts [OF assms]
  have "SplitHostPort (JoinHostPort ?h port) = Some (?h, port)"
    using parts loopback_plain by (intro SplitHostPort_Join) simp_all
  moreover have "ProbeURL listen = ''http://'' @ JoinHostPort ?h port @ ''/healthz''"
    by (simp add: ProbeURL_def assms Let_def)
  ultimately show ?thesis by blast
qed

lemma ProbeURL_targets_listener_witness:
  "ProbeURL ''[::1]:8443'' = ''http://[::1]:8443/healthz'' \<and>
   (\<exists>hostport. ProbeURL ''[::1]:8443'' = ''http://'' @ hostport @ ''/healthz'' \<and>
     SplitHostPort hostport = Some (''::1'', ''8443''))"
proof
  show "ProbeURL ''[::1]:8443'' = ''http://[::1]:8443/healthz''" by code_simp
  have s: "SplitHostPort ''[::1]:8443'' = Some (''::1'', ''8443'')" by code_simp
  show "\<exists>hostport. ProbeURL ''[::1]:8443'' = ''http://'' @ hostport @ ''/healthz'' \<and>
     SplitHostPort hostport = Some (''::1'', ''8443'')"
    using ProbeURL_targets_listener [OF s] by (simp add: wildcard_hosts_def)
qed

end
