(* ===== verification/Step_Machine.thy ===== *)
theory Step_Machine
  imports Go_Prelude
begin

section \<open>Machines that panic or block, and tables of owned objects\<close>

text \<open>
  What the theories about concurrent code share: the outcome of an atomic step of Go code, the
  runs of a machine whose steps are taken in any order by its goroutines, and the invariant rule
  for such runs as a locale. The second half is about tables that map keys to objects in a heap, each
  object owned by one key: the discipline by which Go code closes every channel exactly once.
\<close>

subsection \<open>Outcomes\<close>

text \<open>
  A step runs to its end, panics (a send on a closed channel, a second close, a nil channel or pointer), or blocks
  for good (a send on a full channel while holding what its reader needs).
\<close>

datatype 's outcome = Ran 's | Panicked | Blocked

fun and_then :: "'s outcome \<Rightarrow> ('s \<Rightarrow> 't outcome) \<Rightarrow> 't outcome" where
  "and_then (Ran s) f = f s"
| "and_then Panicked f = Panicked"
| "and_then Blocked f = Blocked"

lemma and_then_Ran: "and_then r f = Ran t \<longleftrightarrow> (\<exists>s. r = Ran s \<and> f s = Ran t)"
  by (cases r) auto

subsection \<open>Runs\<close>

text \<open>\<open>runs enabled perform n s s'\<close>: some \<open>n\<close> enabled steps lead from \<open>s\<close> to \<open>s'\<close>.\<close>

inductive runs :: "('e \<Rightarrow> 's \<Rightarrow> bool) \<Rightarrow> ('e \<Rightarrow> 's \<Rightarrow> 's outcome) \<Rightarrow> nat \<Rightarrow> 's \<Rightarrow> 's \<Rightarrow> bool"
  for enabled perform where
  runs_start: "runs enabled perform 0 s s"
| runs_step: "runs enabled perform n s s' \<Longrightarrow> enabled e s' \<Longrightarrow> perform e s' = Ran s'' \<Longrightarrow>
    runs enabled perform (Suc n) s s''"

inductive_cases runs_SucE: "runs enabled perform (Suc n) s s'"
inductive_simps runs_0: "runs enabled perform 0 s s'"

text \<open>A run given by the list of its events.\<close>

fun run_events :: "('e \<Rightarrow> 's \<Rightarrow> bool) \<Rightarrow> ('e \<Rightarrow> 's \<Rightarrow> 's outcome) \<Rightarrow> 'e list \<Rightarrow> 's \<Rightarrow> 's outcome" where
  "run_events en pf [] s = Ran s"
| "run_events en pf (e # es) s =
     (if en e s then and_then (pf e s) (run_events en pf es) else Blocked)"

lemma runs_more:
  "runs en pf n s s' \<Longrightarrow> run_events en pf es s' = Ran s'' \<Longrightarrow> runs en pf (n + length es) s s''"
proof (induction es arbitrary: n s')
  case Nil
  then show ?case by simp
next
  case (Cons e es)
  from Cons.prems(2) obtain t where "en e s'" "pf e s' = Ran t" "run_events en pf es t = Ran s''"
    by (auto simp: and_then_Ran split: if_splits)
  with Cons.IH [of "Suc n" t] runs_step [OF Cons.prems(1)] show ?case by simp
qed

lemma runs_of_events: "run_events en pf es s = Ran s' \<Longrightarrow> runs en pf (length es) s s'"
  using runs_more [OF runs_start] by fastforce

locale machine =
  fixes enabled :: "'e \<Rightarrow> 's \<Rightarrow> bool"
    and perform :: "'e \<Rightarrow> 's \<Rightarrow> 's outcome"
    and inv :: "nat \<Rightarrow> 's \<Rightarrow> bool"
    and start :: 's
    and limit :: nat
  assumes inv_start: "inv 0 start"
    and inv_step: "inv n s \<Longrightarrow> n < limit \<Longrightarrow> enabled e s \<Longrightarrow> \<exists>s'. perform e s = Ran s' \<and> inv (Suc n) s'"
begin

text \<open>The invariant holds of everything reachable within the limit, and nothing reachable panics or blocks.\<close>

lemma reachable_inv: "runs enabled perform n start s \<Longrightarrow> n \<le> limit \<Longrightarrow> inv n s"
proof (induction n arbitrary: s)
  case 0
  then show ?case by (simp add: runs_0 inv_start)
next
  case (Suc n)
  from Suc.prems(1) obtain s' e where "runs enabled perform n start s'" "enabled e s'" "perform e s' = Ran s"
    by (rule runs_SucE)
  with Suc inv_step [of n s' e] show ?case by auto
qed

lemma reachable_proceeds:
  assumes "runs enabled perform n start s" and "n < limit" and "enabled e s"
  shows "\<exists>s'. perform e s = Ran s' \<and> inv (Suc n) s'"
  using inv_step [OF reachable_inv [OF assms(1)] assms(2,3)] assms(2) by auto

end

subsection \<open>Tables of owned objects\<close>

text \<open>
  \<open>owned P t h n\<close>: the table \<open>t\<close> maps distinct keys to distinct addresses below \<open>n\<close>, and the heap
  \<open>h\<close> holds an object with \<open>P\<close> at each; nothing is allocated at or above \<open>n\<close>.
\<close>

definition holds :: "('o \<Rightarrow> bool) \<Rightarrow> (nat \<rightharpoonup> 'o) \<Rightarrow> nat \<Rightarrow> bool" where
  "holds P h a \<longleftrightarrow> (case h a of None \<Rightarrow> False | Some ob \<Rightarrow> P ob)"

lemma holds_upd [simp]:
  "holds P (h(a := v)) b \<longleftrightarrow> (if b = a then (case v of None \<Rightarrow> False | Some ob \<Rightarrow> P ob) else holds P h b)"
  by (simp add: holds_def)

lemma holdsE: "holds P h a \<Longrightarrow> (\<And>ob. h a = Some ob \<Longrightarrow> P ob \<Longrightarrow> thesis) \<Longrightarrow> thesis"
  by (simp add: holds_def split: option.splits)

definition owned :: "('o \<Rightarrow> bool) \<Rightarrow> ('k \<times> nat) list \<Rightarrow> (nat \<rightharpoonup> 'o) \<Rightarrow> nat \<Rightarrow> bool" where
  "owned P t h n \<longleftrightarrow>
     distinct (map fst t) \<and> distinct (map snd t) \<and> (\<forall>a \<in> snd ` set t. a < n \<and> holds P h a)"

lemma owned_Nil [simp]: "owned P [] h n"
  by (simp add: owned_def)

lemma owned_in: "owned P t h n \<Longrightarrow> (k, a) \<in> set t \<Longrightarrow> a < n \<and> holds P h a"
  by (force simp: owned_def)

lemma ownedD: "owned P t h n \<Longrightarrow> map_of t k = Some a \<Longrightarrow> a < n \<and> holds P h a"
  by (blast dest: map_of_SomeD owned_in)

lemma snd_map_del: "snd ` set (map_del k t) \<subseteq> snd ` set t"
  by (auto simp: set_map_del)

lemma owned_del: "owned P t h n \<Longrightarrow> owned P (map_del k t) h n"
  by (simp add: owned_def distinct_map_del) (auto simp: set_map_del)

lemma owned_put:
  assumes "owned P t h n" and "P ob"
  shows "owned P (map_put k n t) (h(n \<mapsto> ob)) (Suc n)"
proof -
  from assms(1) have "owned P (map_del k t) h n" by (rule owned_del)
  moreover have "k \<notin> fst ` set (map_del k t)" by (auto simp: set_map_del)
  ultimately show ?thesis
    using assms(2) by (auto simp: owned_def map_put_def less_SucI)
qed

lemma owned_grow: "owned P t h n \<Longrightarrow> n \<le> m \<Longrightarrow> owned P t h m"
  by (meson less_le_trans owned_def)

lemma owned_update: "owned P t h n \<Longrightarrow> P ob \<Longrightarrow> owned P t (h(a \<mapsto> ob)) n"
  by (simp add: owned_def)

text \<open>Whatever is done to an object no longer in the table leaves the others as they were.\<close>

lemma owned_other: "owned P t h n \<Longrightarrow> a \<notin> snd ` set t \<Longrightarrow> owned P t (h(a := v)) n"
  unfolding owned_def by (metis holds_upd)

lemma owned_unique: "owned P t h n \<Longrightarrow> map_of t k = Some a \<Longrightarrow> a \<notin> snd ` set (map_del k t)"
proof -
  assume o: "owned P t h n" and m: "map_of t k = Some a"
  from o have d: "inj_on snd (set t)" by (simp add: owned_def distinct_map)
  from m have k: "(k, a) \<in> set t" by (rule map_of_SomeD)
  show ?thesis
  proof
    assume "a \<in> snd ` set (map_del k t)"
    then obtain k' where "(k', a) \<in> set t" and "k' \<noteq> k" by (auto simp: set_map_del)
    with inj_onD [OF d, of "(k, a)" "(k', a)"] k show False by simp
  qed
qed

text \<open>Taking an owned object out of the table and doing anything to it.\<close>

lemma owned_release: "owned P t h n \<Longrightarrow> map_of t k = Some a \<Longrightarrow> owned P (map_del k t) (h(a := v)) n"
  by (rule owned_other [OF owned_del]) (auto dest: owned_unique)

subsection \<open>Closing every object of a table\<close>

fun close_all :: "(nat \<Rightarrow> (nat \<rightharpoonup> 'o) \<Rightarrow> (nat \<rightharpoonup> 'o) outcome) \<Rightarrow> ('k \<times> nat) list \<Rightarrow> (nat \<rightharpoonup> 'o) \<Rightarrow> (nat \<rightharpoonup> 'o) outcome" where
  "close_all f [] h = Ran h"
| "close_all f ((k, a) # t) h = and_then (f a h) (close_all f t)"

lemma close_all_owned:
  assumes "\<And>h a ob. h a = Some ob \<Longrightarrow> P ob \<Longrightarrow> f a h = Ran (h(a \<mapsto> g ob))"
  shows "owned P t h n \<Longrightarrow> close_all f t h = Ran (\<lambda>a. if a \<in> snd ` set t then map_option g (h a) else h a)"
proof (induction t arbitrary: h)
  case Nil
  then show ?case by simp
next
  case (Cons p t)
  obtain k a where p: "p = (k, a)" by fastforce
  from Cons.prems p have "holds P h a" and na: "a \<notin> snd ` set t"
    by (auto simp: owned_def)
  then obtain ob where ob: "h a = Some ob" "P ob" by (blast elim: holdsE)
  from Cons.prems have "owned P t h n" by (auto simp: owned_def)
  then have "owned P t (h(a \<mapsto> g ob)) n" by (rule owned_other [OF _ na])
  note rest = Cons.IH [OF this]
  have "(\<lambda>aa. if aa \<in> snd ` set t then map_option g ((h(a \<mapsto> g ob)) aa) else (h(a \<mapsto> g ob)) aa) =
      (\<lambda>aa. if aa \<in> snd ` set (p # t) then map_option g (h aa) else h aa)"
    using ob na by (intro ext) (auto simp: p)
  with rest show ?case
    using assms [where h = h and a = a, OF ob] by (simp add: p del: fun_upd_apply)
qed

end
