(* ===== verification/Process_Life.thy ===== *)
theory Process_Life
  imports Session Health Step_Machine
begin

section \<open>The life of the HTTP process\<close>

text \<open>
  \<^verbatim>\<open>run\<close> from the start of the listener on. The listener's goroutine sends one value on a buffered channel when it
  returns; the main goroutine declares the server healthy, waits for that value or for a signal, and on a signal stops
  the listener first. Requests use the provider of their credential as long as the server answers them; \<open>attempt\<close>
  is what the attempts of each credential to open a session give, and a request brings which sessions are alive.
  Returning runs the deferred \<^verbatim>\<open>CloseAll\<close>. The list of closed sessions is kept to reason about them.
\<close>

datatype phase = Starting | Selecting | ShuttingDown | AwaitingListener | Exited "go_error option"

datatype listener_end = ServerClosed | ListenFailed go_error

definition listener_error :: "listener_end \<Rightarrow> go_error option" where
  "listener_error e = (case e of ServerClosed \<Rightarrow> None | ListenFailed err \<Rightarrow> Some err)"

record 's process =
  ps_health :: health
  ps_phase :: phase
  ps_errc :: "go_error option option"
  ps_returned :: bool
  ps_providers :: "string \<Rightarrow> 's provider"
  ps_sessions :: "'s session_table"
  ps_closed :: "'s list"

datatype 's process_event =
    Declared
  | Request string "'s \<Rightarrow> bool"
  | ListenerReturned listener_end
  | SignalReceived
  | ErrcReceived
  | ShutdownReturned "go_error option"

definition process_start :: "string \<Rightarrow> 's process" where
  "process_start version =
     \<lparr>ps_health = NewHealth version, ps_phase = Starting, ps_errc = None, ps_returned = False,
      ps_providers = (\<lambda>_. NewSessionProvider), ps_sessions = [], ps_closed = []\<rparr>"

text \<open>Returning from \<^verbatim>\<open>run\<close>.\<close>

definition exit_with :: "go_error option \<Rightarrow> 's process \<Rightarrow> 's process" where
  "exit_with err s =
     (case CloseAll (ps_sessions s) of
        (shut, m) \<Rightarrow> s\<lparr>ps_phase := Exited err, ps_sessions := m, ps_closed := ps_closed s @ shut\<rparr>)"

fun process_enabled :: "'s process_event \<Rightarrow> 's process \<Rightarrow> bool" where
  "process_enabled Declared s \<longleftrightarrow> ps_phase s = Starting"
| "process_enabled (Request i alive) s \<longleftrightarrow> ps_phase s \<in> {Starting, Selecting, ShuttingDown}"
| "process_enabled (ListenerReturned e) s \<longleftrightarrow>
     \<not> ps_returned s \<and> ps_phase s \<in> {Starting, Selecting, ShuttingDown, AwaitingListener}"
| "process_enabled SignalReceived s \<longleftrightarrow> ps_phase s = Selecting"
| "process_enabled ErrcReceived s \<longleftrightarrow> ps_phase s \<in> {Selecting, AwaitingListener} \<and> ps_errc s \<noteq> None"
| "process_enabled (ShutdownReturned e) s \<longleftrightarrow> ps_phase s = ShuttingDown"

fun process_step :: "(string \<Rightarrow> nat \<Rightarrow> go_error + 's) \<Rightarrow> 's process_event \<Rightarrow> 's process \<Rightarrow> 's process" where
  "process_step attempt Declared s = s\<lparr>ps_health := SetServing True (ps_health s), ps_phase := Selecting\<rparr>"
| "process_step attempt (Request i alive) s =
     (case provide (attempt i) alive i (ps_providers s i) (ps_sessions s) of
        (r, shut, p, m) \<Rightarrow>
          s\<lparr>ps_providers := (ps_providers s)(i := p), ps_sessions := m, ps_closed := ps_closed s @ shut\<rparr>)"
| "process_step attempt (ListenerReturned e) s = s\<lparr>ps_errc := Some (listener_error e), ps_returned := True\<rparr>"
| "process_step attempt SignalReceived s =
     s\<lparr>ps_health := SetUnhealthy ''shutting down'' (ps_health s), ps_phase := ShuttingDown\<rparr>"
| "process_step attempt ErrcReceived s =
     exit_with (case ps_errc s of None \<Rightarrow> None | Some err \<Rightarrow> err) (s\<lparr>ps_errc := None\<rparr>)"
| "process_step attempt (ShutdownReturned e) s =
     (case e of None \<Rightarrow> s\<lparr>ps_phase := AwaitingListener\<rparr> | Some err \<Rightarrow> exit_with (Some err) s)"

definition process_perform ::
  "(string \<Rightarrow> nat \<Rightarrow> go_error + 's) \<Rightarrow> 's process_event \<Rightarrow> 's process \<Rightarrow> 's process outcome" where
  "process_perform attempt e s = Ran (process_step attempt e s)"

subsection \<open>The invariant\<close>

text \<open>What the health endpoint tells in each phase.\<close>

definition health_ok :: "string \<Rightarrow> 's process \<Rightarrow> bool" where
  "health_ok version s \<longleftrightarrow> hl_version (ps_health s) = version \<and>
     (case ps_phase s of
        Starting \<Rightarrow> ps_health s = NewHealth version
      | Selecting \<Rightarrow> hl_serving (ps_health s)
      | Exited err \<Rightarrow> True
      | _ \<Rightarrow> \<not> hl_serving (ps_health s) \<and> hl_reason (ps_health s) = ''shutting down'')"

text \<open>
  A provider holds the session tracked under its name, and every session one of its attempts opened is that one or
  closed.
\<close>

definition provider_ok :: "(nat \<Rightarrow> go_error + 's) \<Rightarrow> 's provider \<Rightarrow> 's option \<Rightarrow> 's set \<Rightarrow> bool" where
  "provider_ok attempt p tracked shut \<longleftrightarrow> pv_session p = tracked \<and>
     (\<not> pv_opened p \<longrightarrow> pv_attempts p = 0 \<and> tracked = None \<and> pv_error p = None) \<and>
     (\<forall>k < pv_attempts p. \<forall>x. attempt k = Inr x \<longrightarrow> x \<in> shut \<or> tracked = Some x)"

definition process_inv :: "(string \<Rightarrow> nat \<Rightarrow> go_error + 's) \<Rightarrow> string \<Rightarrow> nat \<Rightarrow> 's process \<Rightarrow> bool" where
  "process_inv attempt version n s \<longleftrightarrow> health_ok version s \<and>
     (if (\<exists>err. ps_phase s = Exited err)
      then ps_sessions s = [] \<and>
        (\<forall>i. \<forall>k < pv_attempts (ps_providers s i). \<forall>x. attempt i k = Inr x \<longrightarrow> x \<in> set (ps_closed s))
      else (ps_errc s \<noteq> None) = ps_returned s \<and>
        (\<forall>i. provider_ok (attempt i) (ps_providers s i) (map_of (ps_sessions s) i) (set (ps_closed s))))"

lemma provider_ok_mono: "provider_ok attempt p t S \<Longrightarrow> S \<subseteq> S' \<Longrightarrow> provider_ok attempt p t S'"
  unfolding provider_ok_def by blast

lemma all_less_Suc: "(\<forall>k < Suc n. P k) \<longleftrightarrow> P n \<and> (\<forall>k < n. P k)"
  by (auto simp: less_Suc_eq)

lemma provider_fails_again:
  "provider_ok attempt p t S \<Longrightarrow> pv_opened p \<Longrightarrow> attempt (pv_attempts p) = Inl e \<Longrightarrow>
   provider_ok attempt (p\<lparr>pv_attempts := Suc (pv_attempts p)\<rparr>) t S"
  by (simp add: provider_ok_def all_less_Suc)

lemma provider_reopens:
  "provider_ok attempt p (Some x) S \<Longrightarrow> pv_opened p \<Longrightarrow> attempt (pv_attempts p) = Inr y \<Longrightarrow>
   provider_ok attempt (p\<lparr>pv_session := Some y, pv_attempts := Suc (pv_attempts p)\<rparr>) (Some y) (insert x S)"
  by (simp add: provider_ok_def all_less_Suc) blast

lemma open_once_keeps_provider:
  assumes "provider_ok (attempt i) p (map_of m i) S" and "open_once (attempt i) i p m = (q, n)"
  shows "provider_ok (attempt i) q (map_of n i) S" and "\<And>j. j \<noteq> i \<Longrightarrow> map_of n j = map_of m j"
  using assms by (auto simp: open_once_def provider_ok_def Track_def map_of_map_put less_Suc_eq split: if_splits sum.splits)

lemma provide_keeps_provider:
  assumes "provider_ok (attempt i) p (map_of m i) S"
    and "provide (attempt i) alive i p m = (r, shut, p', m')"
  shows "provider_ok (attempt i) p' (map_of m' i) (S \<union> set shut)" and "\<And>j. j \<noteq> i \<Longrightarrow> map_of m' j = map_of m j"
proof -
  obtain q n where open_q: "open_once (attempt i) i p m = (q, n)" by fastforce
  note q = open_once_keeps_provider [where attempt = attempt, OF assms(1) open_q]
  have "provider_ok (attempt i) p' (map_of m' i) (S \<union> set shut) \<and> (\<forall>j. j \<noteq> i \<longrightarrow> map_of m' j = map_of n j)"
  proof (cases "pv_error q = None \<and> pv_session q \<noteq> None \<and> \<not> alive (the (pv_session q))")
    case False
    with assms(2) open_q q(1) show ?thesis by (auto simp: provide_def split: option.splits if_splits)
  next
    case True
    then obtain x where none: "pv_error q = None" and x: "pv_session q = Some x" "\<not> alive x" by auto
    have t: "map_of n i = Some x" using q(1) x by (simp add: provider_ok_def)
    have opened: "pv_opened q" using q(1) x by (auto simp: provider_ok_def)
    show ?thesis
    proof (cases "attempt i (pv_attempts q)")
      case (Inl e)
      with none x assms(2) open_q provider_fails_again [OF q(1) opened Inl] show ?thesis
        by (auto simp: provide_def)
    next
      case (Inr y)
      with none x assms(2) open_q provider_reopens [OF q(1) [unfolded t] opened Inr] show ?thesis
        by (auto simp: provide_def Track_def map_of_map_put)
    qed
  qed
  then show "provider_ok (attempt i) p' (map_of m' i) (S \<union> set shut)"
    and "\<And>j. j \<noteq> i \<Longrightarrow> map_of m' j = map_of m j"
    using q(2) by simp_all
qed

lemma exit_with_inv:
  assumes "\<forall>i. provider_ok (attempt i) (ps_providers s i) (map_of (ps_sessions s) i) (set (ps_closed s))"
    and "hl_version (ps_health s) = version"
  shows "process_inv attempt version n (exit_with err s)"
proof -
  have "x \<in> set (ps_closed s) \<or> x \<in> snd ` set (ps_sessions s)"
    if "k < pv_attempts (ps_providers s i)" and "attempt i k = Inr x" for i k x
    using that assms(1) unfolding provider_ok_def by (metis map_of_SomeD image_eqI snd_conv)
  with assms(2) show ?thesis
    by (auto simp: process_inv_def exit_with_def CloseAll_def health_ok_def)
qed

lemma process_step_inv:
  assumes "process_inv attempt version n s" and "process_enabled e s"
  shows "process_inv attempt version (Suc n) (process_step attempt e s)"
proof -
  have h: "health_ok version s" using assms(1) by (simp add: process_inv_def)
  have p: "\<forall>i. provider_ok (attempt i) (ps_providers s i) (map_of (ps_sessions s) i) (set (ps_closed s))"
    using assms by (cases e) (auto simp: process_inv_def split: if_splits)
  have r: "(ps_errc s \<noteq> None) = ps_returned s"
    using assms by (cases e) (auto simp: process_inv_def split: if_splits)
  have v: "hl_version (ps_health s) = version" using h by (simp add: health_ok_def)
  show ?thesis
  proof (cases e)
    case (Request i alive)
    obtain r shut p' m' where pr: "provide (attempt i) alive i (ps_providers s i) (ps_sessions s) = (r, shut, p', m')"
      by (metis prod_cases4)
    note keeps = provide_keeps_provider [where attempt = attempt, OF p [rule_format] pr]
    have "provider_ok (attempt j) (((ps_providers s)(i := p')) j) (map_of m' j) (set (ps_closed s) \<union> set shut)" for j
      using keeps p by (cases "j = i") (auto intro: provider_ok_mono)
    moreover have "\<not> (\<exists>err. ps_phase s = Exited err)" using assms(2) Request by auto
    ultimately show ?thesis
      using h r by (simp add: process_inv_def Request pr health_ok_def split: phase.splits)
  next
    case ErrcReceived
    then show ?thesis using exit_with_inv [of attempt "s\<lparr>ps_errc := None\<rparr>"] p v by simp
  next
    case (ShutdownReturned err)
    show ?thesis
    proof (cases err)
      case None
      with ShutdownReturned h p r assms(2) show ?thesis
        by (simp add: process_inv_def health_ok_def)
    next
      case (Some x)
      with ShutdownReturned show ?thesis using exit_with_inv [OF p v] by simp
    qed
  qed (use assms(2) h p r v in \<open>auto simp: process_inv_def health_ok_def SetServing_def SetUnhealthy_def NewHealth_def split: phase.splits\<close>)
qed

lemma process_start_inv: "process_inv attempt version 0 (process_start version)"
  by (simp add: process_inv_def process_start_def health_ok_def provider_ok_def NewSessionProvider_def NewHealth_def)

interpretation process: machine process_enabled "process_perform attempt" "process_inv attempt version" "process_start version" limit
  for attempt version limit
  by unfold_locales (auto simp: process_perform_def process_start_inv process_step_inv)

subsection \<open>Properties\<close>


text \<open>Two requests of one credential whose first session dies, one of another, and a shutdown.\<close>

definition example_attempt :: "string \<Rightarrow> nat \<Rightarrow> go_error + string" where
  "example_attempt i k = Inr (i @ show_int (int k))"

definition example_life :: "string process_event list" where
  "example_life =
     [Declared, Request ''a'' (\<lambda>x. True), Request ''b'' (\<lambda>x. True), Request ''a'' (\<lambda>x. False), SignalReceived,
      ListenerReturned ServerClosed, ShutdownReturned None, ErrcReceived]"

lemma example_life_runs:
  "\<exists>s. runs process_enabled (process_perform example_attempt) 8 (process_start ''dev'') s \<and> ps_phase s = Exited None \<and>
     pv_attempts (ps_providers s ''a'') = 2"
proof -
  have ends: "case run_events process_enabled (process_perform example_attempt) example_life (process_start ''dev'') of
      Ran s \<Rightarrow> ps_phase s = Exited None \<and> pv_attempts (ps_providers s ''a'') = 2 | _ \<Rightarrow> False"
    by (simp add: listener_error_def example_life_def process_start_def process_perform_def provide_def open_once_def NewSessionProvider_def
        example_attempt_def exit_with_def CloseAll_def)
  then obtain s where s: "run_events process_enabled (process_perform example_attempt) example_life (process_start ''dev'') = Ran s"
    by (auto split: outcome.splits)
  have len: "length example_life = 8" by (simp add: example_life_def)
  from runs_of_events [OF s] ends s show ?thesis by (auto simp: len)
qed


text \<open>
  The health endpoint tells the truth at every moment of the process's life: 503 with the reason \<open>starting up\<close>
  until the server has been declared, 200 while it waits for requests, 503 with the reason \<open>shutting down\<close> from the
  signal on, never 200 again.
\<close>

theorem health_tells_phase:
  assumes "runs process_enabled (process_perform attempt) n (process_start version) s"
  shows "(case ps_phase s of Exited err \<Rightarrow> True
     | ph \<Rightarrow> hr_status (ServeHTTP_health (ps_health s)) = (if ph = Selecting then 200 else 503) \<and>
        map_of (hr_body (ServeHTTP_health (ps_health s))) ''reason'' =
          (if ph = Selecting then None else Some (if ph = Starting then ''starting up'' else ''shutting down'')))"
  using process.reachable_inv [OF assms order_refl]
  by (simp add: process_inv_def health_ok_def ServeHTTP_health_status ServeHTTP_health_reason NewHealth_def split: phase.splits)

lemma health_tells_phase_witness:
  "\<exists>s. runs process_enabled (process_perform example_attempt) 1 (process_start ''dev'') s \<and> ps_phase s = Selecting \<and>
     hr_status (ServeHTTP_health (ps_health s)) = 200"
proof -
  let ?s = "process_step example_attempt Declared (process_start ''dev'')"
  have r: "runs process_enabled (process_perform example_attempt) 1 (process_start ''dev'') ?s"
    using runs_step [OF runs_start, of process_enabled Declared "process_start ''dev''" "process_perform example_attempt" ?s]
    by (simp add: process_perform_def process_start_def)
  have "ps_phase ?s = Selecting" by simp
  with health_tells_phase [OF r] r show ?thesis by (intro exI [of _ ?s]) simp
qed

text \<open>
  The process can always be stopped: from every reachable state that has not exited, at most five steps of the main
  goroutine and the listener, with no request among them, lead to an exit, and they exit without an error if the
  listener was still running.
\<close>

theorem process_can_always_exit:
  assumes "runs process_enabled (process_perform attempt) n (process_start version) s"
    and "\<And>err. ps_phase s \<noteq> Exited err"
  shows "\<exists>es s' err. length es \<le> 5 \<and> list_all (\<lambda>e. case e of Request i alive \<Rightarrow> False | _ \<Rightarrow> True) es \<and>
    run_events process_enabled (process_perform attempt) es s = Ran s' \<and> ps_phase s' = Exited err \<and>
    (if ps_returned s then True else err = None)"
proof -
  have errc: "(ps_errc s \<noteq> None) = ps_returned s"
    using process.reachable_inv [OF assms(1) order_refl] assms(2) by (simp add: process_inv_def)
  let ?listener = "if ps_returned s then [] else [ListenerReturned ServerClosed]"
  let ?es = "case ps_phase s of
      Starting \<Rightarrow> [Declared, SignalReceived] @ ?listener @ [ShutdownReturned None, ErrcReceived]
    | Selecting \<Rightarrow> [SignalReceived] @ ?listener @ [ShutdownReturned None, ErrcReceived]
    | ShuttingDown \<Rightarrow> ?listener @ [ShutdownReturned None, ErrcReceived]
    | _ \<Rightarrow> ?listener @ [ErrcReceived]"
  have "length ?es \<le> 5 \<and> list_all (\<lambda>e. case e of Request i alive \<Rightarrow> False | _ \<Rightarrow> True) ?es"
    by (simp split: phase.split)
  moreover have "\<exists>s' err. run_events process_enabled (process_perform attempt) ?es s = Ran s' \<and> ps_phase s' = Exited err \<and>
      (if ps_returned s then True else err = None)"
    using assms(2) errc
    by (cases "ps_phase s"; cases "ps_returned s")
      (auto simp: process_perform_def exit_with_def CloseAll_def listener_error_def)
  ultimately show ?thesis by blast
qed

lemma process_can_always_exit_witness:
  "\<exists>es s' err. length es \<le> 5 \<and> list_all (\<lambda>e. case e of Request i alive \<Rightarrow> False | _ \<Rightarrow> True) es \<and>
    run_events process_enabled (process_perform example_attempt) es (process_start ''dev'') = Ran s' \<and>
    ps_phase s' = Exited err \<and> (if ps_returned (process_start ''dev'' :: string process) then True else err = None)"
  by (rule process_can_always_exit [OF runs_start]) (simp add: process_start_def)

end
