(* ===== verification/Main_Process.thy ===== *)
theory Main_Process
  imports MCP_Server Process_Life
begin

section \<open>The process\<close>

text \<open>
  \<^verbatim>\<open>cmd/truenas-mcp/main.go\<close> with \<^verbatim>\<open>MountOAuth\<close> and \<^verbatim>\<open>NewMCPHandler\<close> of \<^verbatim>\<open>internal/server/mcp.go\<close> and \<^verbatim>\<open>Mount\<close> of
  \<^verbatim>\<open>internal/oauth/handler.go\<close>: how a configuration becomes a running server. The first part is what the process does
  with its flags, the second the routes of its HTTP server and what is behind them, the third the life of the
  process from the start of the listener to the exit, with the sessions it opens on the way.
\<close>

subsection \<open>Start\<close>

definition flagConflictErr :: "bool \<Rightarrow> bool \<Rightarrow> string option" where
  "flagConflictErr stdio healthcheck =
     (if stdio \<and> healthcheck
      then Some ''--stdio and --healthcheck cannot be combined: --healthcheck probes the HTTP listener, which stdio mode never starts''
      else None)"

datatype failure = FlagConflict string | InvalidConfig config_error | ProbeFailed probe_error

text \<open>What the process goes on to do, with the lines it logs first: exit, or serve on one of the transports.\<close>

datatype start =
    ExitFailure failure
  | ExitHealthy
  | RunStdio config "string list"
  | RunHTTP config "string list"

definition startup_log :: "config \<Rightarrow> string list" where
  "startup_log c = Summary c # cf_warnings c"

definition main_start ::
  "config_env \<Rightarrow> (string \<Rightarrow> string) \<Rightarrow> (string \<Rightarrow> string + nat) \<Rightarrow> bool \<Rightarrow> bool \<Rightarrow> start" where
  "main_start env getenv get stdio healthcheck =
     (case flagConflictErr stdio healthcheck of
        Some e \<Rightarrow> ExitFailure (FlagConflict e)
      | None \<Rightarrow>
          (case Load env getenv (if stdio then ModeStdio else ModeHTTP) of
             Inl e \<Rightarrow> ExitFailure (InvalidConfig e)
           | Inr cfg \<Rightarrow>
               if healthcheck then
                 (case Probe get (ProbeURL (cf_listen cfg)) of
                    Some e \<Rightarrow> ExitFailure (ProbeFailed e)
                  | None \<Rightarrow> ExitHealthy)
               else if stdio then RunStdio cfg (startup_log cfg)
               else RunHTTP cfg (startup_log cfg)))"

definition shutdownErr :: "go_error option \<Rightarrow> go_error option" where
  "shutdownErr err =
     (case err of
        None \<Rightarrow> None
      | Some e \<Rightarrow> if err_is ErrContextCanceled e then None else Some e)"

definition mcp_config_of :: "string \<Rightarrow> config \<Rightarrow> mcp_config" where
  "mcp_config_of version c =
     \<lparr>sv_version = version, sv_target = cf_target c, sv_enable_writes = cf_enable_writes c\<rparr>"

text \<open>
  Serving one client over stdio. \<open>serve\<close> is the SDK running the server: given the provider and the table of sessions it
  returns how it ended, the sessions closed on the way, and the table it leaves. The result carries every session closed.
\<close>

definition runStdio ::
  "string \<Rightarrow> string \<Rightarrow> config \<Rightarrow> (nat \<Rightarrow> go_error + 's) \<Rightarrow> ('s \<Rightarrow> bool) \<Rightarrow>
     (mcp_server \<Rightarrow> 's provider \<Rightarrow> 's session_table \<Rightarrow> go_error option \<times> 's list \<times> 's session_table) \<Rightarrow>
     go_error option \<times> 's list" where
  "runStdio html version c attempt alive serve =
     (case provide attempt alive ''stdio'' NewSessionProvider [] of
        (Inl e, shut, p, m) \<Rightarrow> (Some (Wrapped (''connecting to '' @ cf_target c) [e]), shut @ fst (CloseAll m))
      | (Inr s, shut, p, m) \<Rightarrow>
          (case serve (NewMCPServer html (mcp_config_of version c) True) p m of
             (err, shut', m') \<Rightarrow> (shutdownErr err, shut @ shut' @ fst (CloseAll m'))))"

subsection \<open>The routes\<close>

datatype route =
    HealthRoute
  | MCPRoute
  | ProtectedResourceRoute
  | AuthorizationServerRoute
  | RegisterRoute
  | AuthorizeGetRoute
  | AuthorizePostRoute
  | TokenRoute

text \<open>
  The patterns of \<^verbatim>\<open>http.ServeMux\<close> the program registers: a path, matched exactly, after a method or none. A pattern for
  \<^verbatim>\<open>GET\<close> also serves \<^verbatim>\<open>HEAD\<close>; a request whose path has patterns, but none for its method, is answered 405.
\<close>

type_synonym mux = "((string option \<times> string) \<times> route) list"

datatype lookup_result = Found route | MethodNotAllowed | NotFound

definition method_matches :: "string option \<Rightarrow> string \<Rightarrow> bool" where
  "method_matches pattern method =
     (case pattern of
        None \<Rightarrow> True
      | Some m \<Rightarrow> m = method \<or> m = ''GET'' \<and> method = ''HEAD'')"

definition mux_lookup :: "mux \<Rightarrow> string \<Rightarrow> string \<Rightarrow> lookup_result" where
  "mux_lookup mux method path =
     (case find (\<lambda>((m, p), r). p = path \<and> method_matches m method) mux of
        Some (pattern, r) \<Rightarrow> Found r
      | None \<Rightarrow> if path \<in> set (map (snd \<circ> fst) mux) then MethodNotAllowed else NotFound)"

definition Mount :: "mux \<Rightarrow> mux" where
  "Mount mux = mux @
     [((Some ''GET'', ProtectedResourceMetadataPath), ProtectedResourceRoute),
      ((Some ''GET'', AuthorizationServerMetadataPath), AuthorizationServerRoute),
      ((Some ''POST'', RegisterPath), RegisterRoute),
      ((Some ''GET'', AuthorizePath), AuthorizeGetRoute),
      ((Some ''POST'', AuthorizePath), AuthorizePostRoute),
      ((Some ''POST'', TokenPath), TokenRoute)]"

definition MountOAuth ::
  "crypto \<Rightarrow> mux \<Rightarrow> string \<Rightarrow> string \<Rightarrow> int \<Rightarrow> int \<Rightarrow> mux \<times> oauth_config option \<times> keys option \<times> string" where
  "MountOAuth cy mux issuer masterKey accessTokenTTL refreshTokenTTL =
     (if issuer = [] then (mux, None, None, [])
      else
        let keys = DeriveKeys cy masterKey;
            h = \<lparr>oc_issuer = issuer, oc_keys = keys, oc_access_ttl = accessTokenTTL, oc_refresh_ttl = refreshTokenTTL\<rparr>
        in (Mount mux, Some h, Some keys, ProtectedResourceMetadataURL h))"

record http_server =
  hs_addr :: string
  hs_tls :: "(string \<times> string) option"
  hs_mux :: mux
  hs_oauth :: "oauth_config option"
  hs_mcp :: mcp_config
  hs_oauth_keys :: "keys option"
  hs_metadata_url :: string

text \<open>What \<^verbatim>\<open>run\<close> puts together before it listens.\<close>

definition build_server :: "crypto \<Rightarrow> string \<Rightarrow> config \<Rightarrow> http_server" where
  "build_server cy version c =
     (case MountOAuth cy [((Some ''GET'', ''/healthz''), HealthRoute)] (cf_oauth_issuer c) (cf_oauth_key c)
             (cf_oauth_access_ttl c) (cf_oauth_refresh_ttl c) of
        (mux, oauth, oauthKeys, resourceMetadataURL) \<Rightarrow>
          \<lparr>hs_addr = cf_listen c,
           hs_tls = (if TLSEnabled c then Some (cf_tls_cert c, cf_tls_key c) else None),
           hs_mux = mux @ [((None, ''/mcp''), MCPRoute)], hs_oauth = oauth, hs_mcp = mcp_config_of version c,
           hs_oauth_keys = oauthKeys, hs_metadata_url = resourceMetadataURL\<rparr>)"

subsection \<open>Requests\<close>

text \<open>
  A request as the handlers read it: the parsed query or form, absent when it does not parse, the JSON body, and the two
  headers of a credential. The state behind the handlers is the replay cache and the handlers cached per credential.
\<close>

record http_request =
  rq_method :: string
  rq_path :: string
  rq_form :: "form option"
  rq_body :: "json option"
  rq_api_key :: string
  rq_authorization :: string

datatype http_answer =
    HealthAnswer health_reply
  | OAuthAnswer oauth_answer
  | MCPAnswer "string gate_answer"
  | NoMethod
  | NoPath

type_synonym http_state = "replay_cache \<times> (string \<rightharpoonup> string)"

definition serve_oauth ::
  "oauth_env \<Rightarrow> oauth_config \<Rightarrow> route \<Rightarrow> http_request \<Rightarrow> int \<Rightarrow> int \<Rightarrow> replay_cache \<Rightarrow> oauth_answer \<times> replay_cache" where
  "serve_oauth env oc r rq now claim_now codes =
     (case r of
        ProtectedResourceRoute \<Rightarrow> (handleProtectedResourceMetadata oc, codes)
      | AuthorizationServerRoute \<Rightarrow> (handleAuthorizationServerMetadata oc, codes)
      | RegisterRoute \<Rightarrow> (handleRegister env oc (rq_body rq) now, codes)
      | AuthorizeGetRoute \<Rightarrow> (handleAuthorizeGet env oc (case rq_form rq of None \<Rightarrow> [] | Some f \<Rightarrow> f), codes)
      | AuthorizePostRoute \<Rightarrow> (handleAuthorizePost env oc (rq_form rq) now, codes)
      | _ \<Rightarrow> handleToken env oc (rq_form rq) now claim_now codes)"

definition serve_http ::
  "oauth_env \<Rightarrow> http_server \<Rightarrow> health \<Rightarrow> http_request \<Rightarrow> int \<Rightarrow> int \<Rightarrow> http_state \<Rightarrow> http_answer \<times> http_state" where
  "serve_http env s h rq now claim_now st =
     (case mux_lookup (hs_mux s) (rq_method rq) (rq_path rq) of
        NotFound \<Rightarrow> (NoPath, st)
      | MethodNotAllowed \<Rightarrow> (NoMethod, st)
      | Found HealthRoute \<Rightarrow> (HealthAnswer (ServeHTTP_health h), st)
      | Found MCPRoute \<Rightarrow>
          (case ServeHTTP (oe_crypto env) (hs_oauth_keys s) (hs_metadata_url s) now (rq_api_key rq) (rq_authorization rq) (snd st) of
             (a, handlers) \<Rightarrow> (MCPAnswer a, (fst st, handlers)))
      | Found r \<Rightarrow>
          (case hs_oauth s of
             None \<Rightarrow> (NoPath, st)
           | Some oc \<Rightarrow>
               (case serve_oauth env oc r rq now claim_now (fst st) of
                  (a, codes) \<Rightarrow> (OAuthAnswer a, (codes, snd st)))))"

subsection \<open>Lemmas\<close>

lemma main_start_serves:
  "main_start env getenv get stdio healthcheck = RunHTTP c lines \<Longrightarrow>
     \<not> stdio \<and> \<not> healthcheck \<and> Load env getenv ModeHTTP = Inr c"
  "main_start env getenv get stdio healthcheck = RunStdio c lines \<Longrightarrow>
     stdio \<and> \<not> healthcheck \<and> Load env getenv ModeStdio = Inr c"
  by (auto simp: main_start_def flagConflictErr_def split: if_splits sum.splits option.splits)

text \<open>
  The container's health check fails for every configuration that serves TLS: the listener answers plain requests with
  status 400, and the probe only makes plain requests.
\<close>

lemma healthcheck_fails_under_tls:
  assumes "Load env getenv ModeHTTP = Inr c" and "hs_tls (build_server cy version c) \<noteq> None"
    and "\<And>hostport. get (''http://'' @ hostport @ ''/healthz'') = Inr 400"
  shows "main_start env getenv get False True = ExitFailure (ProbeFailed (Reported 400))"
  using probe_ignores_tls [of get] assms(1,3) by (simp add: main_start_def flagConflictErr_def)

lemmas path_defs = ProtectedResourceMetadataPath_def AuthorizationServerMetadataPath_def RegisterPath_def
  AuthorizePath_def TokenPath_def

text \<open>The routing table of the server, by path and method; the OAuth paths exist with an issuer only.\<close>

definition route_table :: "bool \<Rightarrow> (string \<times> (string \<times> route) list) list" where
  "route_table oauth =
     [(''/healthz'', [(''GET'', HealthRoute), (''HEAD'', HealthRoute)])] @
     (if oauth then
        [(ProtectedResourceMetadataPath, [(''GET'', ProtectedResourceRoute), (''HEAD'', ProtectedResourceRoute)]),
         (AuthorizationServerMetadataPath, [(''GET'', AuthorizationServerRoute), (''HEAD'', AuthorizationServerRoute)]),
         (RegisterPath, [(''POST'', RegisterRoute)]),
         (AuthorizePath, [(''GET'', AuthorizeGetRoute), (''HEAD'', AuthorizeGetRoute), (''POST'', AuthorizePostRoute)]),
         (TokenPath, [(''POST'', TokenRoute)])]
      else [])"

lemma build_server_mux:
  "hs_mux (build_server cy version c) =
     (if cf_oauth_issuer c = [] then [((Some ''GET'', ''/healthz''), HealthRoute)]
      else Mount [((Some ''GET'', ''/healthz''), HealthRoute)]) @ [((None, ''/mcp''), MCPRoute)]"
  by (simp add: build_server_def MountOAuth_def Let_def)

lemma server_routes:
  "mux_lookup (hs_mux (build_server cy version c)) meth path =
     (if path = ''/mcp'' then Found MCPRoute
      else case map_of (route_table (cf_oauth_issuer c \<noteq> [])) path of
        None \<Rightarrow> NotFound
      | Some methods \<Rightarrow> (case map_of methods meth of None \<Rightarrow> MethodNotAllowed | Some r \<Rightarrow> Found r))"
  unfolding build_server_mux
  by (auto simp: mux_lookup_def Mount_def route_table_def path_defs method_matches_def)

lemma build_server_fields:
  "hs_tls (build_server cy version c) = (if TLSEnabled c then Some (cf_tls_cert c, cf_tls_key c) else None)"
  "cf_oauth_issuer c \<noteq> [] \<Longrightarrow> hs_oauth (build_server cy version c) =
     Some \<lparr>oc_issuer = cf_oauth_issuer c, oc_keys = DeriveKeys cy (cf_oauth_key c),
       oc_access_ttl = cf_oauth_access_ttl c, oc_refresh_ttl = cf_oauth_refresh_ttl c\<rparr>"
  "hs_oauth_keys (build_server cy version c) = map_option oc_keys (hs_oauth (build_server cy version c))"
  "hs_metadata_url (build_server cy version c) =
     (case hs_oauth (build_server cy version c) of None \<Rightarrow> [] | Some oc \<Rightarrow> ProtectedResourceMetadataURL oc)"
  "cf_oauth_issuer c = [] \<Longrightarrow> hs_oauth (build_server cy version c) = None"
  by (simp_all add: build_server_def MountOAuth_def Let_def)

lemma no_credential: "CredentialFromRequest cy ks now [] [] = Inl ErrNoCredential"
  by (simp add: CredentialFromRequest_def)

subsection \<open>Properties\<close>

text \<open>
  C31. Discovery closes on itself. A request without a credential to the MCP route of a server with an issuer is refused
  with a challenge naming a URL under the issuer; that URL's path is routed, on the same server, to the resource
  document, which names the MCP route and the issuer; the issuer's own document is routed, and each endpoint it
  names is a routed path that reaches the handler it stands for. The gate and the authorization server use the same keys.
\<close>

theorem discovery_is_closed:
  assumes "cf_oauth_issuer c \<noteq> []" and "build_server cy version c = s"
    and "rq_path rq = ''/mcp''" and "rq_api_key rq = []" and "rq_authorization rq = []"
  shows "\<exists>oc sm base. hs_oauth s = Some oc \<and> hs_oauth_keys s = Some (oc_keys oc) \<and> base = issuerBase oc \<and>
    serve_http env s h rq now claim_now st =
      (MCPAnswer (Unauthorized (wwwAuthenticateChallenge (base @ ProtectedResourceMetadataPath)) ErrNoCredential), st) \<and>
    serve_http env s h (rq\<lparr>rq_method := ''GET'', rq_path := ProtectedResourceMetadataPath\<rparr>) now claim_now st =
      (OAuthAnswer (ResourceMetadata (base @ ''/mcp'') [base]), st) \<and>
    serve_http env s h (rq\<lparr>rq_method := ''GET'', rq_path := AuthorizationServerMetadataPath\<rparr>) now claim_now st =
      (OAuthAnswer (ServerMetadata sm), st) \<and>
    sm_issuer sm = base \<and>
    sm_registration_endpoint sm = base @ RegisterPath \<and> mux_lookup (hs_mux s) ''POST'' RegisterPath = Found RegisterRoute \<and>
    sm_authorization_endpoint sm = base @ AuthorizePath \<and>
    mux_lookup (hs_mux s) ''GET'' AuthorizePath = Found AuthorizeGetRoute \<and>
    mux_lookup (hs_mux s) ''POST'' AuthorizePath = Found AuthorizePostRoute \<and>
    sm_token_endpoint sm = base @ TokenPath \<and> mux_lookup (hs_mux s) ''POST'' TokenPath = Found TokenRoute"
proof -
  obtain oc where oc: "hs_oauth s = Some oc"
    using build_server_fields(2) [where cy = cy and c = c and version = version] assms(1) assms(2) by simp
  have keys: "hs_oauth_keys s = Some (oc_keys oc)" and url: "hs_metadata_url s = ProtectedResourceMetadataURL oc"
    using build_server_fields(3,4) [where cy = cy and c = c and version = version] assms(2) oc by simp_all
  obtain sm where sm: "handleAuthorizationServerMetadata oc = ServerMetadata sm" "sm_issuer sm = issuerBase oc"
    "sm_registration_endpoint sm = issuerBase oc @ RegisterPath"
    "sm_authorization_endpoint sm = issuerBase oc @ AuthorizePath" "sm_token_endpoint sm = issuerBase oc @ TokenPath"
    by (simp add: handleAuthorizationServerMetadata_def Let_def)
  have routes: "mux_lookup (hs_mux s) m p = (if p = ''/mcp'' then Found MCPRoute
      else case map_of (route_table True) p of None \<Rightarrow> NotFound
      | Some methods \<Rightarrow> (case map_of methods m of None \<Rightarrow> MethodNotAllowed | Some r \<Rightarrow> Found r))" for m p
    using server_routes [where cy = cy and c = c and version = version and meth = m and path = p] assms(1,2) by simp
  have found: "mux_lookup (hs_mux s) ''GET'' ProtectedResourceMetadataPath = Found ProtectedResourceRoute"
    "mux_lookup (hs_mux s) ''GET'' AuthorizationServerMetadataPath = Found AuthorizationServerRoute"
    "mux_lookup (hs_mux s) ''POST'' RegisterPath = Found RegisterRoute"
    "mux_lookup (hs_mux s) ''GET'' AuthorizePath = Found AuthorizeGetRoute"
    "mux_lookup (hs_mux s) ''POST'' AuthorizePath = Found AuthorizePostRoute"
    "mux_lookup (hs_mux s) ''POST'' TokenPath = Found TokenRoute"
    unfolding routes by (simp_all add: route_table_def path_defs)
  have "mux_lookup (hs_mux s) (rq_method rq) (rq_path rq) = Found MCPRoute"
    unfolding routes by (simp add: assms(3))
  with found oc keys url sm show ?thesis
    by (intro exI [of _ oc] exI [of _ sm] exI [of _ "issuerBase oc"])
      (simp add: serve_http_def serve_oauth_def ServeHTTP_def assms(4,5) no_credential ProtectedResourceMetadataURL_def
        handleProtectedResourceMetadata_def ResourceURL_def)
qed

definition example_request :: http_request where
  "example_request = \<lparr>rq_method = ''POST'', rq_path = ''/mcp'', rq_form = None, rq_body = None, rq_api_key = [],
     rq_authorization = []\<rparr>"

lemma discovery_is_closed_witness:
  "\<exists>oc. hs_oauth (build_server example_crypto ''dev'' sample_config) = Some oc \<and>
     serve_http OAuth_Server.example_env (build_server example_crypto ''dev'' sample_config) (NewHealth ''dev'') example_request 0 0
       (NewReplayCache, Map.empty) =
     (MCPAnswer (Unauthorized (wwwAuthenticateChallenge (issuerBase oc @ ProtectedResourceMetadataPath)) ErrNoCredential),
      (NewReplayCache, Map.empty))"
proof -
  have "cf_oauth_issuer sample_config \<noteq> []" by (simp add: sample_config_def)
  from discovery_is_closed [OF this refl, where rq = example_request and cy = example_crypto and version = "''dev''"
      and env = OAuth_Server.example_env and h = "NewHealth ''dev''" and now = 0 and claim_now = 0 and st = "(NewReplayCache, Map.empty)"]
  show ?thesis by (auto simp: example_request_def)
qed

text \<open>
  Without an issuer the process is no authorization server: only the health route and the MCP route exist, no
  OAuth handler answers anything, and the gate takes a bearer value as an API key itself, never as a sealed token.
\<close>

theorem no_issuer_no_oauth:
  assumes "cf_oauth_issuer c = []"
  shows "(case fst (serve_http env (build_server cy version c) h rq now claim_now st) of
      HealthAnswer r \<Rightarrow> rq_path rq = ''/healthz'' \<and> rq_method rq \<in> {''GET'', ''HEAD''}
    | OAuthAnswer a \<Rightarrow> False
    | MCPAnswer (Unauthorized challenge e) \<Rightarrow>
        rq_path rq = ''/mcp'' \<and> challenge = ''Bearer realm=\"truenas-mcp\"'' \<and> e = ErrNoCredential
    | MCPAnswer (Served key) \<Rightarrow> rq_path rq = ''/mcp''
    | NoMethod \<Rightarrow> rq_path rq = ''/healthz'' \<and> rq_method rq \<notin> {''GET'', ''HEAD''}
    | NoPath \<Rightarrow> rq_path rq \<notin> {''/healthz'', ''/mcp''})"
proof -
  note off = build_server_fields(3,4,5) [where cy = cy and c = c and version = version]
  have e: "e = ErrNoCredential" if "CredentialFromRequest cy' None now k a = Inl e" for cy' k a e
    using that by (auto simp: CredentialFromRequest_def Let_def split: if_splits option.splits)
  show ?thesis
    using assms off
    by (auto simp: serve_http_def server_routes route_table_def ServeHTTP_def wwwAuthenticateChallenge_def
        split: sum.split prod.split gate_answer.split dest: e)
qed

lemma no_issuer_no_oauth_witness:
  "case fst (serve_http OAuth_Server.example_env (build_server example_crypto ''dev'' (sample_config\<lparr>cf_oauth_issuer := []\<rparr>))
      (NewHealth ''dev'') example_request 0 0 (NewReplayCache, Map.empty)) of
     MCPAnswer (Unauthorized challenge e) \<Rightarrow> challenge = ''Bearer realm=\"truenas-mcp\"'' \<and> e = ErrNoCredential | _ \<Rightarrow> False"
proof -
  have "cf_oauth_issuer (sample_config\<lparr>cf_oauth_issuer := []\<rparr>) = []" by simp
  from no_issuer_no_oauth [OF this, where rq = example_request and cy = example_crypto and version = "''dev''"
      and env = OAuth_Server.example_env and h = "NewHealth ''dev''" and now = 0 and claim_now = 0 and st = "(NewReplayCache, Map.empty)"]
  show ?thesis
    by (auto simp: example_request_def serve_http_def server_routes ServeHTTP_def no_credential build_server_fields
        split: http_answer.splits gate_answer.splits)
qed

end
