(* ===== verification/Url_Query.thy ===== *)
theory Url_Query
  imports Go_Prelude
begin

section \<open>Query strings and form bodies\<close>

text \<open>
  What \<^verbatim>\<open>internal/oauth/authorize.go\<close> and \<^verbatim>\<open>token_handler.go\<close> use of \<^verbatim>\<open>net/url\<close> and \<^verbatim>\<open>net/http\<close>: escaping and
  unescaping of query components, parsing of a query or a form body into values, and the encoding of values back
  into a query. Values are a list of pairs in the order they were sent; reading a name takes its first value.
\<close>

subsection \<open>Escaping\<close>

definition upper_hex :: "nat \<Rightarrow> char" where
  "upper_hex d = (if d < 10 then char_of (48 + d) else char_of (55 + d))"

definition unhex :: "char \<Rightarrow> nat option" where
  "unhex c =
     (let n = (of_char c :: nat)
      in if 48 \<le> n \<and> n \<le> 57 then Some (n - 48)
         else if 65 \<le> n \<and> n \<le> 70 then Some (n - 55)
         else if 97 \<le> n \<and> n \<le> 102 then Some (n - 87)
         else None)"

definition unreserved :: "char \<Rightarrow> bool" where
  "unreserved c \<longleftrightarrow>
     (let n = (of_char c :: nat)
      in 48 \<le> n \<and> n \<le> 57 \<or> 65 \<le> n \<and> n \<le> 90 \<or> 97 \<le> n \<and> n \<le> 122 \<or> c \<in> set ''-_.~'')"

definition escape_byte :: "char \<Rightarrow> string" where
  "escape_byte c =
     (if unreserved c then [c] else if c = CHR '' '' then ''+''
      else [CHR ''%'', upper_hex (of_char c div 16), upper_hex (of_char c mod 16)])"

definition QueryEscape :: "string \<Rightarrow> string" where
  "QueryEscape s = concat (map escape_byte s)"

fun QueryUnescape :: "string \<Rightarrow> string option" where
  "QueryUnescape [] = Some []"
| "QueryUnescape (c # cs) =
     (if c = CHR ''%'' then
        (case cs of
           h # l # rest \<Rightarrow>
             (case (unhex h, unhex l) of
                (Some a, Some b) \<Rightarrow> map_option ((#) (char_of (16 * a + b))) (QueryUnescape rest)
              | _ \<Rightarrow> None)
         | _ \<Rightarrow> None)
      else map_option ((#) (if c = CHR ''+'' then CHR '' '' else c)) (QueryUnescape cs))"

subsection \<open>Parsing and encoding\<close>

fun split_char :: "char \<Rightarrow> string \<Rightarrow> string list" where
  "split_char sep [] = [[]]"
| "split_char sep (c # cs) =
     (if c = sep then [] # split_char sep cs
      else case split_char sep cs of p # ps \<Rightarrow> (c # p) # ps | [] \<Rightarrow> [[c]])"

text \<open>The settings of a query, with a flag that no setting was malformed. Malformed ones are skipped.\<close>

fun parse_settings :: "string list \<Rightarrow> (string \<times> string) list \<times> bool" where
  "parse_settings [] = ([], True)"
| "parse_settings (s # ss) =
     (case parse_settings ss of
        (m, ok) \<Rightarrow>
          if CHR '';'' \<in> set s then (m, False)
          else if s = [] then (m, ok)
          else (case (case cut_char (CHR ''='') s of Some kv \<Rightarrow> kv | None \<Rightarrow> (s, [])) of
                  (k, v) \<Rightarrow>
                    (case (QueryUnescape k, QueryUnescape v) of
                       (Some k', Some v') \<Rightarrow> ((k', v') # m, ok)
                     | _ \<Rightarrow> (m, False))))"

definition max_query_params :: nat where
  "max_query_params = 10000"

definition ParseQuery :: "string \<Rightarrow> (string \<times> string) list \<times> bool" where
  "ParseQuery q =
     (let parts = split_char (CHR ''&'') q
      in if max_query_params < length parts then ([], False) else parse_settings parts)"

text \<open>
  \<^verbatim>\<open>Request.ParseForm\<close> of a POST: the media type of the body (absent when it is malformed), the body and the query of
  the request's URL. Only a urlencoded body is read, up to 10 MiB; an error anywhere, in the query as well, fails it.
\<close>

definition max_form_size :: nat where
  "max_form_size = 10 * 2 ^ 20"

definition ParseForm :: "string option \<Rightarrow> string \<Rightarrow> string \<Rightarrow> (string \<times> string) list option" where
  "ParseForm media body query =
     (case media of
        None \<Rightarrow> None
      | Some t \<Rightarrow>
          if \<not> snd (ParseQuery query) then None
          else if t \<noteq> ''application/x-www-form-urlencoded'' then Some []
          else if max_form_size < length body then None
          else if snd (ParseQuery body) then Some (fst (ParseQuery body)) else None)"

definition encode_pair :: "string \<times> string \<Rightarrow> string" where
  "encode_pair kv = QueryEscape (fst kv) @ ''='' @ QueryEscape (snd kv)"

definition encode_pairs :: "(string \<times> string) list \<Rightarrow> string" where
  "encode_pairs ps = join_str ''&'' (map encode_pair ps)"

text \<open>
  \<^verbatim>\<open>Values\<close> as a Go map from a name to its values, \<^verbatim>\<open>Set\<close>, and \<^verbatim>\<open>Encode\<close>, which sorts by name.
\<close>

fun add_value :: "string \<Rightarrow> string \<Rightarrow> string list gomap \<Rightarrow> string list gomap" where
  "add_value k v [] = [(k, [v])]"
| "add_value k v ((k', vs) # m) = (if k' = k then (k', v # vs) # m else (k', vs) # add_value k v m)"

definition values_of :: "(string \<times> string) list \<Rightarrow> string list gomap" where
  "values_of ps = foldr (\<lambda>(k, v). add_value k v) ps []"

definition value_pairs :: "string list gomap \<Rightarrow> (string \<times> string) list" where
  "value_pairs m = concat (map (\<lambda>k. map (Pair k) (case map_of m k of Some vs \<Rightarrow> vs | None \<Rightarrow> [])) (sort (keys_of m)))"

definition Values_Encode :: "string list gomap \<Rightarrow> string" where
  "Values_Encode m = encode_pairs (value_pairs m)"

subsection \<open>Escaping is undone by unescaping\<close>

lemma byte_less: "(of_char (c :: char) :: nat) < 256"
  by (cases c) (simp add: of_char_def horner_sum_simps of_bool_def)

lemma of_upper_hex: "d < 16 \<Longrightarrow> of_char (upper_hex d) = (if d < 10 then 48 + d else 55 + d)"
  by (simp add: upper_hex_def)

lemma unhex_upper_hex: "d < 16 \<Longrightarrow> unhex (upper_hex d) = Some d"
  by (auto simp: unhex_def of_upper_hex Let_def)

lemma high_nibble: "of_char (c :: char) div 16 < (16 :: nat)"
  by (rule less_mult_imp_div_less) (simp add: byte_less)

lemma char_nibbles: "char_of (16 * (of_char c div 16) + of_char c mod 16 :: nat) = (c :: char)"
  by simp

lemma escape_byte_plain: "unreserved c \<Longrightarrow> c \<noteq> CHR ''%'' \<and> c \<noteq> CHR ''+'' \<and> c \<noteq> CHR ''&'' \<and> c \<noteq> CHR ''='' \<and> c \<noteq> CHR '';''"
  by (auto simp: unreserved_def Let_def)

lemma QueryUnescape_escape_byte:
  "QueryUnescape (escape_byte c @ s) = map_option ((#) c) (QueryUnescape s)"
proof -
  have "unhex (upper_hex (of_char c div 16)) = Some (of_char c div 16)"
    by (rule unhex_upper_hex) (rule high_nibble)
  moreover have "unhex (upper_hex (of_char c mod 16)) = Some (of_char c mod 16)" by (rule unhex_upper_hex) simp
  ultimately show ?thesis using escape_byte_plain [of c] by (simp add: escape_byte_def)
qed

lemma QueryUnescape_QueryEscape: "QueryUnescape (QueryEscape s) = Some s"
  by (induction s) (simp_all add: QueryEscape_def QueryUnescape_escape_byte)

lemma upper_hex_plain:
  assumes "d < 16"
  shows "upper_hex d \<noteq> CHR ''&'' \<and> upper_hex d \<noteq> CHR ''='' \<and> upper_hex d \<noteq> CHR '';''"
proof -
  have "(of_char (upper_hex d) :: nat) \<notin> {38, 59, 61}" using assms by (auto simp: of_upper_hex)
  then show ?thesis by auto
qed

lemma escape_byte_no_separator: "x \<in> set (escape_byte c) \<Longrightarrow> x \<noteq> CHR ''&'' \<and> x \<noteq> CHR ''='' \<and> x \<noteq> CHR '';''"
  using escape_byte_plain [of c] upper_hex_plain [OF high_nibble [of c]] upper_hex_plain [of "of_char c mod 16"]
  by (auto simp: escape_byte_def split: if_splits)

lemma QueryEscape_no_separator:
  "CHR ''&'' \<notin> set (QueryEscape s)" "CHR ''='' \<notin> set (QueryEscape s)" "CHR '';'' \<notin> set (QueryEscape s)"
  using escape_byte_no_separator by (fastforce simp: QueryEscape_def)+

subsection \<open>Encoding is undone by parsing\<close>

lemma split_char_plain: "sep \<notin> set s \<Longrightarrow> split_char sep s = [s]"
  by (induction s) auto

lemma split_char_append: "sep \<notin> set a \<Longrightarrow> split_char sep (a @ sep # b) = a # split_char sep b"
  by (induction a) auto

lemma split_join:
  "xs \<noteq> [] \<Longrightarrow> list_all (\<lambda>s. CHR ''&'' \<notin> set s) xs \<Longrightarrow> split_char (CHR ''&'') (join_str ''&'' xs) = xs"
  by (induction "''&''" xs rule: join_str.induct) (simp_all add: split_char_plain split_char_append)

lemma parse_setting_pair:
  "parse_settings (encode_pair kv # ss) = (case parse_settings ss of (m, ok) \<Rightarrow> (kv # m, ok))"
proof -
  have "cut_char (CHR ''='') (encode_pair kv) = Some (QueryEscape (fst kv), QueryEscape (snd kv))"
    by (simp add: cut_char_Some encode_pair_def QueryEscape_no_separator)
  moreover have "CHR '';'' \<notin> set (encode_pair kv)" "encode_pair kv \<noteq> []"
    by (simp_all add: encode_pair_def QueryEscape_no_separator)
  ultimately show ?thesis by (cases kv) (simp add: QueryUnescape_QueryEscape split: prod.split)
qed

lemma parse_settings_pairs: "parse_settings (map encode_pair ps) = (ps, True)"
  by (induction ps) (simp_all add: parse_setting_pair del: parse_settings.simps(2))

lemma ParseQuery_encode_pairs: "length ps \<le> max_query_params \<Longrightarrow> ParseQuery (encode_pairs ps) = (ps, True)"
proof (cases "ps = []")
  case True
  then show ?thesis by (simp add: encode_pairs_def ParseQuery_def max_query_params_def)
next
  case False
  assume "length ps \<le> max_query_params"
  moreover have "split_char (CHR ''&'') (encode_pairs ps) = map encode_pair ps"
    unfolding encode_pairs_def using False
    by (intro split_join) (simp_all add: list_all_iff encode_pair_def QueryEscape_no_separator)
  ultimately show ?thesis by (simp add: ParseQuery_def parse_settings_pairs)
qed

subsection \<open>Values survive the map\<close>

definition values_get :: "string list gomap \<Rightarrow> string \<Rightarrow> string list" where
  "values_get m k = (case map_of m k of Some vs \<Rightarrow> vs | None \<Rightarrow> [])"

lemma values_get_put: "values_get (map_put k vs m) k' = (if k' = k then vs else values_get m k')"
  by (simp add: values_get_def map_of_map_put)

lemma values_get_add: "values_get (add_value k v m) k' = (if k' = k then v # values_get m k else values_get m k')"
  by (induction m) (auto simp: values_get_def)

lemma keys_add_value: "keys_of (add_value k v m) = (if k \<in> set (keys_of m) then keys_of m else keys_of m @ [k])"
  by (induction m) (auto simp del: set_map simp: list.set_map [symmetric])

lemma distinct_values_of: "distinct (keys_of (values_of ps))"
  unfolding values_of_def
  by (induction ps) (simp_all add: keys_add_value split_def del: set_map distinct_map)

lemma values_get_of: "values_get (values_of ps) k = map snd (filter (\<lambda>p. fst p = k) ps)"
  unfolding values_of_def
  by (induction ps) (auto simp: values_get_add, simp add: values_get_def)

text \<open>The values of a name, and its first one, as read back from the pairs an encoded map is made of.\<close>

lemma filter_Pair: "filter (\<lambda>p. fst p = k) (map (Pair k') vs) = (if k' = k then map (Pair k') vs else [])"
  by (induction vs) auto

lemma filter_concat_keys:
  "distinct ks \<Longrightarrow> filter (\<lambda>p. fst p = k) (concat (map (\<lambda>k. map (Pair k) (g k)) ks)) = (if k \<in> set ks then map (Pair k) (g k) else [])"
  by (induction ks) (auto simp: filter_Pair)

lemma value_pairs_get:
  "distinct (keys_of m) \<Longrightarrow> map snd (filter (\<lambda>p. fst p = k) (value_pairs m)) = values_get m k"
proof -
  assume "distinct (keys_of m)"
  then have "filter (\<lambda>p. fst p = k) (value_pairs m) = (if k \<in> set (keys_of m) then map (Pair k) (values_get m k) else [])"
    unfolding value_pairs_def values_get_def by (subst filter_concat_keys) simp_all
  moreover have "values_get m k = []" if "k \<notin> set (keys_of m)"
    using that by (simp add: values_get_def map_of_eq_None_iff [THEN iffD2])
  ultimately show ?thesis by (simp add: comp_def)
qed

lemma map_of_first: "map_of ps k = (case map snd (filter (\<lambda>p. fst p = k) ps) of [] \<Rightarrow> None | v # _ \<Rightarrow> Some v)"
  by (induction ps) auto

definition value_count :: "string list gomap \<Rightarrow> nat" where
  "value_count m = sum_list (map (\<lambda>p. length (snd p)) m)"

lemma value_count_add: "value_count (add_value k v m) = Suc (value_count m)"
  by (induction m) (auto simp: value_count_def)

lemma value_count_of: "value_count (values_of ps) = length ps"
  unfolding values_of_def by (induction ps) (auto simp: value_count_add, simp add: value_count_def)

lemma value_count_put: "value_count (map_put k [v] m) \<le> Suc (value_count m)"
proof -
  have "value_count (map_del k m) \<le> value_count m"
    by (induction m) (auto simp: map_del_def value_count_def)
  then show ?thesis by (simp add: map_put_def value_count_def)
qed

lemma length_value_pairs: "distinct (keys_of m) \<Longrightarrow> length (value_pairs m) = value_count m"
proof -
  assume d: "distinct (keys_of m)"
  let ?n = "\<lambda>k. length (values_get m k)"
  have "length (value_pairs m) = sum_list (map ?n (sort (keys_of m)))"
    by (simp add: value_pairs_def values_get_def length_concat comp_def)
  also have "\<dots> = sum_mset (image_mset ?n (mset (keys_of m)))"
    by (metis mset_map mset_sort sum_mset_sum_list)
  also have "\<dots> = sum_list (map ?n (keys_of m))" by (metis mset_map sum_mset_sum_list)
  also have "map ?n (keys_of m) = map (\<lambda>p. length (snd p)) m"
    using d by (auto simp: values_get_def)
  finally show ?thesis by (simp add: value_count_def)
qed

end
