(* ===== verification/Html.thy ===== *)
theory Html
  imports Go_Prelude
begin

section \<open>HTML templates and what a browser reads of a page\<close>

text \<open>
  The part of \<^verbatim>\<open>html/template\<close> that the consent page of \<^verbatim>\<open>internal/oauth/consent.go\<close> uses, and, as the specification its
  escaping is measured against, the reader of the page: the tokens of the markup with double-quoted, single-quoted and
  unquoted attribute values, and the character references the escapers write. As \<^verbatim>\<open>html/template\<close> does, the state of
  the same reader at the place of an action chooses the action's escaper. Actions inside script, style, title and
  textarea elements, comments, and the contexts of CSS, scripts and source sets have no escaper here; the page has none.
\<close>

subsection \<open>Reading markup\<close>

text \<open>Accumulated names and values are reversed. A quoted value remembers its quote and its attribute's name.\<close>

datatype hstate =
    InText
  | TagName string
  | InTag
  | AttrName string
  | AfterEq string
  | Quoted char string string
  | Unquoted string string

datatype token = TChar char | TOpen string | TAttr string | TVal string | TClose

definition blank :: "char \<Rightarrow> bool" where
  "blank c \<longleftrightarrow> c \<in> {CHR '' '', CHR 0x09, CHR 0x0A, CHR 0x0C, CHR 0x0D}"

fun hstep :: "hstate \<Rightarrow> char \<Rightarrow> token list \<times> hstate" where
  "hstep InText c = (if c = CHR ''<'' then ([], TagName []) else ([TChar c], InText))"
| "hstep (TagName a) c =
     (if blank c then ([TOpen (rev a)], InTag)
      else if c = CHR ''>'' then ([TOpen (rev a), TClose], InText) else ([], TagName (c # a)))"
| "hstep InTag c = (if blank c then ([], InTag) else if c = CHR ''>'' then ([TClose], InText) else ([], AttrName [c]))"
| "hstep (AttrName a) c =
     (if c = CHR ''='' then ([TAttr (rev a)], AfterEq (rev a))
      else if blank c then ([TAttr (rev a)], InTag)
      else if c = CHR ''>'' then ([TAttr (rev a), TClose], InText) else ([], AttrName (c # a)))"
| "hstep (AfterEq n) c =
     (if c = CHR 0x22 \<or> c = CHR 0x27 then ([], Quoted c n [])
      else if blank c then ([], AfterEq n)
      else if c = CHR ''>'' then ([TVal [], TClose], InText) else ([], Unquoted n [c]))"
| "hstep (Quoted q n a) c = (if c = q then ([TVal (rev a)], InTag) else ([], Quoted q n (c # a)))"
| "hstep (Unquoted n a) c =
     (if blank c then ([TVal (rev a)], InTag)
      else if c = CHR ''>'' then ([TVal (rev a), TClose], InText) else ([], Unquoted n (c # a)))"

fun scan :: "hstate \<Rightarrow> string \<Rightarrow> token list \<times> hstate" where
  "scan st [] = ([], st)"
| "scan st (c # cs) =
     (case hstep st c of (ts, st') \<Rightarrow> (case scan st' cs of (ts', st'') \<Rightarrow> (ts @ ts', st'')))"

definition tokens :: "string \<Rightarrow> token list" where
  "tokens s = fst (scan InText s)"

text \<open>The markup without the text between tags, and with attribute values left out: what a page is made of.\<close>

fun is_text :: "token \<Rightarrow> bool" where
  "is_text (TChar c) = True"
| "is_text _ = False"

definition markup :: "token list \<Rightarrow> token list" where
  "markup ts = filter (\<lambda>t. \<not> is_text t) ts"

text \<open>The tags with their attributes. An attribute without a value has the empty one.\<close>

fun attributes :: "token list \<Rightarrow> (string \<times> string) list" where
  "attributes (TAttr n # TVal v # ts) = (n, v) # attributes ts"
| "attributes (TAttr n # ts) = (n, []) # attributes ts"
| "attributes _ = []"

fun tags :: "token list \<Rightarrow> (string \<times> (string \<times> string) list) list" where
  "tags [] = []"
| "tags (TOpen n # ts) = (n, attributes ts) # tags ts"
| "tags (_ # ts) = tags ts"

subsection \<open>Character references\<close>

definition references :: "(string \<times> char) list" where
  "references =
     [(''&#34;'', CHR 0x22), (''&amp;'', CHR ''&''), (''&#39;'', CHR 0x27), (''&#43;'', CHR ''+''), (''&lt;'', CHR ''<''),
      (''&gt;'', CHR ''>'')]"

fun reference_at :: "(string \<times> char) list \<Rightarrow> string \<Rightarrow> (char \<times> string) option" where
  "reference_at [] s = None"
| "reference_at ((r, c) # rs) s = (case cut_prefix r s of Some rest \<Rightarrow> Some (c, rest) | None \<Rightarrow> reference_at rs s)"

lemma reference_at_shorter:
  "reference_at rs s = Some (c, rest) \<Longrightarrow> [] \<notin> fst ` set rs \<Longrightarrow> length rest < length s"
  by (induction rs s rule: reference_at.induct) (auto split: option.splits simp: cut_prefix_Some)

lemma reference_shorter: "reference_at references s = Some (c, rest) \<Longrightarrow> length rest < length s"
  by (erule reference_at_shorter) (auto simp: references_def)

function html_unescape :: "string \<Rightarrow> string" where
  "html_unescape [] = []"
| "html_unescape (c # cs) =
     (case reference_at references (c # cs) of
        Some (d, rest) \<Rightarrow> d # html_unescape rest
      | None \<Rightarrow> c # html_unescape cs)"
  by pat_completeness auto
termination
  by (relation "measure length") (auto dest!: reference_shorter)

declare html_unescape.simps(2) [simp del]

subsection \<open>Escapers\<close>

text \<open>The replacement table of \<^verbatim>\<open>html/template\<close>, which text and quoted attribute values share.\<close>

definition escape_char :: "char \<Rightarrow> string" where
  "escape_char c =
     (if c = CHR 0x00 then [CHR 0xEF, CHR 0xBF, CHR 0xBD]
      else if c = CHR 0x22 then ''&#34;''
      else if c = CHR ''&'' then ''&amp;''
      else if c = CHR 0x27 then ''&#39;''
      else if c = CHR ''+'' then ''&#43;''
      else if c = CHR ''<'' then ''&lt;''
      else if c = CHR ''>'' then ''&gt;''
      else [c])"

definition html_escape :: "string \<Rightarrow> string" where
  "html_escape s = concat (map escape_char s)"

text \<open>URLs: other schemes than http, https and mailto are replaced, and bytes outside the URL characters are encoded.\<close>

definition url_filter :: "string \<Rightarrow> string" where
  "url_filter s =
     (case cut_char (CHR '':'') s of
        None \<Rightarrow> s
      | Some (protocol, _) \<Rightarrow>
          if CHR ''/'' \<in> set protocol \<or> map lower_char protocol \<in> {''http'', ''https'', ''mailto''} then s
          else ''#ZgotmplZ'')"

definition url_char :: "char \<Rightarrow> bool" where
  "url_char c \<longleftrightarrow>
     (let n = (of_char c :: nat)
      in 48 \<le> n \<and> n \<le> 57 \<or> 65 \<le> n \<and> n \<le> 90 \<or> 97 \<le> n \<and> n \<le> 122 \<or> c \<in> set ''!#$&*+,/:;=?@[]-._~'')"

definition hex_char :: "char \<Rightarrow> bool" where
  "hex_char c \<longleftrightarrow>
     (let n = (of_char c :: nat) in 48 \<le> n \<and> n \<le> 57 \<or> 65 \<le> n \<and> n \<le> 70 \<or> 97 \<le> n \<and> n \<le> 102)"

fun url_normalize :: "string \<Rightarrow> string" where
  "url_normalize [] = []"
| "url_normalize (c # cs) =
     (if url_char c \<or> c = CHR ''%'' \<and> 2 \<le> length cs \<and> list_all hex_char (take 2 cs) then [c]
      else [CHR ''%'', hex_digit (of_char c div 16), hex_digit (of_char c mod 16)]) @ url_normalize cs"

datatype escaper = Escape_Text | Escape_Attr | Escape_URL

fun apply_escaper :: "escaper \<Rightarrow> string \<Rightarrow> string" where
  "apply_escaper Escape_Text s = html_escape s"
| "apply_escaper Escape_Attr s = html_escape s"
| "apply_escaper Escape_URL s = html_escape (url_normalize (url_filter s))"

definition url_attributes :: "string list" where
  "url_attributes =
     [''action'', ''archive'', ''background'', ''cite'', ''classid'', ''codebase'', ''data'', ''formaction'', ''href'', ''icon'',
      ''longdesc'', ''manifest'', ''poster'', ''profile'', ''src'', ''usemap'', ''xmlns'']"

fun escaper_at :: "hstate \<Rightarrow> escaper option" where
  "escaper_at InText = Some Escape_Text"
| "escaper_at (Quoted q n a) =
     (if n \<in> set url_attributes then (if a = [] then Some Escape_URL else None)
      else if n \<in> {''style'', ''srcset''} \<or> has_prefix ''on'' n \<or> has_prefix ''data-'' n \<or> CHR '':'' \<in> set n then None
      else Some Escape_Attr)"
| "escaper_at _ = None"

subsection \<open>Templates\<close>

text \<open>Literal text, \<^verbatim>\<open>{{.Field}}\<close>, and \<^verbatim>\<open>{{if .Field}}...{{end}}\<close>, before and after the escapers are chosen.\<close>

datatype 'v node = Lit string | Put "'v \<Rightarrow> string" | IfSet "'v \<Rightarrow> string" "'v node list"

datatype 'v enode = ELit string | EPut escaper "'v \<Rightarrow> string" | EIf "'v \<Rightarrow> string" "'v enode list"

text \<open>
  The escaping pass: an action in a context without an escaper, or a branch that ends in another context than it
  begins in, is the error for which \<^verbatim>\<open>Execute\<close> refuses the template.
\<close>

fun escape_nodes :: "hstate \<Rightarrow> 'v node list \<Rightarrow> ('v enode list \<times> hstate) option" where
  "escape_nodes st [] = Some ([], st)"
| "escape_nodes st (Lit s # ns) =
     (case escape_nodes (snd (scan st s)) ns of None \<Rightarrow> None | Some (es, st') \<Rightarrow> Some (ELit s # es, st'))"
| "escape_nodes st (Put f # ns) =
     (case escaper_at st of
        None \<Rightarrow> None
      | Some e \<Rightarrow> (case escape_nodes st ns of None \<Rightarrow> None | Some (es, st') \<Rightarrow> Some (EPut e f # es, st')))"
| "escape_nodes st (IfSet f bs # ns) =
     (case escape_nodes st bs of
        None \<Rightarrow> None
      | Some (ebs, st') \<Rightarrow>
          if st' \<noteq> st then None
          else (case escape_nodes st ns of None \<Rightarrow> None | Some (es, st'') \<Rightarrow> Some (EIf f ebs # es, st'')))"

fun execute :: "'v \<Rightarrow> 'v enode list \<Rightarrow> string" where
  "execute v [] = []"
| "execute v (ELit s # es) = s @ execute v es"
| "execute v (EPut e f # es) = apply_escaper e (f v) @ execute v es"
| "execute v (EIf f bs # es) = (if f v = [] then [] else execute v bs) @ execute v es"

subsection \<open>Lemmas on reading\<close>

lemma scan_append: "scan st (a @ b) = (case scan st a of (ts, st') \<Rightarrow> (case scan st' b of (us, st'') \<Rightarrow> (ts @ us, st'')))"
  by (induction a arbitrary: st) (auto split: prod.split)

lemma scan_text: "CHR ''<'' \<notin> set s \<Longrightarrow> scan InText s = (map TChar s, InText)"
  by (induction s) auto

lemma scan_value: "q \<notin> set s \<Longrightarrow> scan (Quoted q n a) s = ([], Quoted q n (rev s @ a))"
  by (induction s arbitrary: a) auto

lemma markup_append [simp]: "markup (a @ b) = markup a @ markup b"
  by (simp add: markup_def)

lemma markup_text [simp]: "markup (map TChar s) = []"
  by (induction s) (simp_all add: markup_def)

subsection \<open>Escaped text is inert and reads back\<close>

lemma escape_char_plain: "x \<in> set (escape_char c) \<Longrightarrow> x \<notin> {CHR 0x00, CHR 0x22, CHR 0x27, CHR ''+'', CHR ''<'', CHR ''>''}"
  by (auto simp: escape_char_def split: if_splits)

lemma html_escape_plain: "x \<in> {CHR 0x00, CHR 0x22, CHR 0x27, CHR ''+'', CHR ''<'', CHR ''>''} \<Longrightarrow> x \<notin> set (html_escape s)"
  using escape_char_plain by (fastforce simp: html_escape_def)

lemma scan_escaped_text: "scan InText (html_escape s) = (map TChar (html_escape s), InText)"
  by (rule scan_text) (simp add: html_escape_plain)

lemma scan_escaped_value: "scan (Quoted (CHR 0x22) n []) (html_escape s) = ([], Quoted (CHR 0x22) n (rev (html_escape s)))"
  by (simp add: scan_value html_escape_plain)

text \<open>A NUL byte cannot be written in a page; it is replaced by U+FFFD.\<close>

definition nul_replaced :: "string \<Rightarrow> string" where
  "nul_replaced s = concat (map (\<lambda>c. if c = CHR 0x00 then [CHR 0xEF, CHR 0xBF, CHR 0xBD] else [c]) s)"

lemma nul_replaced_id [simp]: "CHR 0x00 \<notin> set s \<Longrightarrow> nul_replaced s = s"
  by (induction s) (auto simp: nul_replaced_def)

lemma reference_at_other: "c \<noteq> CHR ''&'' \<Longrightarrow> reference_at references (c # s) = None"
  by (simp add: references_def)

lemma html_unescape_plain: "c \<noteq> CHR ''&'' \<Longrightarrow> html_unescape (c # s) = c # html_unescape s"
  by (simp add: html_unescape.simps reference_at_other)

lemma html_unescape_reference: "(r, c) \<in> set references \<Longrightarrow> html_unescape (r @ s) = c # html_unescape s"
  by (auto simp: references_def html_unescape.simps)

lemma html_unescape_escape_char: "html_unescape (escape_char c @ s) = nul_replaced [c] @ html_unescape s"
  using html_unescape_reference [of _ _ s]
  by (auto simp: escape_char_def nul_replaced_def html_unescape_plain html_unescape.simps references_def)

lemma html_unescape_escape: "html_unescape (html_escape s) = nul_replaced s"
  by (induction s) (simp_all add: html_escape_def html_unescape_escape_char nul_replaced_def)

end
