(* ===== verification/Consent.thy ===== *)
theory Consent
  imports OAuth_Server Url_Query Html
begin

section \<open>The consent page and the redirect back\<close>

text \<open>
  \<^verbatim>\<open>internal/oauth/consent.go\<close> and the end of \<^verbatim>\<open>handleAuthorizePost\<close>: the page on which a person types an API key, and the
  query that carries the code back to the client. The page is the template of the source, escaped and executed as
  \<^verbatim>\<open>html/template\<close> does; everything a client or a person chose enters it through an escaper. What a browser makes of the
  page is the reader of theory \<open>Html\<close>, what it posts is read back by theory \<open>Url_Query\<close>.
\<close>

subsection \<open>The template\<close>

record consent_view =
  cv_Action :: string
  cv_ResponseType :: string
  cv_ClientID :: string
  cv_ClientName :: string
  cv_RedirectURI :: string
  cv_State :: string
  cv_CodeChallenge :: string
  cv_CodeChallengeMethod :: string
  cv_Username :: string
  cv_Error :: string

definition nl :: string where
  "nl = [CHR 0x0A]"

text \<open>The literal pieces, in the order of the source.\<close>

definition page_head :: string where
  "page_head =
     ''<!doctype html>'' @ nl @
     ''<html>'' @ nl @
     ''<head>'' @ nl @
     ''<meta charset=\"utf-8\">'' @ nl @
     ''<title>Connect to truenas-mcp</title>'' @ nl @
     ''<style>'' @ nl @
     ''body { font-family: system-ui, sans-serif; max-width: 32rem; margin: 3rem auto; padding: 0 1rem; color: #1a1a1a; }'' @ nl @
     ''p.client { color: #555; }'' @ nl @
     ''.destination { background: #f4f4f4; border-radius: 0.25rem; padding: 0.75rem 1rem; margin-top: 1rem; word-break: break-all; }'' @ nl @
     ''.destination code { font-size: 0.95rem; }'' @ nl @
     ''label { display: block; margin-top: 1rem; font-weight: bold; }'' @ nl @
     ''input { width: 100%; padding: 0.5rem; margin-top: 0.25rem; box-sizing: border-box; font-size: 1rem; }'' @ nl @
     ''button { margin-top: 1.5rem; padding: 0.6rem 1.2rem; font-size: 1rem; }'' @ nl @
     ''.error { color: #b00020; margin-top: 1rem; }'' @ nl @
     ''</style>'' @ nl @
     ''</head>'' @ nl @
     ''<body>'' @ nl @
     ''<h1>Connect to truenas-mcp</h1>'' @ nl @
     ''<p class=\"client\">''"

definition page_request :: string where
  "page_request =
     '' is requesting access to a TrueNAS instance through your own credential. Nothing is granted until you submit a TrueNAS API key below.</p>'' @ nl @
     ''<p class=\"destination\">Access will be delivered to:<br><code>''"

definition page_warning :: string where
  "page_warning =
     ''</code></p>'' @ nl @
     ''<p class=\"client\">Only continue if you recognize this application and destination. Anyone can register a client with any name -- the destination above is the only thing this page can verify.</p>'' @ nl"

definition error_open :: string where
  "error_open =
     ''<p class=\"error\">''"

definition error_close :: string where
  "error_close =
     ''</p>''"

definition form_open :: string where
  "form_open =
     nl @
     ''<form method=\"post\" action=\"''"

definition input_response_type :: string where
  "input_response_type =
     ''\">'' @ nl @
     ''<input type=\"hidden\" name=\"response_type\" value=\"''"

definition input_client_id :: string where
  "input_client_id =
     ''\">'' @ nl @
     ''<input type=\"hidden\" name=\"client_id\" value=\"''"

definition input_redirect_uri :: string where
  "input_redirect_uri =
     ''\">'' @ nl @
     ''<input type=\"hidden\" name=\"redirect_uri\" value=\"''"

definition input_state :: string where
  "input_state =
     ''\">'' @ nl @
     ''<input type=\"hidden\" name=\"state\" value=\"''"

definition input_code_challenge :: string where
  "input_code_challenge =
     ''\">'' @ nl @
     ''<input type=\"hidden\" name=\"code_challenge\" value=\"''"

definition input_code_challenge_method :: string where
  "input_code_challenge_method =
     ''\">'' @ nl @
     ''<input type=\"hidden\" name=\"code_challenge_method\" value=\"''"

definition input_username :: string where
  "input_username =
     ''\">'' @ nl @
     ''<label for=\"username\">TrueNAS username (optional, shown only to you)</label>'' @ nl @
     ''<input type=\"text\" id=\"username\" name=\"username\" autocomplete=\"off\" value=\"''"

definition page_foot :: string where
  "page_foot =
     ''\">'' @ nl @
     ''<label for=\"api_key\">TrueNAS API key</label>'' @ nl @
     ''<input type=\"password\" id=\"api_key\" name=\"api_key\" autocomplete=\"off\" required>'' @ nl @
     ''<button type=\"submit\">Authorize</button>'' @ nl @
     ''</form>'' @ nl @
     ''</body>'' @ nl @
     ''</html>'' @ nl"

definition consentTemplate :: "consent_view node list" where
  "consentTemplate =
    [Lit page_head, Put cv_ClientName, Lit page_request, Put cv_RedirectURI, Lit page_warning,
     IfSet cv_Error [Lit error_open, Put cv_Error, Lit error_close], Lit form_open, Put cv_Action,
     Lit input_response_type, Put cv_ResponseType, Lit input_client_id, Put cv_ClientID,
     Lit input_redirect_uri, Put cv_RedirectURI, Lit input_state, Put cv_State, Lit input_code_challenge,
     Put cv_CodeChallenge, Lit input_code_challenge_method, Put cv_CodeChallengeMethod, Lit input_username,
     Put cv_Username, Lit page_foot]"

text \<open>The template as \<^verbatim>\<open>Execute\<close> runs it; \<open>consent_escaped\<close> below shows that the escaping pass accepts it.\<close>

definition consent_page :: "consent_view \<Rightarrow> string" where
  "consent_page v = (case escape_nodes InText consentTemplate of Some (es, _) \<Rightarrow> execute v es | None \<Rightarrow> [])"

definition consent_view_of :: "authorize_request \<Rightarrow> string \<Rightarrow> string \<Rightarrow> consent_view" where
  "consent_view_of req username errMsg =
     \<lparr>cv_Action = AuthorizePath, cv_ResponseType = ar_response_type req, cv_ClientID = ar_client_id req,
      cv_ClientName = (if cm_client_name (ar_client_meta req) = [] then ''This application''
                       else cm_client_name (ar_client_meta req)),
      cv_RedirectURI = ar_redirect_uri req, cv_State = ar_state req, cv_CodeChallenge = ar_code_challenge req,
      cv_CodeChallengeMethod = ar_code_challenge_method req, cv_Username = username, cv_Error = errMsg\<rparr>"

text \<open>Content type and body of the answer.\<close>

definition renderConsentForm :: "authorize_request \<Rightarrow> string \<Rightarrow> string \<Rightarrow> string \<times> string" where
  "renderConsentForm req username errMsg =
     (''text/html; charset=utf-8'', consent_page (consent_view_of req username errMsg))"


subsection \<open>What a browser posts\<close>

text \<open>The named inputs of a page with their types and values, and where its form is posted.\<close>

definition attr :: "string \<Rightarrow> (string \<times> string) list \<Rightarrow> string" where
  "attr n attrs = (case map_of attrs n of Some v \<Rightarrow> html_unescape v | None \<Rightarrow> [])"

definition controls :: "string \<Rightarrow> (string \<times> string \<times> string) list" where
  "controls page =
     map (\<lambda>(_, attrs). (attr ''name'' attrs, attr ''type'' attrs, attr ''value'' attrs))
       (filter (\<lambda>(tag, attrs). tag = ''input'' \<and> map_of attrs ''name'' \<noteq> None) (tags (markup (tokens page))))"

definition form_actions :: "string \<Rightarrow> (string \<times> string) list" where
  "form_actions page =
     map (\<lambda>(_, attrs). (attr ''method'' attrs, attr ''action'' attrs))
       (filter (\<lambda>(tag, attrs). tag = ''form'') (tags (markup (tokens page))))"

text \<open>The form as posted: hidden inputs as they are, the others as the person leaves or fills them.\<close>

definition submit :: "(string \<rightharpoonup> string) \<Rightarrow> string \<Rightarrow> form" where
  "submit typed page =
     map (\<lambda>(n, t, v). (n, if t = ''hidden'' then v else case typed n of Some s \<Rightarrow> s | None \<Rightarrow> v)) (controls page)"

text \<open>The text the page shows as the destination, its only \<^verbatim>\<open>code\<close> element.\<close>

fun leading_text :: "token list \<Rightarrow> string" where
  "leading_text (TChar c # ts) = c # leading_text ts"
| "leading_text _ = []"

fun code_text :: "token list \<Rightarrow> string option" where
  "code_text (TOpen n # TClose # ts) =
     (if n = ''code'' then Some (html_unescape (leading_text ts)) else code_text ts)"
| "code_text (t # ts) = code_text ts"
| "code_text [] = None"

definition destination_shown :: "string \<Rightarrow> string option" where
  "destination_shown page = code_text (tokens page)"

subsection \<open>Reading the pieces\<close>

definition read_markup :: "hstate \<Rightarrow> string \<Rightarrow> token list \<times> hstate" where
  "read_markup st s = (markup (fst (scan st s)), snd (scan st s))"

lemma read_markup_append:
  "fst (read_markup st (a @ b)) = fst (read_markup st a) @ fst (read_markup (snd (read_markup st a)) b)"
  "snd (read_markup st (a @ b)) = snd (read_markup (snd (read_markup st a)) b)"
  by (simp_all add: read_markup_def scan_append split: prod.split)

lemma read_markup_Nil: "read_markup st [] = ([], st)"
  by (simp add: read_markup_def markup_def)

lemma read_escaped:
  "read_markup InText (html_escape s) = ([], InText)"
  "read_markup (Quoted (CHR 0x22) n []) (html_escape s) = ([], Quoted (CHR 0x22) n (rev (html_escape s)))"
  by (simp_all add: read_markup_def scan_escaped_text scan_escaped_value markup_def)

lemma read_quote:
  assumes "s = CHR 0x22 # r"
  shows "read_markup (Quoted (CHR 0x22) n a) s = (TVal (rev a) # fst (read_markup InTag r), snd (read_markup InTag r))"
  using assms by (simp add: read_markup_def markup_def split: prod.split)

lemma page_head_read:
  "read_markup InText page_head =
     ([TOpen ''!doctype'', TAttr ''html'', TClose, TOpen ''html'', TClose, TOpen ''head'', TClose, TOpen ''meta'',
      TAttr ''charset'', TVal ''utf-8'', TClose, TOpen ''title'', TClose, TOpen ''/title'', TClose, TOpen ''style'', TClose,
      TOpen ''/style'', TClose, TOpen ''/head'', TClose, TOpen ''body'', TClose, TOpen ''h1'', TClose, TOpen ''/h1'', TClose,
      TOpen ''p'', TAttr ''class'', TVal ''client'', TClose], InText)"
  by code_simp

lemma page_request_read:
  "read_markup InText page_request =
     ([TOpen ''/p'', TClose, TOpen ''p'', TAttr ''class'', TVal ''destination'', TClose, TOpen ''br'', TClose,
      TOpen ''code'', TClose], InText)"
  by code_simp

lemma page_warning_read:
  "read_markup InText page_warning =
     ([TOpen ''/code'', TClose, TOpen ''/p'', TClose, TOpen ''p'', TAttr ''class'', TVal ''client'', TClose, TOpen ''/p'', TClose], InText)"
  by code_simp

lemma error_open_read:
  "read_markup InText error_open =
     ([TOpen ''p'', TAttr ''class'', TVal ''error'', TClose], InText)"
  by code_simp

lemma error_close_read:
  "read_markup InText error_close =
     ([TOpen ''/p'', TClose], InText)"
  by code_simp

lemma form_open_read:
  "read_markup InText form_open =
     ([TOpen ''form'', TAttr ''method'', TVal ''post'', TAttr ''action''], Quoted (CHR 0x22) ''action'' [])"
  by code_simp

lemma input_response_type_read:
  "read_markup (Quoted (CHR 0x22) n a) input_response_type =
     (TVal (rev a) # [TClose, TOpen ''input'', TAttr ''type'', TVal ''hidden'', TAttr ''name'', TVal ''response_type'', TAttr ''value''], Quoted (CHR 0x22) ''value'' [])"
proof -
  have "read_markup InTag (tl input_response_type) =
     ([TClose, TOpen ''input'', TAttr ''type'', TVal ''hidden'', TAttr ''name'', TVal ''response_type'', TAttr ''value''], Quoted (CHR 0x22) ''value'' [])"
    by code_simp
  with read_quote [of input_response_type "tl input_response_type"] show ?thesis by (simp add: input_response_type_def)
qed

lemma input_client_id_read:
  "read_markup (Quoted (CHR 0x22) n a) input_client_id =
     (TVal (rev a) # [TClose, TOpen ''input'', TAttr ''type'', TVal ''hidden'', TAttr ''name'', TVal ''client_id'', TAttr ''value''], Quoted (CHR 0x22) ''value'' [])"
proof -
  have "read_markup InTag (tl input_client_id) =
     ([TClose, TOpen ''input'', TAttr ''type'', TVal ''hidden'', TAttr ''name'', TVal ''client_id'', TAttr ''value''], Quoted (CHR 0x22) ''value'' [])"
    by code_simp
  with read_quote [of input_client_id "tl input_client_id"] show ?thesis by (simp add: input_client_id_def)
qed

lemma input_redirect_uri_read:
  "read_markup (Quoted (CHR 0x22) n a) input_redirect_uri =
     (TVal (rev a) # [TClose, TOpen ''input'', TAttr ''type'', TVal ''hidden'', TAttr ''name'', TVal ''redirect_uri'', TAttr ''value''], Quoted (CHR 0x22) ''value'' [])"
proof -
  have "read_markup InTag (tl input_redirect_uri) =
     ([TClose, TOpen ''input'', TAttr ''type'', TVal ''hidden'', TAttr ''name'', TVal ''redirect_uri'', TAttr ''value''], Quoted (CHR 0x22) ''value'' [])"
    by code_simp
  with read_quote [of input_redirect_uri "tl input_redirect_uri"] show ?thesis by (simp add: input_redirect_uri_def)
qed

lemma input_state_read:
  "read_markup (Quoted (CHR 0x22) n a) input_state =
     (TVal (rev a) # [TClose, TOpen ''input'', TAttr ''type'', TVal ''hidden'', TAttr ''name'', TVal ''state'', TAttr ''value''], Quoted (CHR 0x22) ''value'' [])"
proof -
  have "read_markup InTag (tl input_state) =
     ([TClose, TOpen ''input'', TAttr ''type'', TVal ''hidden'', TAttr ''name'', TVal ''state'', TAttr ''value''], Quoted (CHR 0x22) ''value'' [])"
    by code_simp
  with read_quote [of input_state "tl input_state"] show ?thesis by (simp add: input_state_def)
qed

lemma input_code_challenge_read:
  "read_markup (Quoted (CHR 0x22) n a) input_code_challenge =
     (TVal (rev a) # [TClose, TOpen ''input'', TAttr ''type'', TVal ''hidden'', TAttr ''name'', TVal ''code_challenge'', TAttr ''value''], Quoted (CHR 0x22) ''value'' [])"
proof -
  have "read_markup InTag (tl input_code_challenge) =
     ([TClose, TOpen ''input'', TAttr ''type'', TVal ''hidden'', TAttr ''name'', TVal ''code_challenge'', TAttr ''value''], Quoted (CHR 0x22) ''value'' [])"
    by code_simp
  with read_quote [of input_code_challenge "tl input_code_challenge"] show ?thesis by (simp add: input_code_challenge_def)
qed

lemma input_code_challenge_method_read:
  "read_markup (Quoted (CHR 0x22) n a) input_code_challenge_method =
     (TVal (rev a) # [TClose, TOpen ''input'', TAttr ''type'', TVal ''hidden'', TAttr ''name'', TVal ''code_challenge_method'', TAttr ''value''], Quoted (CHR 0x22) ''value'' [])"
proof -
  have "read_markup InTag (tl input_code_challenge_method) =
     ([TClose, TOpen ''input'', TAttr ''type'', TVal ''hidden'', TAttr ''name'', TVal ''code_challenge_method'', TAttr ''value''], Quoted (CHR 0x22) ''value'' [])"
    by code_simp
  with read_quote [of input_code_challenge_method "tl input_code_challenge_method"] show ?thesis by (simp add: input_code_challenge_method_def)
qed

lemma input_username_read:
  "read_markup (Quoted (CHR 0x22) n a) input_username =
     (TVal (rev a) # [TClose, TOpen ''label'', TAttr ''for'', TVal ''username'', TClose, TOpen ''/label'', TClose, TOpen ''input'',
      TAttr ''type'', TVal ''text'', TAttr ''id'', TVal ''username'', TAttr ''name'', TVal ''username'', TAttr ''autocomplete'', TVal ''off'',
      TAttr ''value''], Quoted (CHR 0x22) ''value'' [])"
proof -
  have "read_markup InTag (tl input_username) =
     ([TClose, TOpen ''label'', TAttr ''for'', TVal ''username'', TClose, TOpen ''/label'', TClose, TOpen ''input'',
      TAttr ''type'', TVal ''text'', TAttr ''id'', TVal ''username'', TAttr ''name'', TVal ''username'', TAttr ''autocomplete'', TVal ''off'',
      TAttr ''value''], Quoted (CHR 0x22) ''value'' [])"
    by code_simp
  with read_quote [of input_username "tl input_username"] show ?thesis by (simp add: input_username_def)
qed

lemma page_foot_read:
  "read_markup (Quoted (CHR 0x22) n a) page_foot =
     (TVal (rev a) # [TClose, TOpen ''label'', TAttr ''for'', TVal ''api_key'', TClose, TOpen ''/label'', TClose, TOpen ''input'',
      TAttr ''type'', TVal ''password'', TAttr ''id'', TVal ''api_key'', TAttr ''name'', TVal ''api_key'', TAttr ''autocomplete'', TVal ''off'',
      TAttr ''required'', TClose, TOpen ''button'', TAttr ''type'', TVal ''submit'', TClose, TOpen ''/button'', TClose,
      TOpen ''/form'', TClose, TOpen ''/body'', TClose, TOpen ''/html'', TClose], InText)"
proof -
  have "read_markup InTag (tl page_foot) =
     ([TClose, TOpen ''label'', TAttr ''for'', TVal ''api_key'', TClose, TOpen ''/label'', TClose, TOpen ''input'',
      TAttr ''type'', TVal ''password'', TAttr ''id'', TVal ''api_key'', TAttr ''name'', TVal ''api_key'', TAttr ''autocomplete'', TVal ''off'',
      TAttr ''required'', TClose, TOpen ''button'', TAttr ''type'', TVal ''submit'', TClose, TOpen ''/button'', TClose,
      TOpen ''/form'', TClose, TOpen ''/body'', TClose, TOpen ''/html'', TClose], InText)"
    by code_simp
  with read_quote [of page_foot "tl page_foot"] show ?thesis by (simp add: page_foot_def)
qed

lemmas piece_reads =
  page_head_read page_request_read page_warning_read error_open_read error_close_read form_open_read input_response_type_read input_client_id_read
  input_redirect_uri_read input_state_read input_code_challenge_read input_code_challenge_method_read input_username_read page_foot_read

subsection \<open>The page\<close>

text \<open>The escaping pass puts the text escaper into elements, the URL escaper into the action, the rest are attributes.\<close>

definition consent_nodes :: "consent_view enode list" where
  "consent_nodes =
    [ELit page_head, EPut Escape_Text cv_ClientName, ELit page_request, EPut Escape_Text cv_RedirectURI,
     ELit page_warning, EIf cv_Error [ELit error_open, EPut Escape_Text cv_Error, ELit error_close],
     ELit form_open, EPut Escape_URL cv_Action,
     ELit input_response_type, EPut Escape_Attr cv_ResponseType, ELit input_client_id, EPut Escape_Attr cv_ClientID,
     ELit input_redirect_uri, EPut Escape_Attr cv_RedirectURI, ELit input_state, EPut Escape_Attr cv_State,
     ELit input_code_challenge, EPut Escape_Attr cv_CodeChallenge,
     ELit input_code_challenge_method, EPut Escape_Attr cv_CodeChallengeMethod,
     ELit input_username, EPut Escape_Attr cv_Username, ELit page_foot]"

lemma scan_read_markup: "snd (scan st s) = snd (read_markup st s)"
  by (simp add: read_markup_def)

lemma consent_escaped: "escape_nodes InText consentTemplate = Some (consent_nodes, InText)"
  by (simp add: consentTemplate_def consent_nodes_def scan_read_markup piece_reads url_attributes_def has_prefix_def)

lemma consent_page_eq: "consent_page v = execute v consent_nodes"
  by (simp add: consent_page_def consent_escaped)

text \<open>Its markup: everything but the attribute values below is fixed.\<close>

definition hidden_input :: "string \<Rightarrow> string \<Rightarrow> token list" where
  "hidden_input n v =
     [TOpen ''input'', TAttr ''type'', TVal ''hidden'', TAttr ''name'', TVal n, TAttr ''value'', TVal (html_escape v), TClose]"

definition consent_markup :: "consent_view \<Rightarrow> token list" where
  "consent_markup v =
     fst (read_markup InText page_head) @ fst (read_markup InText page_request) @ fst (read_markup InText page_warning) @
     (if cv_Error v = [] then [] else [TOpen ''p'', TAttr ''class'', TVal ''error'', TClose, TOpen ''/p'', TClose]) @
     [TOpen ''form'', TAttr ''method'', TVal ''post'', TAttr ''action'', TVal (apply_escaper Escape_URL (cv_Action v)), TClose] @
     hidden_input ''response_type'' (cv_ResponseType v) @ hidden_input ''client_id'' (cv_ClientID v) @
     hidden_input ''redirect_uri'' (cv_RedirectURI v) @ hidden_input ''state'' (cv_State v) @
     hidden_input ''code_challenge'' (cv_CodeChallenge v) @
     hidden_input ''code_challenge_method'' (cv_CodeChallengeMethod v) @
     [TOpen ''label'', TAttr ''for'', TVal ''username'', TClose, TOpen ''/label'', TClose,
      TOpen ''input'', TAttr ''type'', TVal ''text'', TAttr ''id'', TVal ''username'', TAttr ''name'', TVal ''username'',
      TAttr ''autocomplete'', TVal ''off'', TAttr ''value'', TVal (html_escape (cv_Username v)), TClose,
      TOpen ''label'', TAttr ''for'', TVal ''api_key'', TClose, TOpen ''/label'', TClose,
      TOpen ''input'', TAttr ''type'', TVal ''password'', TAttr ''id'', TVal ''api_key'', TAttr ''name'', TVal ''api_key'',
      TAttr ''autocomplete'', TVal ''off'', TAttr ''required'', TClose,
      TOpen ''button'', TAttr ''type'', TVal ''submit'', TClose, TOpen ''/button'', TClose,
      TOpen ''/form'', TClose, TOpen ''/body'', TClose, TOpen ''/html'', TClose]"

lemma markup_page: "markup (tokens (consent_page v)) = consent_markup v"
proof -
  have "fst (read_markup InText (consent_page v)) = consent_markup v"
    by (simp add: consent_page_eq consent_nodes_def consent_markup_def hidden_input_def read_markup_append
        read_markup_Nil piece_reads read_escaped)
  then show ?thesis by (simp add: read_markup_def tokens_def)
qed

lemma attr_Nil [simp]: "attr n [] = []"
  by (simp add: attr_def)

lemma attr_Cons [simp]: "attr n ((k, v) # attrs) = (if k = n then html_unescape v else attr n attrs)"
  by (auto simp: attr_def)

lemma html_unescape_id [simp]: "CHR ''&'' \<notin> set s \<Longrightarrow> html_unescape s = s"
  by (induction s) (auto simp: html_unescape_plain)

lemma page_controls:
  "controls (consent_page v) =
     [(''response_type'', ''hidden'', nul_replaced (cv_ResponseType v)), (''client_id'', ''hidden'', nul_replaced (cv_ClientID v)),
      (''redirect_uri'', ''hidden'', nul_replaced (cv_RedirectURI v)), (''state'', ''hidden'', nul_replaced (cv_State v)),
      (''code_challenge'', ''hidden'', nul_replaced (cv_CodeChallenge v)),
      (''code_challenge_method'', ''hidden'', nul_replaced (cv_CodeChallengeMethod v)),
      (''username'', ''text'', nul_replaced (cv_Username v)), (''api_key'', ''password'', [])]"
  by (simp add: controls_def markup_page consent_markup_def hidden_input_def piece_reads html_unescape_escape)

lemma page_form: "form_actions (consent_page v) = [(''post'', html_unescape (apply_escaper Escape_URL (cv_Action v)))]"
  by (simp add: form_actions_def markup_page consent_markup_def hidden_input_def piece_reads)

lemma code_text_skip:
  "TOpen ''code'' \<notin> set ts \<Longrightarrow> code_text (ts @ TChar c # us) = code_text (TChar c # us)"
  "TOpen ''code'' \<notin> set ts \<Longrightarrow> code_text (ts @ TOpen ''code'' # us) = code_text (TOpen ''code'' # us)"
  by (induction ts rule: code_text.induct) auto

lemma code_text_chars: "code_text (map TChar s @ us) = code_text us"
  by (induction s) auto

lemma leading_text_chars: "leading_text (map TChar s @ TOpen n # us) = s"
  by (induction s) auto

definition request_text :: string where
  "request_text = take (length page_request - 6) page_request"

lemma page_request_split: "page_request = request_text @ ''<code>''"
  by code_simp

lemma head_no_code: "TOpen ''code'' \<notin> set (fst (scan InText page_head))" "snd (scan InText page_head) = InText"
  by (code_simp, code_simp)

lemma request_no_code: "TOpen ''code'' \<notin> set (fst (scan InText request_text))" "snd (scan InText request_text) = InText"
  by (code_simp, code_simp)

lemma page_destination: "destination_shown (consent_page v) = Some (nul_replaced (cv_RedirectURI v))"
proof -
  obtain rest where page: "consent_page v =
      page_head @ html_escape (cv_ClientName v) @ request_text @ ''<code>'' @ html_escape (cv_RedirectURI v) @ ''</code>'' @ rest"
    by (simp add: consent_page_eq consent_nodes_def page_request_split page_warning_def)
  have open_code: "fst (scan InText (''<code>'' @ r)) = TOpen ''code'' # TClose # fst (scan InText r)" for r
    by (simp add: blank_def split: prod.split)
  have close_code: "fst (scan InText (''</code>'' @ r)) = TOpen ''/code'' # TClose # fst (scan InText r)" for r
    by (simp add: blank_def split: prod.split)
  have text_append: "fst (scan InText (a @ b)) = fst (scan InText a) @ fst (scan InText b)" if "snd (scan InText a) = InText" for a b
    using that by (cases "scan InText a", cases "scan InText b") (simp add: scan_append)
  have skip: "code_text (ts @ map TChar s @ us @ TOpen ''code'' # ws) = code_text (TOpen ''code'' # ws)"
    if "TOpen ''code'' \<notin> set ts" "TOpen ''code'' \<notin> set us" for ts s us ws
    using code_text_skip(2) [of "ts @ map TChar s @ us" ws] that by auto
  have "tokens (consent_page v) =
      fst (scan InText page_head) @ map TChar (html_escape (cv_ClientName v)) @ fst (scan InText request_text) @
      TOpen ''code'' # TClose # map TChar (html_escape (cv_RedirectURI v)) @ TOpen ''/code'' # TClose # fst (scan InText rest)"
    unfolding tokens_def page
    by (simp only: text_append head_no_code request_no_code scan_escaped_text fst_conv snd_conv open_code close_code)
  then show ?thesis
    unfolding destination_shown_def
    by (simp add: skip head_no_code request_no_code leading_text_chars html_unescape_escape)
qed

subsection \<open>What the page promises\<close>

text \<open>A page without the data: the same view with every field blank, an error shown or not.\<close>

definition blank_view :: "bool \<Rightarrow> consent_view" where
  "blank_view e =
     \<lparr>cv_Action = [], cv_ResponseType = [], cv_ClientID = [], cv_ClientName = [], cv_RedirectURI = [], cv_State = [],
      cv_CodeChallenge = [], cv_CodeChallengeMethod = [], cv_Username = [], cv_Error = (if e then ''e'' else [])\<rparr>"

definition without_values :: "token list \<Rightarrow> token list" where
  "without_values ts = map (\<lambda>t. case t of TVal v \<Rightarrow> TVal [] | _ \<Rightarrow> t) ts"

text \<open>The values that differ from the blank page, in order.\<close>

definition values_in :: "token list \<Rightarrow> string list" where
  "values_in ts = concat (map (\<lambda>t. case t of TVal v \<Rightarrow> [v] | _ \<Rightarrow> []) ts)"

text \<open>
  C14. Nothing a client or a person chose can change what the consent page is: for any client name, redirect URI, state,
  challenge, user name and error, the page has exactly the tags and attributes of the page with all of them blank,
  and the destination it shows reads as the redirect URI the code will be sent to.
\<close>

theorem consent_page_inert:
  "without_values (markup (tokens (snd (renderConsentForm req username errMsg)))) =
     without_values (markup (tokens (consent_page (blank_view (errMsg \<noteq> []))))) \<and>
   destination_shown (snd (renderConsentForm req username errMsg)) = Some (nul_replaced (ar_redirect_uri req))"
  unfolding renderConsentForm_def snd_conv markup_page page_destination
  by (simp add: without_values_def consent_markup_def consent_view_of_def blank_view_def hidden_input_def piece_reads)

definition printable_text :: "string \<Rightarrow> bool" where
  "printable_text s \<longleftrightarrow> list_all (\<lambda>c. 32 \<le> (of_char c :: nat)) s"

lemma printable_no_nul: "printable_text s \<Longrightarrow> nul_replaced s = s"
  by (intro nul_replaced_id) (auto simp: printable_text_def list_all_iff)

definition request_printable :: "authorize_request \<Rightarrow> bool" where
  "request_printable req \<longleftrightarrow> printable_text (ar_client_id req) \<and> printable_text (ar_redirect_uri req) \<and> printable_text (ar_state req) \<and>
     printable_text (ar_code_challenge req)"

definition posted :: "authorize_request \<Rightarrow> string \<Rightarrow> string \<Rightarrow> (string \<rightharpoonup> string) \<Rightarrow> form" where
  "posted req username errMsg typed = submit typed (snd (renderConsentForm req username errMsg))"

lemma posted_eq:
  assumes "parseAuthorizeRequest env cfg f = (req, [])" and "request_printable req"
  shows "posted req username errMsg typed =
     [(''response_type'', ''code''), (''client_id'', ar_client_id req), (''redirect_uri'', ar_redirect_uri req),
      (''state'', ar_state req), (''code_challenge'', ar_code_challenge req), (''code_challenge_method'', ''S256''),
      (''username'', case typed ''username'' of Some s \<Rightarrow> s | None \<Rightarrow> nul_replaced username),
      (''api_key'', case typed ''api_key'' of Some s \<Rightarrow> s | None \<Rightarrow> [])]"
proof -
  have "ar_response_type req = ''code''" "ar_code_challenge_method req = ''S256''"
    using assms(1) by (auto simp: parseAuthorizeRequest_def Let_def split: if_splits option.splits)
  with assms(2) show ?thesis
    by (simp add: posted_def renderConsentForm_def submit_def page_controls consent_view_of_def
        request_printable_def printable_no_nul)
qed

lemma posted_form:
  assumes "parseAuthorizeRequest env cfg f = (req, [])" and "request_printable req"
  shows "parseAuthorizeRequest env cfg (posted req username errMsg typed) = (req, [])"
    and "form_get (posted req username errMsg typed) ''api_key'' = (case typed ''api_key'' of Some k \<Rightarrow> k | None \<Rightarrow> [])"
    and "form_get (posted req username errMsg typed) ''username'' =
      (case typed ''username'' of Some u \<Rightarrow> u | None \<Rightarrow> nul_replaced username)"
proof -
  show "parseAuthorizeRequest env cfg (posted req username errMsg typed) = (req, [])"
    using assms(1) unfolding posted_eq [OF assms]
    by (auto simp: parseAuthorizeRequest_def Let_def form_get_def split: if_splits option.splits)
  show "form_get (posted req username errMsg typed) ''api_key'' = (case typed ''api_key'' of Some k \<Rightarrow> k | None \<Rightarrow> [])"
    "form_get (posted req username errMsg typed) ''username'' =
      (case typed ''username'' of Some u \<Rightarrow> u | None \<Rightarrow> nul_replaced username)"
    unfolding posted_eq [OF assms] by (simp_all add: form_get_def)
qed

lemma answered_page:
  "handleAuthorizeGet env cfg query = ConsentForm req username errMsg \<Longrightarrow> parseAuthorizeRequest env cfg query = (req, [])"
  "handleAuthorizePost env cfg (Some f) now = ConsentForm req username errMsg \<Longrightarrow> parseAuthorizeRequest env cfg f = (req, [])"
  by (auto simp: handleAuthorizeGet_def handleAuthorizePost_def Let_def split: prod.splits if_splits option.splits)

definition urlencoded :: "string option" where
  "urlencoded = Some ''application/x-www-form-urlencoded''"

lemma posted_body:
  assumes "length (encode_pairs (posted req username errMsg typed)) \<le> max_form_size"
  shows "ParseForm urlencoded (encode_pairs (posted req username errMsg typed)) [] = Some (posted req username errMsg typed)"
proof -
  have "length (posted req username errMsg typed) \<le> max_query_params"
    by (simp add: posted_def renderConsentForm_def submit_def page_controls max_query_params_def)
  then have "ParseQuery (encode_pairs (posted req username errMsg typed)) = (posted req username errMsg typed, True)"
    by (rule ParseQuery_encode_pairs)
  then show ?thesis
    using assms by (simp add: ParseForm_def urlencoded_def) (simp add: ParseQuery_def max_query_params_def)
qed

lemma posted_page_redirects:
  assumes shown: "handleAuthorizeGet env cfg query = ConsentForm req username errMsg"
    and "request_printable req" and "typed ''api_key'' = Some key" and "trim_space key \<noteq> []"
    and "oe_validate env (trim_space key)" and "oe_url_ok env (ar_redirect_uri req)"
    and "EncodeCode (oe_crypto env) (oc_keys cfg) (oe_nonce env 0)
        \<lparr>cp_credential = \<lparr>cd_username = trim_space (case typed ''username'' of Some u \<Rightarrow> u | None \<Rightarrow> []),
                          cd_api_key = trim_space key\<rparr>,
         cp_client_id = ar_client_id req, cp_redirect_uri = ar_redirect_uri req,
         cp_code_challenge = ar_code_challenge req, cp_expires = 0\<rparr> now = Some code"
    and "length (encode_pairs (posted req username errMsg typed)) \<le> max_form_size"
  shows "destination_shown (snd (renderConsentForm req username errMsg)) = Some (ar_redirect_uri req) \<and>
    form_actions (snd (renderConsentForm req username errMsg)) = [(''post'', AuthorizePath)] \<and>
    handleAuthorizePost env cfg (ParseForm urlencoded (encode_pairs (posted req username errMsg typed)) []) now =
      RedirectBack (ar_redirect_uri req) code (ar_state req)"
proof (intro conjI)
  from shown have "username = []" by (auto simp: handleAuthorizeGet_def split: prod.splits if_splits)
  then have un: "(case typed ''username'' of None \<Rightarrow> nul_replaced username | Some u \<Rightarrow> u) =
      (case typed ''username'' of None \<Rightarrow> [] | Some u \<Rightarrow> u)" by (simp split: option.split)
  show "destination_shown (snd (renderConsentForm req username errMsg)) = Some (ar_redirect_uri req)"
    using assms(2) by (simp add: renderConsentForm_def page_destination consent_view_of_def request_printable_def printable_no_nul)
  have "html_unescape (apply_escaper Escape_URL AuthorizePath) = AuthorizePath" by code_simp
  then show "form_actions (snd (renderConsentForm req username errMsg)) = [(''post'', AuthorizePath)]"
    by (simp add: renderConsentForm_def page_form consent_view_of_def)
  note form = posted_form [OF answered_page(1) [OF shown] assms(2)]
  show "handleAuthorizePost env cfg (ParseForm urlencoded (encode_pairs (posted req username errMsg typed)) []) now =
      RedirectBack (ar_redirect_uri req) code (ar_state req)"
    unfolding posted_body [OF assms(8)] using assms(3-7)
    by (simp add: handleAuthorizePost_def form un)
qed

text \<open>
  C13. Consent is given to what was shown: the page that answers an authorization request, sent back by a browser
  with a working key typed in, goes to the authorization endpoint, is the same request there, and the code is delivered
  with the client's state to the very destination the page displayed. The code seals the typed key and user name.
\<close>

theorem consent_delivers_where_shown:
  assumes shown: "handleAuthorizeGet env cfg query = ConsentForm req username errMsg"
    and "request_printable req" and "typed ''api_key'' = Some key" and "trim_space key \<noteq> []"
    and "oe_validate env (trim_space key)" and "oe_url_ok env (ar_redirect_uri req)"
    and "EncodeCode (oe_crypto env) (oc_keys cfg) (oe_nonce env 0)
        \<lparr>cp_credential = \<lparr>cd_username = trim_space (case typed ''username'' of Some u \<Rightarrow> u | None \<Rightarrow> []),
                          cd_api_key = trim_space key\<rparr>,
         cp_client_id = ar_client_id req, cp_redirect_uri = ar_redirect_uri req,
         cp_code_challenge = ar_code_challenge req, cp_expires = 0\<rparr> now = Some code"
    and "length (encode_pairs (posted req username errMsg typed)) \<le> max_form_size"
  shows "destination_shown (snd (renderConsentForm req username errMsg)) = Some (ar_redirect_uri req) \<and>
    form_actions (snd (renderConsentForm req username errMsg)) = [(''post'', AuthorizePath)] \<and>
    handleAuthorizePost env cfg (ParseForm urlencoded (encode_pairs (posted req username errMsg typed)) []) now =
      RedirectBack (ar_redirect_uri req) code (ar_state req)"
  using assms by (rule posted_page_redirects)

text \<open>
  A request for the witnesses, by the client of \<open>example_meta\<close> registered under keys derived from a master key. Its state
  has every character the page escapes.
\<close>

definition shown_keys :: keys where
  "shown_keys = DeriveKeys example_crypto (replicate 32 (CHR ''k''))"

definition shown_client :: string where
  "shown_client =
     ''tnmcp_client_b3h4eHl4eHh4eHh4eHh4eHh4eXJlZGlyZWN0X3VyaXNheHlzeHh4eHh4eHh4eHh4eHh4eHh4eHh5aHR0cHM6Ly9'' @
     ''hLmV4YW1wbGUvY2J4eHh4eHh4eHh4eHljbGllbnRfbmFtZXN4eWF4eHh4eHh4eHh4eWNyZWF0ZWRfYXQreHh4eHh4eHk.a2tra2t'' @
     ''ra2tra2tra2tra2tra2tra2tra2tra2tra2t0cnVlbmFzLW1jcC1vYXV0aC1obWFjLXYxb3h4eHl4eHh4eHh4eHh4eHh4eXJlZGl'' @
     ''yZWN0X3VyaXNheHlzeHh4eHh4eHh4eHh4eHh4eHh4eHh5aHR0cHM6Ly9hLmV4YW1wbGUvY2J4eHh4eHh4eHh4eHljbGllbnRfbmF'' @
     ''tZXN4eWF4eHh4eHh4eHh4eWNyZWF0ZWRfYXQreHh4eHh4eHk''"

lemma shown_client_eq: "EncodeClientID example_crypto shown_keys example_meta = shown_client"
  by code_simp

definition page_query :: form where
  "page_query =
     [(''response_type'', ''code''), (''client_id'', shown_client),
      (''redirect_uri'', ''https://a.example/cb''), (''state'', ''<x>&\"+''), (''code_challenge'', base64_encode ''v''),
      (''code_challenge_method'', ''S256'')]"

definition shown_request :: authorize_request where
  "shown_request = \<lparr>ar_response_type = ''code'', ar_client_id = shown_client,
     ar_redirect_uri = ''https://a.example/cb'', ar_state = ''<x>&\"+'', ar_code_challenge = base64_encode ''v'',
     ar_code_challenge_method = ''S256'', ar_client_meta = example_meta\<rparr>"

lemma shown_request_parsed:
  assumes "oc_keys cfg = shown_keys"
  shows "parseAuthorizeRequest example_env cfg page_query = (shown_request, [])"
proof -
  have "client_metadata_ok example_meta"
    by (simp add: client_metadata_ok_def example_meta_def ascii_utf8 in_int64_def)
  from DecodeClientID_EncodeClientID [OF example_crypto_ok this, of shown_keys]
  have "DecodeClientID example_crypto shown_keys shown_client = Some example_meta" by (simp add: shown_client_eq)
  moreover have "shown_client \<noteq> []" by (simp add: shown_client_def)
  moreover have "cm_redirect_uris example_meta = [''https://a.example/cb'']" by (simp add: example_meta_def)
  ultimately show ?thesis
    by (simp add: parseAuthorizeRequest_def page_query_def shown_request_def form_get_def example_env_def assms
        ValidateRedirectURI_def Let_def)
qed

lemma shown_request_printable: "request_printable shown_request"
  by code_simp

lemma length_escaped: "length (QueryEscape s) \<le> 3 * length s"
  by (induction s) (auto simp: QueryEscape_def escape_byte_def)

lemma length_encode_pair: "length (encode_pair kv) \<le> 3 * length (fst kv) + 3 * length (snd kv) + 1"
  using length_escaped [of "fst kv"] length_escaped [of "snd kv"] by (simp add: encode_pair_def)

lemma length_encode_pairs:
  "length (encode_pairs ps) \<le> sum_list (map (\<lambda>kv. 3 * length (fst kv) + 3 * length (snd kv) + 2) ps)"
proof (induction ps)
  case (Cons p ps)
  then show ?case using length_encode_pair [of p] by (cases ps) (simp_all add: encode_pairs_def)
qed (simp add: encode_pairs_def)

lemma shown_body_size: "length (encode_pairs (posted shown_request [] [] [''api_key'' \<mapsto> '' 1-abc''])) \<le> max_form_size"
proof -
  have "length shown_client \<le> 1000" by (simp add: shown_client_def)
  moreover have "parseAuthorizeRequest example_env (example_config\<lparr>oc_keys := shown_keys\<rparr>) page_query = (shown_request, [])"
    by (rule shown_request_parsed) simp
  ultimately show ?thesis
    by (simp only: posted_eq [OF _ shown_request_printable])
      (intro order_trans [OF length_encode_pairs], simp add: shown_request_def max_form_size_def)
qed

lemma consent_delivers_where_shown_witness:
  "\<exists>code. handleAuthorizePost example_env (example_config\<lparr>oc_keys := shown_keys\<rparr>)
      (ParseForm urlencoded (encode_pairs (posted shown_request [] [] [''api_key'' \<mapsto> '' 1-abc''])) []) 0 =
    RedirectBack ''https://a.example/cb'' code ''<x>&\"+''"
proof -
  let ?typed = "[''api_key'' \<mapsto> '' 1-abc'']" and ?cfg = "example_config\<lparr>oc_keys := shown_keys\<rparr>"
  have shown: "handleAuthorizeGet example_env ?cfg page_query = ConsentForm shown_request [] []"
    by (simp add: handleAuthorizeGet_def shown_request_parsed)
  have "\<exists>code. EncodeCode (oe_crypto example_env) (oc_keys ?cfg) (oe_nonce example_env 0) p 0 = Some code" for p
    using seal_Some [OF example_nonce_ok] by (fastforce simp: EncodeCode_def example_env_def)
  then obtain code where code: "EncodeCode (oe_crypto example_env) (oc_keys ?cfg) (oe_nonce example_env 0)
        \<lparr>cp_credential = \<lparr>cd_username = trim_space (case ?typed ''username'' of Some u \<Rightarrow> u | None \<Rightarrow> []),
                          cd_api_key = trim_space '' 1-abc''\<rparr>,
         cp_client_id = ar_client_id shown_request, cp_redirect_uri = ar_redirect_uri shown_request,
         cp_code_challenge = ar_code_challenge shown_request, cp_expires = 0\<rparr> 0 = Some code" by blast
  have "oe_validate example_env (trim_space '' 1-abc'')" "oe_url_ok example_env (ar_redirect_uri shown_request)"
    by (simp_all add: example_env_def trim_example_key)
  moreover have "?typed ''api_key'' = Some '' 1-abc''" "trim_space '' 1-abc'' \<noteq> []" by (simp_all add: trim_example_key)
  ultimately show ?thesis
    using consent_delivers_where_shown [OF shown shown_request_printable _ _ _ _ code shown_body_size]
    by (auto simp: shown_request_def)
qed

text \<open>
  A refused key is not repeated: the page that answers a form whose key is missing or was rejected is the one the
  form without its key would give, its error is one of two fixed texts, and its key field is empty.
\<close>

theorem rejected_key_not_echoed:
  assumes "handleAuthorizePost env cfg (Some f) now = ConsentForm req username errMsg"
  shows "renderConsentForm req username errMsg =
      renderConsentForm (fst (parseAuthorizeRequest env cfg (map_del ''api_key'' f)))
        (trim_space (form_get (map_del ''api_key'' f) ''username'')) errMsg \<and>
    errMsg \<in> {''a TrueNAS API key is required'', ''TrueNAS rejected that username or API key''} \<and>
    (\<forall>v. (''api_key'', ''password'', v) \<in> set (controls (snd (renderConsentForm req username errMsg))) \<longrightarrow> v = [])"
proof -
  have get: "form_get (map_del ''api_key'' f) k = form_get f k" if "k \<noteq> ''api_key''" for k
    using that by (simp add: form_get_def map_of_map_del)
  have "parseAuthorizeRequest env cfg (map_del ''api_key'' f) = parseAuthorizeRequest env cfg f"
    by (simp add: parseAuthorizeRequest_def get)
  with answered_page(2) [OF assms] have "fst (parseAuthorizeRequest env cfg (map_del ''api_key'' f)) = req" by simp
  moreover have "username = trim_space (form_get f ''username'') \<and>
      errMsg \<in> {''a TrueNAS API key is required'', ''TrueNAS rejected that username or API key''}"
    using assms by (auto simp: handleAuthorizePost_def Let_def split: prod.splits if_splits option.splits)
  ultimately show ?thesis by (simp add: get renderConsentForm_def page_controls)
qed

lemma rejected_key_not_echoed_witness:
  "\<exists>req errMsg. handleAuthorizePost example_env (example_config\<lparr>oc_keys := shown_keys\<rparr>)
       (Some (posted shown_request [] [] [''api_key'' \<mapsto> '' ''])) 0 = ConsentForm req [] errMsg \<and>
     errMsg \<in> {''a TrueNAS API key is required'', ''TrueNAS rejected that username or API key''}"
proof -
  let ?cfg = "example_config\<lparr>oc_keys := shown_keys\<rparr>" and ?f = "posted shown_request [] [] [''api_key'' \<mapsto> '' '']"
  have "parseAuthorizeRequest example_env ?cfg page_query = (shown_request, [])" by (simp add: shown_request_parsed)
  note form = posted_form [OF this shown_request_printable]
  have "handleAuthorizePost example_env ?cfg (Some ?f) 0 = ConsentForm shown_request [] ''a TrueNAS API key is required''"
    by (simp add: handleAuthorizePost_def form trim_space_def trim_by.simps space_bytes_def)
  from rejected_key_not_echoed [OF this] this show ?thesis by blast
qed

subsection \<open>The redirect back\<close>

text \<open>
  The query of the redirect: the values of the registered URI's own query, as \<^verbatim>\<open>url.Parse\<close> finds it, with the code and the
  state set.
\<close>

definition redirect_query :: "string \<Rightarrow> string \<Rightarrow> string \<Rightarrow> string" where
  "redirect_query rawQuery code st =
     (let q = map_put ''code'' [code] (values_of (fst (ParseQuery rawQuery)))
      in Values_Encode (if st \<noteq> [] then map_put ''state'' [st] q else q))"

definition query_values :: "string \<Rightarrow> string \<Rightarrow> string list" where
  "query_values q k = map snd (filter (\<lambda>p. fst p = k) (fst (ParseQuery q)))"

lemma query_values_encode:
  assumes "distinct (keys_of m)" and "length (value_pairs m) \<le> max_query_params"
  shows "query_values (Values_Encode m) k = values_get m k"
  using assms by (simp add: query_values_def Values_Encode_def ParseQuery_encode_pairs value_pairs_get)

text \<open>
  C15. The client gets its code: the query of the redirect, parsed again, has exactly the code issued as its code and, when
  the client sent a state, exactly that state, whatever bytes they contain and whatever the registered URI's query says;
  every other name keeps the values it has there.
\<close>

theorem redirect_carries_code:
  assumes "length (fst (ParseQuery rawQuery)) + 2 \<le> max_query_params"
  shows "query_values (redirect_query rawQuery code st) k =
     (if k = ''code'' then [code] else if k = ''state'' \<and> st \<noteq> [] then [st] else query_values rawQuery k)"
proof -
  let ?m = "values_of (fst (ParseQuery rawQuery))"
  let ?q = "map_put ''code'' [code] ?m"
  let ?r = "if st \<noteq> [] then map_put ''state'' [st] ?q else ?q"
  have d: "distinct (keys_of ?m)" "distinct (keys_of ?q)" "distinct (keys_of ?r)"
    by (simp_all add: distinct_values_of distinct_map_put del: distinct_map)
  have "value_count ?r \<le> value_count ?m + 2"
    using value_count_put [of "''code''" code ?m] value_count_put [of "''state''" st ?q] by auto
  with assms have "length (value_pairs ?r) \<le> max_query_params"
    by (simp only: length_value_pairs [OF d(3)] value_count_of)
  with d(3) have "query_values (redirect_query rawQuery code st) k = values_get ?r k"
    unfolding redirect_query_def Let_def by (rule query_values_encode)
  also have "\<dots> = (if k = ''code'' then [code] else if k = ''state'' \<and> st \<noteq> [] then [st] else values_get ?m k)"
    by (simp add: values_get_put)
  finally show ?thesis by (simp add: query_values_def values_get_of)
qed

lemma redirect_carries_code_witness:
  "query_values (redirect_query ''a=1&code=x'' ''c d'' ''s&t=%'') ''state'' = [''s&t=%'']"
  using redirect_carries_code [of "''a=1&code=x''" "''c d''" "''s&t=%''" "''state''"]
  by (simp add: ParseQuery_def max_query_params_def)

end
