(* ===== verification/Http_Flow.thy ===== *)
theory Http_Flow
  imports Main_Process Consent
begin

section \<open>The authorization flow over HTTP\<close>

text \<open>
  The composition of the routes of \<^verbatim>\<open>cmd/truenas-mcp/main.go\<close>, the authorization server, its consent page and the credential gate
  of the MCP handler: what a browser and a client see of one running server, request by request.
\<close>

definition http_get :: "string \<Rightarrow> form \<Rightarrow> http_request" where
  "http_get path q = \<lparr>rq_method = ''GET'', rq_path = path, rq_form = Some q, rq_body = None, rq_api_key = [], rq_authorization = []\<rparr>"

definition http_post :: "string \<Rightarrow> string \<Rightarrow> http_request" where
  "http_post path body =
     \<lparr>rq_method = ''POST'', rq_path = path, rq_form = ParseForm urlencoded body [], rq_body = None, rq_api_key = [],
      rq_authorization = []\<rparr>"

definition http_form :: "string \<Rightarrow> form \<Rightarrow> http_request" where
  "http_form path f = \<lparr>rq_method = ''POST'', rq_path = path, rq_form = Some f, rq_body = None, rq_api_key = [], rq_authorization = []\<rparr>"

definition http_bearer :: "string \<Rightarrow> http_request" where
  "http_bearer token =
     \<lparr>rq_method = ''POST'', rq_path = ''/mcp'', rq_form = None, rq_body = None, rq_api_key = [],
      rq_authorization = ''Bearer '' @ token\<rparr>"

text \<open>The request by which the client exchanges its code.\<close>

definition exchange :: "authorize_request \<Rightarrow> string \<Rightarrow> string \<Rightarrow> form" where
  "exchange req code verifier =
     [(''grant_type'', ''authorization_code''), (''code'', code), (''client_id'', ar_client_id req),
      (''redirect_uri'', ar_redirect_uri req), (''code_verifier'', verifier)]"

lemma serve_oauth_routes:
  assumes "cf_oauth_issuer c \<noteq> []" and "s = build_server cy version c" and "hs_oauth s = Some oc"
  shows "rq_method rq = ''GET'' \<Longrightarrow> rq_path rq = AuthorizePath \<Longrightarrow> serve_http env s h rq now ct st =
      (OAuthAnswer (handleAuthorizeGet env oc (case rq_form rq of None \<Rightarrow> [] | Some f \<Rightarrow> f)), st)"
    and "rq_method rq = ''POST'' \<Longrightarrow> rq_path rq = AuthorizePath \<Longrightarrow> serve_http env s h rq now ct st =
      (OAuthAnswer (handleAuthorizePost env oc (rq_form rq) now), st)"
    and "rq_method rq = ''POST'' \<Longrightarrow> rq_path rq = TokenPath \<Longrightarrow> serve_http env s h rq now ct st =
      (case handleToken env oc (rq_form rq) now ct (fst st) of (a, codes) \<Rightarrow> (OAuthAnswer a, (codes, snd st)))"
    and "rq_path rq = ''/mcp'' \<Longrightarrow> serve_http env s h rq now ct st =
      (case ServeHTTP (oe_crypto env) (Some (oc_keys oc)) (ProtectedResourceMetadataURL oc) now (rq_api_key rq)
          (rq_authorization rq) (snd st) of (a, handlers) \<Rightarrow> (MCPAnswer a, (fst st, handlers)))"
proof -
  have routes: "mux_lookup (hs_mux s) m p = (if p = ''/mcp'' then Found MCPRoute
      else case map_of (route_table True) p of None \<Rightarrow> NotFound
      | Some methods \<Rightarrow> (case map_of methods m of None \<Rightarrow> MethodNotAllowed | Some r \<Rightarrow> Found r))" for m p
    using server_routes [where cy = cy and c = c and version = version and meth = m and path = p] assms(1,2) by simp
  have url: "hs_oauth_keys s = Some (oc_keys oc)" "hs_metadata_url s = ProtectedResourceMetadataURL oc"
    using build_server_fields(3,4) [where cy = cy and c = c and version = version] assms(2,3) by simp_all
  show "rq_method rq = ''GET'' \<Longrightarrow> rq_path rq = AuthorizePath \<Longrightarrow> serve_http env s h rq now ct st =
      (OAuthAnswer (handleAuthorizeGet env oc (case rq_form rq of None \<Rightarrow> [] | Some f \<Rightarrow> f)), st)"
    "rq_method rq = ''POST'' \<Longrightarrow> rq_path rq = AuthorizePath \<Longrightarrow> serve_http env s h rq now ct st =
      (OAuthAnswer (handleAuthorizePost env oc (rq_form rq) now), st)"
    "rq_method rq = ''POST'' \<Longrightarrow> rq_path rq = TokenPath \<Longrightarrow> serve_http env s h rq now ct st =
      (case handleToken env oc (rq_form rq) now ct (fst st) of (a, codes) \<Rightarrow> (OAuthAnswer a, (codes, snd st)))"
    by (simp_all add: serve_http_def routes route_table_def path_defs serve_oauth_def assms(3))
  show "rq_path rq = ''/mcp'' \<Longrightarrow> serve_http env s h rq now ct st =
      (case ServeHTTP (oe_crypto env) (Some (oc_keys oc)) (ProtectedResourceMetadataURL oc) now (rq_api_key rq)
          (rq_authorization rq) (snd st) of (a, handlers) \<Rightarrow> (MCPAnswer a, (fst st, handlers)))"
    by (simp add: serve_http_def routes url)
qed

definition fresh_state :: http_state where
  "fresh_state = (NewReplayCache, Map.empty)"

definition typed_credential :: "(string \<rightharpoonup> string) \<Rightarrow> credential" where
  "typed_credential typed =
     \<lparr>cd_username = trim_space (case typed ''username'' of Some u \<Rightarrow> u | None \<Rightarrow> []),
      cd_api_key = trim_space (case typed ''api_key'' of Some k \<Rightarrow> k | None \<Rightarrow> [])\<rparr>"

text \<open>What the person and the client bring to the flow, at the times of consent and of the exchange.\<close>

definition flow_ok :: "oauth_env \<Rightarrow> authorize_request \<Rightarrow> (string \<rightharpoonup> string) \<Rightarrow> string \<Rightarrow> int \<Rightarrow> int \<Rightarrow> int \<Rightarrow> bool" where
  "flow_ok env req typed verifier ttl t0 t1 \<longleftrightarrow>
     request_printable req \<and> list_all utf8_valid [ar_client_id req, ar_redirect_uri req, ar_code_challenge req] \<and>
     credential_ok (typed_credential typed) \<and> cd_api_key (typed_credential typed) \<noteq> [] \<and>
     oe_validate env (cd_api_key (typed_credential typed)) \<and> oe_url_ok env (ar_redirect_uri req) \<and>
     verifier \<noteq> [] \<and> base64_encode (cy_sha256 (oe_crypto env) verifier) = ar_code_challenge req \<and>
     in_int64 (unix_seconds (t0 + CodeTTL)) \<and> in_int64 (unix_seconds (t1 + ttl)) \<and>
     unix_seconds t1 < unix_seconds (t0 + CodeTTL)"

lemma page_redirects_typed:
  assumes shown: "handleAuthorizeGet env cfg query = ConsentForm req username errMsg"
    and ok: "flow_ok env req typed verifier ttl t0 t1" and "nonce_ok (oe_nonce env 0)"
    and "length (encode_pairs (posted req username errMsg typed)) \<le> max_form_size"
  shows "\<exists>code. handleAuthorizePost env cfg (ParseForm urlencoded (encode_pairs (posted req username errMsg typed)) []) t0 =
      RedirectBack (ar_redirect_uri req) code (ar_state req)"
proof -
  from ok obtain key where key: "typed ''api_key'' = Some key" "trim_space key \<noteq> []"
    by (auto simp: flow_ok_def typed_credential_def split: option.splits)
  have "\<exists>code. EncodeCode (oe_crypto env) (oc_keys cfg) (oe_nonce env 0) p t0 = Some code" for p
    using seal_Some [OF assms(3)] by (fastforce simp: EncodeCode_def)
  then show ?thesis
    using posted_page_redirects [OF shown _ key _ _ _ assms(4)] ok
    by (fastforce simp: flow_ok_def typed_credential_def key)
qed

text \<open>
  C12. The authorization flow works end to end over HTTP, and hands the client the person's own key and nothing else. On a
  server with an issuer, the consent page that answers a client's authorization request, posted back with a
  working key, redirects to the client with a code and its state; the code, exchanged in time with the verifier of the
  challenge, gives an access token; and an MCP request with that token is served with exactly the key typed into the
  page until the token expires, and is challenged afterwards.
\<close>

theorem oauth_over_http:
  assumes "crypto_ok (oe_crypto env)" and "nonce_ok (oe_nonce env 0)" and "nonce_ok (oe_nonce env 1)"
    and server: "cf_oauth_issuer c \<noteq> []" "s = build_server (oe_crypto env) version c"
    and shown: "fst (serve_http env s h (http_get AuthorizePath query) tg ct fresh_state) = OAuthAnswer (ConsentForm req username errMsg)"
    and ok: "flow_ok env req typed verifier (cf_oauth_access_ttl c) t0 t1"
    and "length (encode_pairs (posted req username errMsg typed)) \<le> max_form_size"
  shows "\<exists>code r st url.
    serve_http env s h (http_post AuthorizePath (encode_pairs (posted req username errMsg typed))) t0 ct fresh_state =
      (OAuthAnswer (RedirectBack (ar_redirect_uri req) code (ar_state req)), fresh_state) \<and>
    serve_http env s h (http_form TokenPath (exchange req code verifier)) t1 t1 fresh_state = (OAuthAnswer (Tokens r), st) \<and>
    fst (serve_http env s h (http_bearer (tr_access_token r)) t2 ct st) =
      MCPAnswer (if unix_seconds t2 < unix_seconds (t1 + cf_oauth_access_ttl c)
                 then Served (cd_api_key (typed_credential typed))
                 else Unauthorized (wwwAuthenticateChallenge url) ErrInvalidCredential)"
proof -
  obtain oc where oc: "hs_oauth s = Some oc" and ttl: "oc_access_ttl oc = cf_oauth_access_ttl c"
    using build_server_fields(2) [OF server(1)] server(2) by simp
  note routes = serve_oauth_routes [OF server oc]
  let ?f = "posted req username errMsg typed"
  have get: "handleAuthorizeGet env oc query = ConsentForm req username errMsg"
    using shown by (simp add: routes(1) http_get_def)
  note parsed = answered_page(1) [OF get]
  have printable: "request_printable req" using ok by (simp add: flow_ok_def)
  note form = posted_form [OF parsed printable, of username errMsg typed]
  from parseAuthorizeRequest_ok [OF parsed] have req: "ar_redirect_uri req \<noteq> []" "ar_client_id req \<noteq> []"
    using parsed by (auto simp: parseAuthorizeRequest_def Let_def split: if_splits option.splits)
  from page_redirects_typed [OF get ok assms(2,8)] obtain code where
    code: "handleAuthorizePost env oc (Some ?f) t0 = RedirectBack (ar_redirect_uri req) code (ar_state req)"
    by (auto simp: posted_body [OF assms(8)])
  have user: "username = []" using get by (auto simp: handleAuthorizeGet_def split: prod.splits if_splits)
  have cred: "\<lparr>cd_username = trim_space (form_get ?f ''username''), cd_api_key = trim_space (form_get ?f ''api_key'')\<rparr> =
      typed_credential typed"
    unfolding form(2,3) typed_credential_def by (simp add: user split: option.split)
  note sent = parseAuthorizeRequest_ok [OF form(1)]
  have "\<exists>r. fst (handleToken env oc (Some (exchange req code verifier)) t1 t1 NewReplayCache) = Tokens r \<and>
    CredentialFromRequest (oe_crypto env) (Some (oc_keys oc)) t2 [] (''Bearer '' @ tr_access_token r) =
      (if unix_seconds t2 < unix_seconds (t1 + oc_access_ttl oc)
       then Inr (trim_space (form_get ?f ''api_key'')) else Inl ErrInvalidCredential)"
    using ok req sent cred ttl
    by (intro oauth_flow [OF assms(1-3) code])
      (simp_all add: exchange_def form_get_def [of "_ # _"] flow_ok_def held_def NewReplayCache_def)
  then obtain r where r: "fst (handleToken env oc (Some (exchange req code verifier)) t1 t1 NewReplayCache) = Tokens r"
    "CredentialFromRequest (oe_crypto env) (Some (oc_keys oc)) t2 [] (''Bearer '' @ tr_access_token r) =
      (if unix_seconds t2 < unix_seconds (t1 + oc_access_ttl oc)
       then Inr (cd_api_key (typed_credential typed)) else Inl ErrInvalidCredential)"
    using cred by (metis credential.simps(2))
  obtain codes where "handleToken env oc (Some (exchange req code verifier)) t1 t1 NewReplayCache = (Tokens r, codes)"
    using r(1) by (metis prod.collapse)
  then have token: "serve_http env s h (http_form TokenPath (exchange req code verifier)) t1 t1 fresh_state =
      (OAuthAnswer (Tokens r), (codes, Map.empty))"
    by (simp add: routes(3) http_form_def fresh_state_def)
  have post: "serve_http env s h (http_post AuthorizePath (encode_pairs ?f)) t0 ct fresh_state =
      (OAuthAnswer (RedirectBack (ar_redirect_uri req) code (ar_state req)), fresh_state)"
    using code by (simp add: routes(2) http_post_def posted_body [OF assms(8)])
  have "fst (serve_http env s h (http_bearer (tr_access_token r)) t2 ct (codes, Map.empty)) =
      MCPAnswer (if unix_seconds t2 < unix_seconds (t1 + cf_oauth_access_ttl c)
                 then Served (cd_api_key (typed_credential typed))
                 else Unauthorized (wwwAuthenticateChallenge (ProtectedResourceMetadataURL oc)) ErrInvalidCredential)"
    using r(2) by (simp add: routes(4) http_bearer_def ServeHTTP_def handlerFor_def ttl)
  with token post show ?thesis by blast
qed

text \<open>The example server, the page it answers with and what is typed into it.\<close>

definition flow_server :: http_server where
  "flow_server = build_server example_crypto ''dev'' sample_config"

lemma flow_issuer: "cf_oauth_issuer sample_config \<noteq> []"
  by (simp add: sample_config_def)

lemma flow_crypto: "oe_crypto OAuth_Server.example_env = example_crypto"
  by (simp add: OAuth_Server.example_env_def)

lemma flow_page:
  "fst (serve_http OAuth_Server.example_env flow_server h (http_get AuthorizePath page_query) 0 0 fresh_state) =
     OAuthAnswer (ConsentForm shown_request [] [])"
proof -
  obtain oc where oc: "hs_oauth flow_server = Some oc" and "oc_keys oc = shown_keys"
    using build_server_fields(2) [OF flow_issuer] by (simp add: flow_server_def shown_keys_def sample_config_def)
  then have "handleAuthorizeGet OAuth_Server.example_env oc page_query = ConsentForm shown_request [] []"
    by (simp add: handleAuthorizeGet_def shown_request_parsed)
  then show ?thesis by (simp add: serve_oauth_routes(1) [OF flow_issuer flow_server_def oc] http_get_def)
qed

lemma flow_typed:
  "flow_ok OAuth_Server.example_env shown_request [''api_key'' \<mapsto> '' 1-abc''] ''v'' (cf_oauth_access_ttl sample_config) 0 0"
proof -
  have "list_all utf8_valid [ar_client_id shown_request, ar_redirect_uri shown_request, ar_code_challenge shown_request]"
    by code_simp
  moreover have "base64_encode (cy_sha256 (oe_crypto OAuth_Server.example_env) ''v'') = ar_code_challenge shown_request"
    by (simp add: flow_crypto example_crypto_def shown_request_def)
  ultimately show ?thesis
    using shown_request_printable
    by (simp add: flow_ok_def typed_credential_def trim_example_key credential_ok_def ascii_utf8 unix_seconds_def in_int64_def
        OAuth_Server.example_env_def CodeTTL_def sample_config_def second_def)
qed

lemma oauth_over_http_witness:
  "\<exists>code r st.
     serve_http OAuth_Server.example_env flow_server (NewHealth ''dev'')
       (http_post AuthorizePath (encode_pairs (posted shown_request [] [] [''api_key'' \<mapsto> '' 1-abc'']))) 0 0 fresh_state =
       (OAuthAnswer (RedirectBack ''https://a.example/cb'' code ''<x>&\"+''), fresh_state) \<and>
     serve_http OAuth_Server.example_env flow_server (NewHealth ''dev'')
       (http_form TokenPath (exchange shown_request code ''v'')) 0 0 fresh_state = (OAuthAnswer (Tokens r), st) \<and>
     fst (serve_http OAuth_Server.example_env flow_server (NewHealth ''dev'')
       (http_bearer (tr_access_token r)) 5 0 st) = MCPAnswer (Served ''1-abc'')"
proof -
  have "crypto_ok (oe_crypto OAuth_Server.example_env)" by (simp add: flow_crypto example_crypto_ok)
  moreover have "nonce_ok (oe_nonce OAuth_Server.example_env n)" for n
    by (simp add: OAuth_Server.example_env_def example_nonce_ok)
  moreover have "flow_server = build_server (oe_crypto OAuth_Server.example_env) ''dev'' sample_config"
    by (simp add: flow_crypto flow_server_def)
  moreover have "unix_seconds 5 < unix_seconds (0 + cf_oauth_access_ttl sample_config)"
    by (simp add: unix_seconds_def sample_config_def second_def)
  moreover have "cd_api_key (typed_credential [''api_key'' \<mapsto> '' 1-abc'']) = ''1-abc''"
    by (simp add: typed_credential_def trim_example_key)
  ultimately show ?thesis
    using oauth_over_http [where h = "NewHealth ''dev''" and version = "''dev''" and ?t2.0 = 5,
        OF _ _ _ flow_issuer _ flow_page flow_typed shown_body_size]
    by (simp add: shown_request_def)
qed

end
