(* ===== verification/Client.thy ===== *)
theory Client
  imports Middleware Step_Machine
begin

section \<open>The middleware connection: calls, answers and subscriptions in flight\<close>

text \<open>
  \<^verbatim>\<open>internal/truenas/client.go\<close>: one websocket shared by concurrent calls. The state is the struct
  \<^verbatim>\<open>Client\<close> with the channels and subscriptions it points to as heaps. Every block of code that runs
  under the client's mutex is one atomic step on that state, and the goroutines take their steps in any
  order. Sending on a closed channel, closing one twice and sending where nobody can read are outcomes of
  their own, so that their absence is something to prove. The socket, contexts and timers are the
  environment: they decide which step is taken next.
\<close>

subsection \<open>State\<close>

record rpc_response =
  rr_id :: "64 word"
  rr_result :: raw
  rr_error :: "rpc_error option"
  rr_method :: string
  rr_params :: raw

text \<open>A call's channel, of capacity 1.\<close>

record call_chan =
  cc_buf :: "rpc_response list"
  cc_shut :: bool

text \<open>A subscription: the event channel of capacity 64 with its done channel, closed together.\<close>

record subscription =
  sb_events :: "raw list"
  sb_shut :: bool
  sb_err :: "go_error option"

definition event_capacity :: nat where
  "event_capacity = 64"

record client =
  cl_nextID :: "64 word"
  cl_pending :: "(64 word \<times> nat) list"
  cl_subscriptions :: "(string \<times> nat) list"
  cl_unsubscribing :: "(string \<times> nat) list"
  cl_closed :: bool
  cl_readErr :: "string option"
  cl_chans :: "nat \<rightharpoonup> call_chan"
  cl_subs :: "nat \<rightharpoonup> subscription"
  cl_cleanups :: "nat \<rightharpoonup> bool"
  cl_fresh :: nat

text \<open>\<^verbatim>\<open>Dial\<close>, once the socket is open.\<close>

definition Dial :: client where
  "Dial = \<lparr>cl_nextID = 0, cl_pending = [], cl_subscriptions = [], cl_unsubscribing = [],
     cl_closed = False, cl_readErr = None, cl_chans = Map.empty, cl_subs = Map.empty,
     cl_cleanups = Map.empty, cl_fresh = 0\<rparr>"

text \<open>
  The whole of it. The base URL of downloads is the endpoint's with the matching HTTP scheme; \<open>parse\<close> gives scheme and
  host of a URL or the parser's error, \<open>connect\<close> the error of opening the socket, if any.
\<close>

definition httpBaseURL :: "(string \<Rightarrow> go_error + string \<times> string) \<Rightarrow> string \<Rightarrow> go_error + string \<times> string" where
  "httpBaseURL parse endpoint =
     (case parse endpoint of
        Inl e \<Rightarrow> Inl (Wrapped (sentinel_text ErrUnreachable @ '': '' @ endpoint @ '': '' @ err_text e) [Sentinel ErrUnreachable, e])
      | Inr (scheme, host) \<Rightarrow>
          Inr (if scheme = ''wss'' then ''https'' else if scheme = ''ws'' then ''http'' else scheme, host))"

definition dial_endpoint ::
  "(string \<Rightarrow> go_error + string \<times> string) \<Rightarrow> (string \<Rightarrow> go_error option) \<Rightarrow> string \<Rightarrow> go_error + (string \<times> string) \<times> client" where
  "dial_endpoint parse connect endpoint =
     (case httpBaseURL parse endpoint of
        Inl e \<Rightarrow> Inl e
      | Inr base \<Rightarrow>
          (case connect endpoint of
             Some e \<Rightarrow> Inl (Wrapped (sentinel_text ErrUnreachable @ '': '' @ endpoint @ '': '' @ err_text e)
                 [Sentinel ErrUnreachable, e])
           | None \<Rightarrow> Inr (base, Dial)))"

lemma dial_fails_unreachable: "dial_endpoint parse connect endpoint = Inl e \<Longrightarrow> err_is ErrUnreachable e"
  by (auto simp: dial_endpoint_def httpBaseURL_def split: sum.splits option.splits if_splits)

definition Alive :: "client \<Rightarrow> bool" where
  "Alive c \<longleftrightarrow> \<not> cl_closed c \<and> cl_readErr c = None"

definition Close :: "client \<Rightarrow> client" where
  "Close c = (if cl_closed c then c else c\<lparr>cl_closed := True\<rparr>)"

subsection \<open>Calls\<close>

text \<open>The start of \<^verbatim>\<open>Call\<close>: the id taken and the channel the caller waits on.\<close>

definition call_start :: "client \<Rightarrow> go_error + (64 word \<times> nat \<times> client)" where
  "call_start c =
     (if cl_closed c then Inl (Sentinel ErrClosed)
      else let i = cl_nextID c + 1; a = cl_fresh c
           in Inr (i, a, c\<lparr>cl_nextID := i, cl_chans := (cl_chans c)(a \<mapsto> \<lparr>cc_buf = [], cc_shut = False\<rparr>),
                cl_pending := map_put i a (cl_pending c), cl_fresh := Suc a\<rparr>))"

text \<open>A caller that gives up, because the write failed or its context ended, forgets its id.\<close>

definition forget :: "client \<Rightarrow> 64 word \<Rightarrow> client" where
  "forget c i = c\<lparr>cl_pending := map_del i (cl_pending c)\<rparr>"

text \<open>
  The end of \<^verbatim>\<open>Call\<close>: what the caller reads from its channel, an answer or its end, and what it returns.
\<close>

definition channel_read :: "call_chan \<Rightarrow> rpc_response option option" where
  "channel_read ch =
     (case cc_buf ch of r # rs \<Rightarrow> Some (Some r) | [] \<Rightarrow> if cc_shut ch then Some None else None)"

definition call_result :: "string \<Rightarrow> rpc_response option \<Rightarrow> go_error + raw" where
  "call_result meth received =
     (case received of
        None \<Rightarrow> Inl (Wrapped (meth @ '': '' @ sentinel_text ErrInterrupted
            @ '': the operation may have been applied on the target'') [Sentinel ErrInterrupted])
      | Some r \<Rightarrow> (case rr_error r of Some e \<Rightarrow> Inl (classify meth e) | None \<Rightarrow> Inr (rr_result r)))"

text \<open>The answer sent to whichever caller waits on its id, if any still does.\<close>

definition send_answer :: "nat \<Rightarrow> rpc_response \<Rightarrow> client \<Rightarrow> client outcome" where
  "send_answer a r c =
     (case cl_chans c a of
        None \<Rightarrow> Blocked
      | Some ch \<Rightarrow>
          if cc_shut ch then Panicked
          else if cc_buf ch \<noteq> [] then Blocked
          else Ran (c\<lparr>cl_chans := (cl_chans c)(a \<mapsto> ch\<lparr>cc_buf := [r]\<rparr>)\<rparr>))"

definition deliver :: "client \<Rightarrow> rpc_response \<Rightarrow> client outcome" where
  "deliver c r =
     (let c' = c\<lparr>cl_pending := map_del (rr_id r) (cl_pending c)\<rparr>
      in case map_of (cl_pending c) (rr_id r) of None \<Rightarrow> Ran c' | Some a \<Rightarrow> send_answer a r c')"

subsection \<open>Subscriptions\<close>

definition errSubscriptionOverflow :: go_error where
  "errSubscriptionOverflow = Wrapped ''subscription event buffer overflow'' []"

definition close_subscription :: "go_error \<Rightarrow> nat \<Rightarrow> (nat \<rightharpoonup> subscription) \<Rightarrow> (nat \<rightharpoonup> subscription) outcome" where
  "close_subscription err a h =
     (case h a of
        None \<Rightarrow> Panicked
      | Some sb \<Rightarrow> if sb_shut sb then Ran h else Ran (h(a \<mapsto> sb\<lparr>sb_shut := True, sb_err := Some err\<rparr>)))"

definition close_chan :: "nat \<Rightarrow> (nat \<rightharpoonup> call_chan) \<Rightarrow> (nat \<rightharpoonup> call_chan) outcome" where
  "close_chan a h =
     (case h a of
        None \<Rightarrow> Panicked
      | Some ch \<Rightarrow> if cc_shut ch then Panicked else Ran (h(a \<mapsto> ch\<lparr>cc_shut := True\<rparr>)))"

definition close_cleanup :: "nat \<Rightarrow> (nat \<rightharpoonup> bool) \<Rightarrow> (nat \<rightharpoonup> bool) outcome" where
  "close_cleanup a h = (if h a = Some False then Ran (h(a \<mapsto> True)) else Panicked)"

definition unregisterSubscriptionLocked ::
    "client \<Rightarrow> string \<Rightarrow> nat \<Rightarrow> go_error \<Rightarrow> bool \<Rightarrow> (client \<times> nat option) outcome" where
  "unregisterSubscriptionLocked c src sub err unsubscribe =
     (if map_of (cl_subscriptions c) src \<noteq> Some sub then Ran (c, None)
      else and_then (close_subscription err sub (cl_subs c)) (\<lambda>h.
        let c' = c\<lparr>cl_subscriptions := map_del src (cl_subscriptions c), cl_subs := h\<rparr>; a = cl_fresh c
        in if \<not> unsubscribe then Ran (c', None)
           else Ran (c'\<lparr>cl_cleanups := (cl_cleanups c)(a \<mapsto> False),
                  cl_unsubscribing := map_put src a (cl_unsubscribing c), cl_fresh := Suc a\<rparr>, Some a)))"

definition interrupted_by :: "string \<Rightarrow> go_error" where
  "interrupted_by e = Wrapped (sentinel_text ErrInterrupted @ '': '' @ e) [Sentinel ErrInterrupted]"

text \<open>
  What the mutex-protected part of the loop in \<^verbatim>\<open>Subscribe\<close> decides: a refusal, waiting for the
  previous subscription of the source to end, or the new one registered.
\<close>

datatype registration = Refused go_error | WaitFor nat | Registered nat

definition Subscribe :: "client \<Rightarrow> string \<Rightarrow> registration \<times> client" where
  "Subscribe c src =
     (if cl_closed c then (Refused (Sentinel ErrClosed), c)
      else case cl_readErr c of
        Some e \<Rightarrow> (Refused (interrupted_by e), c)
      | None \<Rightarrow>
          if map_of (cl_subscriptions c) src \<noteq> None
          then (Refused (Wrapped (''subscription already open for '' @ go_quote src) []), c)
          else case map_of (cl_unsubscribing c) src of
            Some cleanup \<Rightarrow> (WaitFor cleanup, c)
          | None \<Rightarrow>
              let a = cl_fresh c
              in (Registered a,
                  c\<lparr>cl_subs := (cl_subs c)(a \<mapsto> \<lparr>sb_events = [], sb_shut = False, sb_err = None\<rparr>),
                    cl_subscriptions := map_put src a (cl_subscriptions c), cl_fresh := Suc a\<rparr>))"

text \<open>
  What \<^verbatim>\<open>Subscribe\<close> does with the answer to \<^verbatim>\<open>core.subscribe\<close>: a refusal by the target needs no
  unsubscribe, any other failure does.
\<close>

definition subscribe_failed :: "client \<Rightarrow> string \<Rightarrow> nat \<Rightarrow> go_error \<Rightarrow> (client \<times> nat option) outcome" where
  "subscribe_failed c src sub err =
     unregisterSubscriptionLocked c src sub err (err_as_call err = None)"

text \<open>
  The \<^verbatim>\<open>select\<close> of \<^verbatim>\<open>dispatchNotification\<close>. On a closed subscription both the send and the done case would be
  ready, and \<open>pick\<close> is the runtime's choice; the send would panic.
\<close>

definition dispatchNotification :: "client \<Rightarrow> string \<Rightarrow> raw \<Rightarrow> bool \<Rightarrow> (client \<times> nat option) outcome" where
  "dispatchNotification c src params pick =
     (case map_of (cl_subscriptions c) src of
        None \<Rightarrow> Ran (c, None)
      | Some a \<Rightarrow>
          (case cl_subs c a of
             None \<Rightarrow> Panicked
           | Some sb \<Rightarrow>
               if sb_shut sb then (if pick then Panicked else Ran (c, None))
               else if length (sb_events sb) < event_capacity
               then Ran (c\<lparr>cl_subs := (cl_subs c)(a \<mapsto> sb\<lparr>sb_events := sb_events sb @ [params]\<rparr>)\<rparr>, None)
               else unregisterSubscriptionLocked c src a errSubscriptionOverflow True))"

text \<open>The end of the goroutine \<^verbatim>\<open>unsubscribeAsync\<close> starts.\<close>

definition unsubscribe_done :: "client \<Rightarrow> string \<Rightarrow> nat \<Rightarrow> client outcome" where
  "unsubscribe_done c src cleanup =
     (if map_of (cl_unsubscribing c) src \<noteq> Some cleanup then Ran c
      else and_then (close_cleanup cleanup (cl_cleanups c)) (\<lambda>h.
        Ran (c\<lparr>cl_unsubscribing := map_del src (cl_unsubscribing c), cl_cleanups := h\<rparr>)))"

subsection \<open>The read loop\<close>

definition collectionUpdateMethod :: string where
  "collectionUpdateMethod = ''collection_update''"

definition dec_envelope :: "json option \<Rightarrow> (string \<times> raw) option" where
  "dec_envelope j =
     (case dec_struct j of
        None \<Rightarrow> None
      | Some kvs \<Rightarrow>
          (case dec_string (jfield ''collection'' kvs) of
             None \<Rightarrow> None
           | Some name \<Rightarrow> Some (name, jfield ''fields'' kvs)))"

text \<open>One message read.\<close>

definition read_message :: "client \<Rightarrow> rpc_response \<Rightarrow> bool \<Rightarrow> (client \<times> nat option) outcome" where
  "read_message c r pick =
     (if rr_id r = 0 \<and> rr_method r = collectionUpdateMethod
      then case unmarshal dec_envelope (rr_params r) of
             Some (name, params) \<Rightarrow>
               if name \<noteq> [] then dispatchNotification c name params pick else Ran (c, None)
           | None \<Rightarrow> Ran (c, None)
      else if rr_id r = 0 \<and> rr_method r \<noteq> [] then Ran (c, None)
      else and_then (deliver c r) (\<lambda>c'. Ran (c', None)))"

text \<open>The read that failed, after which the loop returns.\<close>

definition failPending :: "client \<Rightarrow> string \<Rightarrow> client outcome" where
  "failPending c e =
     and_then (close_all close_chan (cl_pending c) (cl_chans c)) (\<lambda>chans.
     and_then (close_all (close_subscription (interrupted_by e)) (cl_subscriptions c) (cl_subs c)) (\<lambda>subs.
     and_then (close_all close_cleanup (cl_unsubscribing c) (cl_cleanups c)) (\<lambda>cleanups.
       Ran (c\<lparr>cl_readErr := Some e, cl_pending := [], cl_chans := chans, cl_subscriptions := [],
         cl_subs := subs, cl_unsubscribing := [], cl_cleanups := cleanups\<rparr>))))"

subsection \<open>The connection and its callers\<close>

text \<open>
  The whole: the client and the callers inside \<^verbatim>\<open>Call\<close>, each with the id it took and the channel it waits
  on, which are locals of its goroutine.
\<close>

record connection =
  co_client :: client
  co_calls :: "(64 word \<times> nat) list"

definition connected :: connection where
  "connected = \<lparr>co_client = Dial, co_calls = []\<rparr>"

datatype event =
    StartCall
  | GiveUp "64 word" nat
  | TakeAnswer "64 word" nat
  | Incoming rpc_response bool
  | ReadFails string
  | OpenSubscription string
  | EndSubscription string nat go_error bool
  | TakeEvent nat
  | UnsubscribeDone string nat
  | CloseClient

text \<open>
  A caller takes only what is there; the read loop runs until its first failed read; the rest can
  happen at any time.
\<close>

fun enabled :: "event \<Rightarrow> connection \<Rightarrow> bool" where
  "enabled (GiveUp i a) s \<longleftrightarrow> (i, a) \<in> set (co_calls s)"
| "enabled (TakeAnswer i a) s \<longleftrightarrow> (i, a) \<in> set (co_calls s) \<and>
     (case cl_chans (co_client s) a of None \<Rightarrow> False | Some ch \<Rightarrow> channel_read ch \<noteq> None)"
| "enabled (Incoming r pick) s \<longleftrightarrow> cl_readErr (co_client s) = None"
| "enabled (ReadFails e) s \<longleftrightarrow> cl_readErr (co_client s) = None"
| "enabled (TakeEvent a) s \<longleftrightarrow>
     (case cl_subs (co_client s) a of None \<Rightarrow> False | Some sb \<Rightarrow> sb_events sb \<noteq> [])"
| "enabled _ s \<longleftrightarrow> True"

definition with_client :: "connection \<Rightarrow> client outcome \<Rightarrow> connection outcome" where
  "with_client s r = and_then r (\<lambda>c. Ran (s\<lparr>co_client := c\<rparr>))"

definition call_over :: "64 word \<Rightarrow> connection \<Rightarrow> client \<Rightarrow> connection" where
  "call_over i s c = s\<lparr>co_client := c, co_calls := map_del i (co_calls s)\<rparr>"

fun perform :: "event \<Rightarrow> connection \<Rightarrow> connection outcome" where
  "perform StartCall s =
     (case call_start (co_client s) of
        Inl e \<Rightarrow> Ran s
      | Inr (i, a, c) \<Rightarrow> Ran (s\<lparr>co_client := c, co_calls := (i, a) # co_calls s\<rparr>))"
| "perform (GiveUp i a) s = Ran (call_over i s (forget (co_client s) i))"
| "perform (TakeAnswer i a) s =
     Ran (call_over i s ((co_client s)\<lparr>cl_chans :=
       (cl_chans (co_client s))(a := map_option (\<lambda>ch. ch\<lparr>cc_buf := tl (cc_buf ch)\<rparr>) (cl_chans (co_client s) a))\<rparr>))"
| "perform (Incoming r pick) s =
     with_client s (and_then (read_message (co_client s) r pick) (\<lambda>(c, cleanup). Ran c))"
| "perform (ReadFails e) s = with_client s (failPending (co_client s) e)"
| "perform (OpenSubscription src) s = Ran (s\<lparr>co_client := snd (Subscribe (co_client s) src)\<rparr>)"
| "perform (EndSubscription src sub err unsubscribe) s =
     with_client s (and_then (unregisterSubscriptionLocked (co_client s) src sub err unsubscribe) (\<lambda>(c, cleanup). Ran c))"
| "perform (TakeEvent a) s =
     Ran (s\<lparr>co_client := (co_client s)\<lparr>cl_subs :=
       (cl_subs (co_client s))(a := map_option (\<lambda>sb. sb\<lparr>sb_events := tl (sb_events sb)\<rparr>) (cl_subs (co_client s) a))\<rparr>\<rparr>)"
| "perform (UnsubscribeDone src cleanup) s = with_client s (unsubscribe_done (co_client s) src cleanup)"
| "perform CloseClient s = Ran (s\<lparr>co_client := Close (co_client s)\<rparr>)"

subsection \<open>The invariant\<close>

definition open_chan :: "call_chan \<Rightarrow> bool" where
  "open_chan ch \<longleftrightarrow> cc_buf ch = [] \<and> \<not> cc_shut ch"

definition open_sub :: "subscription \<Rightarrow> bool" where
  "open_sub sb \<longleftrightarrow> \<not> sb_shut sb \<and> length (sb_events sb) \<le> event_capacity"

text \<open>A caller's channel holds at most the answer to its own id, and unless one will be sent, it has one or its end.\<close>

definition call_ok :: "client \<Rightarrow> 64 word \<times> nat \<Rightarrow> bool" where
  "call_ok c p \<longleftrightarrow>
     holds (\<lambda>ch. length (cc_buf ch) \<le> 1 \<and> list_all (\<lambda>r. rr_id r = fst p) (cc_buf ch) \<and>
         (p \<in> set (cl_pending c) \<or> cc_buf ch \<noteq> [] \<or> cc_shut ch))
       (cl_chans c) (snd p)"

definition calls_inv :: "nat \<Rightarrow> client \<Rightarrow> (64 word \<times> nat) list \<Rightarrow> bool" where
  "calls_inv n c calls \<longleftrightarrow>
     owned open_chan (cl_pending c) (cl_chans c) (cl_fresh c) \<and>
     unat (cl_nextID c) \<le> n \<and> set (cl_pending c) \<subseteq> set calls \<and>
     distinct (map fst calls) \<and> distinct (map snd calls) \<and>
     (\<forall>p \<in> set calls. fst p \<le> cl_nextID c \<and> snd p < cl_fresh c \<and> call_ok c p)"

definition subs_inv :: "client \<Rightarrow> bool" where
  "subs_inv c \<longleftrightarrow>
     owned open_sub (cl_subscriptions c) (cl_subs c) (cl_fresh c) \<and>
     owned Not (cl_unsubscribing c) (cl_cleanups c) (cl_fresh c) \<and>
     fst ` set (cl_subscriptions c) \<inter> fst ` set (cl_unsubscribing c) = {} \<and>
     (cl_readErr c \<noteq> None \<longrightarrow> cl_subscriptions c = [] \<and> cl_unsubscribing c = [])"

definition connection_inv :: "nat \<Rightarrow> connection \<Rightarrow> bool" where
  "connection_inv n s \<longleftrightarrow> calls_inv n (co_client s) (co_calls s) \<and> subs_inv (co_client s)"

lemma calls_invD:
  assumes "calls_inv n c calls"
  shows "owned open_chan (cl_pending c) (cl_chans c) (cl_fresh c)" "unat (cl_nextID c) \<le> n"
    "set (cl_pending c) \<subseteq> set calls" "distinct (map fst calls)" "distinct (map snd calls)"
    "\<And>p. p \<in> set calls \<Longrightarrow> fst p \<le> cl_nextID c \<and> snd p < cl_fresh c \<and> call_ok c p"
  using assms by (auto simp: calls_inv_def)

text \<open>What leaves the calls, respectively the subscriptions, alone.\<close>

definition same_calls :: "client \<Rightarrow> client \<Rightarrow> bool" where
  "same_calls c c' \<longleftrightarrow> cl_pending c' = cl_pending c \<and> cl_chans c' = cl_chans c \<and>
     cl_nextID c' = cl_nextID c \<and> cl_fresh c \<le> cl_fresh c'"

definition same_subs :: "client \<Rightarrow> client \<Rightarrow> bool" where
  "same_subs c c' \<longleftrightarrow> cl_subscriptions c' = cl_subscriptions c \<and> cl_subs c' = cl_subs c \<and>
     cl_unsubscribing c' = cl_unsubscribing c \<and> cl_cleanups c' = cl_cleanups c \<and>
     cl_readErr c' = cl_readErr c \<and> cl_fresh c \<le> cl_fresh c'"

lemma calls_inv_frame:
  assumes "calls_inv n c calls" and same: "same_calls c c'"
  shows "calls_inv (Suc n) c' calls"
proof -
  note inv = calls_invD [OF assms(1)]
  from same have assms: "c = c" "cl_pending c' = cl_pending c" "cl_chans c' = cl_chans c"
    "cl_nextID c' = cl_nextID c" "cl_fresh c \<le> cl_fresh c'"
    by (simp_all add: same_calls_def)
  have "call_ok c' = call_ok c" by (simp add: call_ok_def fun_eq_iff assms(2,3))
  then have "fst p \<le> cl_nextID c' \<and> snd p < cl_fresh c' \<and> call_ok c' p" if "p \<in> set calls" for p
    using inv(6) [OF that] assms(4,5) by simp
  moreover have "owned open_chan (cl_pending c') (cl_chans c') (cl_fresh c')"
    using owned_grow [OF inv(1) assms(5)] assms(2,3) by simp
  ultimately show ?thesis
    using inv(2-5) assms(2-5) by (simp add: calls_inv_def)
qed

lemma subs_inv_frame:
  assumes "subs_inv c" and "same_subs c c'"
  shows "subs_inv c'"
proof -
  from assms(2) have le: "cl_fresh c \<le> cl_fresh c'" by (simp add: same_subs_def)
  from assms(1) have "owned open_sub (cl_subscriptions c) (cl_subs c) (cl_fresh c')"
    and "owned Not (cl_unsubscribing c) (cl_cleanups c) (cl_fresh c')"
    by (auto simp: subs_inv_def intro: owned_grow [OF _ le])
  with assms show ?thesis by (simp add: subs_inv_def same_subs_def)
qed

subsection \<open>Calls keep the invariant\<close>

lemma call_start_inv:
  assumes inv: "calls_inv n c calls" and n: "n < 2 ^ 64 - 1" and start: "call_start c = Inr (i, a, c')"
  shows "calls_inv (Suc n) c' ((i, a) # calls)"
proof -
  note inv' = calls_invD [OF inv]
  from start have c': "i = cl_nextID c + 1" "a = cl_fresh c" "cl_nextID c' = i" "cl_fresh c' = Suc a"
      "cl_chans c' = (cl_chans c)(a \<mapsto> \<lparr>cc_buf = [], cc_shut = False\<rparr>)"
      "cl_pending c' = map_put i a (cl_pending c)"
    by (auto simp: call_start_def Let_def split: if_splits)
  from inv'(2) n have "unat (cl_nextID c) + 1 < 2 ^ 64" by simp
  then have i: "unat i = unat (cl_nextID c) + 1" unfolding c'(1) by (simp add: unat_word_ariths)
  then have lt: "cl_nextID c < i" by (simp add: word_less_nat_alt)
  have new: "i \<notin> fst ` set calls" and fresh: "a \<notin> snd ` set calls"
    using inv'(6) lt c'(2) by (fastforce simp: not_le [symmetric])+
  have "owned open_chan (cl_pending c') (cl_chans c') (cl_fresh c')"
    unfolding c' by (rule owned_put [OF inv'(1)]) (simp add: open_chan_def)
  moreover have "call_ok c' (i, a)" by (simp add: call_ok_def c'(5,6) map_put_def)
  moreover have "call_ok c' p" if "p \<in> set calls" for p
  proof -
    from that fresh new have "snd p \<noteq> a" "fst p \<noteq> i" by auto
    with inv'(6) [OF that] show ?thesis by (cases p) (simp add: call_ok_def c'(5,6) map_put_def set_map_del)
  qed
  moreover have "set (cl_pending c') \<subseteq> set ((i, a) # calls)"
    using inv'(3) by (auto simp: c'(6) map_put_def set_map_del)
  moreover have "fst p \<le> cl_nextID c' \<and> snd p < cl_fresh c'" if "p \<in> set calls" for p
    using inv'(6) [OF that] lt c'(2,3,4) by auto
  moreover have "unat (cl_nextID c') \<le> Suc n" using inv'(2) i c'(3) by simp
  moreover have "distinct (map fst ((i, a) # calls))" "distinct (map snd ((i, a) # calls))"
    using inv'(4,5) new fresh by auto
  ultimately show ?thesis
    by (simp add: calls_inv_def c'(2,3,4))
qed

text \<open>A call that is over: its id is forgotten and whatever its channel holds no longer matters.\<close>

lemma call_over_inv:
  assumes inv: "calls_inv n c calls" and call: "(i, a) \<in> set calls"
    and c': "cl_pending c' = map_del i (cl_pending c)" "cl_nextID c' = cl_nextID c" "cl_fresh c' = cl_fresh c"
      "cl_chans c' = (cl_chans c)(a := v)"
  shows "calls_inv (Suc n) c' (map_del i calls)"
proof -
  note inv' = calls_invD [OF inv]
  have other: "snd p \<noteq> a" if "p \<in> set (map_del i calls)" for p
  proof
    assume "snd p = a"
    with that call inv'(5) have "p = (i, a)"
      by (intro inj_onD [of snd "set calls" p "(i, a)"]) (auto simp: set_map_del distinct_map)
    with that show False by (simp add: set_map_del)
  qed
  have "call_ok c' p" if "p \<in> set (map_del i calls)" for p
    using other [OF that] inv'(6) [of p] that
    by (simp add: call_ok_def c' set_map_del)
  moreover have "owned open_chan (cl_pending c') (cl_chans c') (cl_fresh c')"
    unfolding c' using other inv'(3) by (intro owned_other owned_del inv'(1)) (force simp: set_map_del)
  moreover have "set (cl_pending c') \<subseteq> set (map_del i calls)"
    using inv'(3) by (auto simp: c' set_map_del)
  ultimately show ?thesis
    using inv'(2,4-6) by (simp add: calls_inv_def c' distinct_map_del set_map_del)
qed

lemma deliver_inv:
  assumes inv: "calls_inv n c calls"
  shows "\<exists>c'. deliver c r = Ran c' \<and> calls_inv (Suc n) c' calls \<and> same_subs c c'"
proof (cases "map_of (cl_pending c) (rr_id r)")
  case None
  then have "map_del (rr_id r) (cl_pending c) = cl_pending c"
    by (intro map_del_absent) (simp add: map_of_eq_None_iff)
  with None have "deliver c r = Ran c"
    by (simp add: deliver_def Let_def)
  moreover have "calls_inv (Suc n) c calls" "same_subs c c"
    by (auto intro: calls_inv_frame [OF inv] simp: same_calls_def same_subs_def)
  ultimately show ?thesis by blast
next
  case (Some a)
  note inv' = calls_invD [OF inv]
  from ownedD [OF inv'(1) Some] obtain ch where ch: "cl_chans c a = Some ch" "open_chan ch"
    by (auto elim: holdsE)
  let ?c = "c\<lparr>cl_pending := map_del (rr_id r) (cl_pending c), cl_chans := (cl_chans c)(a \<mapsto> ch\<lparr>cc_buf := [r]\<rparr>)\<rparr>"
  have "deliver c r = Ran ?c"
    using Some ch by (simp add: deliver_def Let_def send_answer_def open_chan_def)
  moreover have "calls_inv (Suc n) ?c calls"
  proof -
    have mine: "(rr_id r, a) \<in> set calls" using inv'(3) Some by (auto dest: map_of_SomeD)
    have "call_ok ?c p" if "p \<in> set calls" for p
    proof (cases "snd p = a")
      case True
      with that mine inv'(5) have "p = (rr_id r, a)"
        by (intro inj_onD [of snd "set calls" p "(rr_id r, a)"]) (auto simp: distinct_map)
      then show ?thesis by (simp add: call_ok_def)
    next
      case False
      then have "fst p \<noteq> rr_id r"
        using that mine inv'(4) inj_onD [of fst "set calls" p "(rr_id r, a)"] by (auto simp: distinct_map)
      with False inv'(6) [OF that] show ?thesis by (simp add: call_ok_def set_map_del)
    qed
    moreover have "owned open_chan (map_del (rr_id r) (cl_pending c)) ((cl_chans c)(a \<mapsto> ch\<lparr>cc_buf := [r]\<rparr>)) (cl_fresh c)"
      by (rule owned_release [OF inv'(1) Some])
    ultimately show ?thesis using inv'(2-6) by (auto simp: calls_inv_def set_map_del)
  qed
  moreover have "same_subs c ?c" by (simp add: same_subs_def)
  ultimately show ?thesis by blast
qed

subsection \<open>Subscriptions keep the invariant\<close>

lemma close_subscription_open [simp]:
  "h a = Some sb \<Longrightarrow> \<not> sb_shut sb \<Longrightarrow>
     close_subscription err a h = Ran (h(a \<mapsto> sb\<lparr>sb_shut := True, sb_err := Some err\<rparr>))"
  by (simp add: close_subscription_def)

lemma subs_invD:
  assumes "subs_inv c"
  shows "owned open_sub (cl_subscriptions c) (cl_subs c) (cl_fresh c)"
    "owned Not (cl_unsubscribing c) (cl_cleanups c) (cl_fresh c)"
    "fst ` set (cl_subscriptions c) \<inter> fst ` set (cl_unsubscribing c) = {}"
    "cl_readErr c \<noteq> None \<Longrightarrow> cl_subscriptions c = [] \<and> cl_unsubscribing c = []"
  using assms by (auto simp: subs_inv_def)

lemma unregister_inv:
  assumes inv: "subs_inv c"
  shows "\<exists>c' cleanup. unregisterSubscriptionLocked c src sub err unsubscribe = Ran (c', cleanup) \<and>
    subs_inv c' \<and> same_calls c c'"
proof (cases "map_of (cl_subscriptions c) src = Some sub")
  case False
  then have "unregisterSubscriptionLocked c src sub err unsubscribe = Ran (c, None)"
    by (simp add: unregisterSubscriptionLocked_def)
  with inv show ?thesis by (simp add: same_calls_def)
next
  case True
  note inv' = subs_invD [OF inv]
  from ownedD [OF inv'(1) True] obtain sb where sb: "cl_subs c sub = Some sb" "open_sub sb"
    by (auto elim: holdsE)
  let ?subs = "(cl_subs c)(sub \<mapsto> sb\<lparr>sb_shut := True, sb_err := Some err\<rparr>)"
  let ?subsc = "map_del src (cl_subscriptions c)"
  let ?unsub = "if unsubscribe then map_put src (cl_fresh c) (cl_unsubscribing c) else cl_unsubscribing c"
  let ?cleanups = "if unsubscribe then (cl_cleanups c)(cl_fresh c \<mapsto> False) else cl_cleanups c"
  let ?fresh = "if unsubscribe then Suc (cl_fresh c) else cl_fresh c"
  let ?c = "c\<lparr>cl_subscriptions := ?subsc, cl_subs := ?subs, cl_unsubscribing := ?unsub, cl_cleanups := ?cleanups,
    cl_fresh := ?fresh\<rparr>"
  have "unregisterSubscriptionLocked c src sub err unsubscribe =
      Ran (?c, if unsubscribe then Some (cl_fresh c) else None)"
    using True sb by (simp add: unregisterSubscriptionLocked_def Let_def open_sub_def)
  moreover have "subs_inv ?c"
  proof -
    have "owned open_sub ?subsc ?subs (cl_fresh c)" by (rule owned_release [OF inv'(1) True])
    then have "owned open_sub ?subsc ?subs ?fresh" by (rule owned_grow) simp
    moreover have "owned Not ?unsub ?cleanups ?fresh" using inv'(2) by (simp add: owned_put)
    moreover have "fst ` set ?subsc \<inter> fst ` set ?unsub = {}"
      using inv'(3) by (auto simp: set_map_del map_put_def)
    moreover have "cl_readErr c = None" using inv'(4) True by (cases "cl_readErr c") auto
    ultimately show ?thesis by (simp add: subs_inv_def)
  qed
  moreover have "same_calls c ?c" by (simp add: same_calls_def)
  ultimately show ?thesis by blast
qed

lemma dispatch_inv:
  assumes inv: "subs_inv c"
  shows "\<exists>c' cleanup. dispatchNotification c src params pick = Ran (c', cleanup) \<and> subs_inv c' \<and> same_calls c c'"
proof (cases "map_of (cl_subscriptions c) src")
  case None
  with inv show ?thesis by (simp add: dispatchNotification_def same_calls_def)
next
  case (Some a)
  note inv' = subs_invD [OF inv]
  from ownedD [OF inv'(1) Some] obtain sb where sb: "cl_subs c a = Some sb" "open_sub sb"
    by (auto elim: holdsE)
  show ?thesis
  proof (cases "length (sb_events sb) < event_capacity")
    case True
    let ?c = "c\<lparr>cl_subs := (cl_subs c)(a \<mapsto> sb\<lparr>sb_events := sb_events sb @ [params]\<rparr>)\<rparr>"
    have "open_sub (sb\<lparr>sb_events := sb_events sb @ [params]\<rparr>)"
      using sb(2) True by (simp add: open_sub_def)
    with inv have "subs_inv ?c" by (simp add: subs_inv_def owned_update)
    moreover have "dispatchNotification c src params pick = Ran (?c, None)"
      using Some sb True by (simp add: dispatchNotification_def open_sub_def)
    ultimately show ?thesis by (simp add: same_calls_def)
  next
    case False
    then have "dispatchNotification c src params pick =
        unregisterSubscriptionLocked c src a errSubscriptionOverflow True"
      using Some sb by (simp add: dispatchNotification_def open_sub_def)
    with unregister_inv [OF inv] show ?thesis by simp
  qed
qed

lemma Subscribe_inv:
  assumes inv: "subs_inv c"
  shows "subs_inv (snd (Subscribe c src)) \<and> same_calls c (snd (Subscribe c src))"
proof (cases "\<exists>a. fst (Subscribe c src) = Registered a")
  case False
  then have "snd (Subscribe c src) = c"
    by (auto simp: Subscribe_def Let_def split: option.splits)
  with inv show ?thesis by (simp add: same_calls_def)
next
  case True
  let ?c = "c\<lparr>cl_subs := (cl_subs c)(cl_fresh c \<mapsto> \<lparr>sb_events = [], sb_shut = False, sb_err = None\<rparr>),
      cl_subscriptions := map_put src (cl_fresh c) (cl_subscriptions c), cl_fresh := Suc (cl_fresh c)\<rparr>"
  from True have c: "snd (Subscribe c src) = ?c" and alive: "cl_readErr c = None"
      and free: "map_of (cl_unsubscribing c) src = None"
    by (auto simp: Subscribe_def Let_def split: if_splits option.splits)
  note inv' = subs_invD [OF inv]
  have "owned open_sub (cl_subscriptions ?c) (cl_subs ?c) (cl_fresh ?c)"
    using owned_put [OF inv'(1)] by (simp add: open_sub_def)
  moreover have "owned Not (cl_unsubscribing ?c) (cl_cleanups ?c) (cl_fresh ?c)"
    using owned_grow [OF inv'(2)] by simp
  moreover have "fst ` set (cl_subscriptions ?c) \<inter> fst ` set (cl_unsubscribing ?c) = {}"
    using inv'(3) free by (auto simp: map_put_def set_map_del map_of_eq_None_iff)
  ultimately show ?thesis unfolding c by (simp add: subs_inv_def same_calls_def alive)
qed

lemma unsubscribe_done_inv:
  assumes inv: "subs_inv c"
  shows "\<exists>c'. unsubscribe_done c src cleanup = Ran c' \<and> subs_inv c' \<and> same_calls c c'"
proof (cases "map_of (cl_unsubscribing c) src = Some cleanup")
  case False
  with inv show ?thesis by (simp add: unsubscribe_done_def same_calls_def)
next
  case True
  note inv' = subs_invD [OF inv]
  from ownedD [OF inv'(2) True] have "cl_cleanups c cleanup = Some False" by (auto elim: holdsE)
  moreover have "owned Not (map_del src (cl_unsubscribing c)) ((cl_cleanups c)(cleanup \<mapsto> True)) (cl_fresh c)"
    by (rule owned_release [OF inv'(2) True])
  ultimately show ?thesis
    using True inv by (auto simp: unsubscribe_done_def close_cleanup_def subs_inv_def same_calls_def set_map_del)
qed

subsection \<open>The connection dies\<close>

text \<open>Under the invariant the three loops of \<^verbatim>\<open>failPending\<close> close each channel exactly once.\<close>

definition failed :: "client \<Rightarrow> string \<Rightarrow> client" where
  "failed c e = c\<lparr>cl_readErr := Some e, cl_pending := [],
     cl_chans := (\<lambda>a. if a \<in> snd ` set (cl_pending c)
       then map_option (\<lambda>ch. ch\<lparr>cc_shut := True\<rparr>) (cl_chans c a) else cl_chans c a),
     cl_subscriptions := [],
     cl_subs := (\<lambda>a. if a \<in> snd ` set (cl_subscriptions c)
       then map_option (\<lambda>sb. sb\<lparr>sb_shut := True, sb_err := Some (interrupted_by e)\<rparr>) (cl_subs c a) else cl_subs c a),
     cl_unsubscribing := [],
     cl_cleanups := (\<lambda>a. if a \<in> snd ` set (cl_unsubscribing c)
       then map_option (\<lambda>b. True) (cl_cleanups c a) else cl_cleanups c a)\<rparr>"

lemma failPending_failed:
  assumes "calls_inv n c calls" and "subs_inv c"
  shows "failPending c e = Ran (failed c e)"
proof -
  have "close_all close_chan (cl_pending c) (cl_chans c) = Ran (cl_chans (failed c e))"
    by (subst close_all_owned [where P = open_chan and g = "\<lambda>ch. ch\<lparr>cc_shut := True\<rparr>", OF _ calls_invD(1) [OF assms(1)]])
      (auto simp: failed_def close_chan_def open_chan_def)
  moreover have "close_all (close_subscription (interrupted_by e)) (cl_subscriptions c) (cl_subs c) = Ran (cl_subs (failed c e))"
    by (subst close_all_owned [where P = open_sub and g = "\<lambda>sb. sb\<lparr>sb_shut := True, sb_err := Some (interrupted_by e)\<rparr>",
            OF _ subs_invD(1) [OF assms(2)]])
      (auto simp: failed_def open_sub_def)
  moreover have "close_all close_cleanup (cl_unsubscribing c) (cl_cleanups c) = Ran (cl_cleanups (failed c e))"
    by (subst close_all_owned [where P = Not and g = "\<lambda>b. True", OF _ subs_invD(2) [OF assms(2)]])
      (auto simp: failed_def close_cleanup_def)
  ultimately show ?thesis by (simp add: failPending_def failed_def)
qed

lemma failed_inv:
  assumes inv: "calls_inv n c calls" and "subs_inv c"
  shows "calls_inv (Suc n) (failed c e) calls \<and> subs_inv (failed c e)"
proof -
  note inv' = calls_invD [OF inv]
  have "call_ok (failed c e) p" if "p \<in> set calls" for p
    using inv'(6) [OF that] by (force simp: call_ok_def failed_def holds_def split: option.splits)
  with inv' show ?thesis
    by (auto simp: calls_inv_def subs_inv_def) (simp_all add: failed_def)
qed

text \<open>Nobody is left waiting: each caller in flight has its answer or the end of its channel to read.\<close>

lemma failed_wakes:
  assumes inv: "calls_inv n c calls" and "(i, a) \<in> set calls"
  shows "holds (\<lambda>ch. channel_read ch \<noteq> None) (cl_chans (failed c e)) a"
  using calls_invD(6) [OF inv assms(2)]
  by (force simp: call_ok_def failed_def holds_def channel_read_def split: option.splits list.splits)

subsection \<open>Every step keeps the invariant\<close>

lemma connection_invI: "calls_inv n c calls \<Longrightarrow> subs_inv c \<Longrightarrow> co_client s = c \<Longrightarrow> co_calls s = calls \<Longrightarrow> connection_inv n s"
  by (simp add: connection_inv_def)

lemma read_message_inv:
  assumes "connection_inv n s"
  shows "\<exists>c' cleanup. read_message (co_client s) r pick = Ran (c', cleanup) \<and>
    calls_inv (Suc n) c' (co_calls s) \<and> subs_inv c'"
proof -
  from assms have inv: "calls_inv n (co_client s) (co_calls s)" "subs_inv (co_client s)"
    by (simp_all add: connection_inv_def)
  have idle: "calls_inv (Suc n) (co_client s) (co_calls s)"
    by (rule calls_inv_frame [OF inv(1)]) (simp add: same_calls_def)
  have dispatch: "\<exists>c' cleanup. dispatchNotification (co_client s) name params pick = Ran (c', cleanup) \<and>
      calls_inv (Suc n) c' (co_calls s) \<and> subs_inv c'" for name params
    using dispatch_inv [OF inv(2)] calls_inv_frame [OF inv(1)] by blast
  obtain c' where "deliver (co_client s) r = Ran c'" "calls_inv (Suc n) c' (co_calls s)" "subs_inv c'"
    using deliver_inv [OF inv(1)] subs_inv_frame [OF inv(2)] by blast
  then show ?thesis
    using idle inv(2) dispatch by (simp add: read_message_def split: option.splits)
qed

text \<open>One lemma for each step of a caller or reader that changes more than one part of the state.\<close>

lemma start_call_step:
  assumes "calls_inv n (co_client s) (co_calls s)" "subs_inv (co_client s)" and "n < 2 ^ 64 - 1"
    and idle: "connection_inv (Suc n) s"
  shows "\<exists>s'. perform StartCall s = Ran s' \<and> connection_inv (Suc n) s'"
proof (cases "call_start (co_client s)")
  case (Inl err)
  with idle show ?thesis by simp
next
  case (Inr p)
  obtain i a c where p: "p = (i, a, c)" by (cases p) auto
  from Inr p have "same_subs (co_client s) c"
    by (auto simp: call_start_def Let_def same_subs_def split: if_splits)
  with Inr p call_start_inv [OF assms(1,3)] subs_inv_frame [OF assms(2)] show ?thesis
    by (simp add: connection_inv_def)
qed

lemma give_up_step:
  assumes "calls_inv n (co_client s) (co_calls s)" "subs_inv (co_client s)" and "(i, a) \<in> set (co_calls s)"
  shows "\<exists>s'. perform (GiveUp i a) s = Ran s' \<and> connection_inv (Suc n) s'"
proof -
  let ?c = "forget (co_client s) i"
  have "calls_inv (Suc n) ?c (map_del i (co_calls s))"
    by (rule call_over_inv [OF assms(1), where a = a and v = "cl_chans (co_client s) a"])
      (use assms(3) in \<open>simp_all add: forget_def\<close>)
  moreover have "subs_inv ?c" by (rule subs_inv_frame [OF assms(2)]) (simp add: same_subs_def forget_def)
  ultimately show ?thesis by (simp add: call_over_def connection_inv_def)
qed

lemma answered_not_pending:
  assumes "calls_inv n c calls" and "(i, a) \<in> set calls" and ch: "cl_chans c a = Some ch" "channel_read ch \<noteq> None"
  shows "i \<notin> fst ` set (cl_pending c)"
proof
  assume "i \<in> fst ` set (cl_pending c)"
  then obtain b where b: "(i, b) \<in> set (cl_pending c)" by auto
  note inv = calls_invD [OF assms(1)]
  from b inv(3) have "(i, b) \<in> set calls" by blast
  then have "b = a" by (rule eq_key_imp_eq_value [OF inv(4) _ assms(2)])
  with owned_in [OF inv(1) b] ch show False by (auto simp: holds_def open_chan_def channel_read_def)
qed

lemma take_answer_step:
  assumes "calls_inv n (co_client s) (co_calls s)" "subs_inv (co_client s)" and en: "enabled (TakeAnswer i a) s"
  shows "\<exists>s'. perform (TakeAnswer i a) s = Ran s' \<and> connection_inv (Suc n) s'"
proof -
  from en obtain ch where call: "(i, a) \<in> set (co_calls s)"
      and ch: "cl_chans (co_client s) a = Some ch" "channel_read ch \<noteq> None"
    by (auto split: option.splits)
  note gone = answered_not_pending [OF assms(1) call ch]
  let ?c = "(co_client s)\<lparr>cl_chans := (cl_chans (co_client s))(a := map_option (\<lambda>ch. ch\<lparr>cc_buf := tl (cc_buf ch)\<rparr>)
    (cl_chans (co_client s) a))\<rparr>"
  have "calls_inv (Suc n) ?c (map_del i (co_calls s))"
    by (rule call_over_inv [OF assms(1) call]) (simp_all add: map_del_absent [OF gone])
  moreover have "subs_inv ?c" by (rule subs_inv_frame [OF assms(2)]) (simp add: same_subs_def)
  ultimately show ?thesis by (simp add: call_over_def connection_inv_def)
qed

lemma take_event_step:
  assumes "calls_inv n (co_client s) (co_calls s)" "subs_inv (co_client s)" and en: "enabled (TakeEvent a) s"
  shows "\<exists>s'. perform (TakeEvent a) s = Ran s' \<and> connection_inv (Suc n) s'"
proof -
  from en obtain sb where sb: "cl_subs (co_client s) a = Some sb" by (auto split: option.splits)
  let ?c = "(co_client s)\<lparr>cl_subs := (cl_subs (co_client s))(a \<mapsto> sb\<lparr>sb_events := tl (sb_events sb)\<rparr>)\<rparr>"
  note subs = subs_invD [OF assms(2)]
  have "owned open_sub (cl_subscriptions ?c) (cl_subs ?c) (cl_fresh ?c)"
  proof (cases "open_sub sb")
    case True
    then have "open_sub (sb\<lparr>sb_events := tl (sb_events sb)\<rparr>)" by (auto simp: open_sub_def)
    with owned_update [OF subs(1)] show ?thesis by simp
  next
    case False
    with sb have "a \<notin> snd ` set (cl_subscriptions (co_client s))"
      using owned_in [OF subs(1)] by (force simp: holds_def)
    with owned_other [OF subs(1)] show ?thesis by simp
  qed
  with assms(2) have "subs_inv ?c" by (simp add: subs_inv_def)
  moreover have "calls_inv (Suc n) ?c (co_calls s)"
    by (rule calls_inv_frame [OF assms(1)]) (simp add: same_calls_def)
  ultimately show ?thesis using sb by (simp add: connection_inv_def)
qed

lemma connection_step:
  assumes inv: "connection_inv n s" and n: "n < 2 ^ 64 - 1" and en: "enabled e s"
  shows "\<exists>s'. perform e s = Ran s' \<and> connection_inv (Suc n) s'"
proof -
  from inv have calls: "calls_inv n (co_client s) (co_calls s)" and subs: "subs_inv (co_client s)"
    by (simp_all add: connection_inv_def)
  note frame = calls_inv_frame [OF calls] subs_inv_frame [OF subs]
  have idle: "connection_inv (Suc n) s"
    by (rule connection_invI [OF _ subs refl refl], rule frame(1)) (simp add: same_calls_def)
  show ?thesis
  proof (cases e)
    case StartCall
    with start_call_step [OF calls subs n idle] show ?thesis by simp
  next
    case (GiveUp i a)
    with give_up_step [OF calls subs] en show ?thesis by simp
  next
    case (TakeAnswer i a)
    with take_answer_step [OF calls subs] en show ?thesis by blast
  next
    case (Incoming r pick)
    with read_message_inv [OF inv, of r pick] show ?thesis by (auto simp: with_client_def connection_inv_def)
  next
    case (ReadFails err)
    with failPending_failed [OF calls subs] failed_inv [OF calls subs] show ?thesis
      by (simp add: with_client_def connection_inv_def)
  next
    case (OpenSubscription src)
    with Subscribe_inv [OF subs, of src] frame(1) show ?thesis by (simp add: connection_inv_def)
  next
    case (EndSubscription src sub err unsubscribe)
    with unregister_inv [OF subs, of src sub err unsubscribe] frame(1) show ?thesis
      by (auto simp: with_client_def connection_inv_def)
  next
    case (TakeEvent a)
    with take_event_step [OF calls subs] en show ?thesis by blast
  next
    case (UnsubscribeDone src cleanup)
    with unsubscribe_done_inv [OF subs, of src cleanup] frame(1) show ?thesis
      by (auto simp: with_client_def connection_inv_def)
  next
    case CloseClient
    have "same_calls (co_client s) (Close (co_client s))" "same_subs (co_client s) (Close (co_client s))"
      by (simp_all add: Close_def same_calls_def same_subs_def)
    with CloseClient frame show ?thesis by (simp add: connection_inv_def)
  qed
qed

interpretation connection: machine enabled perform connection_inv connected "2 ^ 64 - 1"
proof unfold_locales
  show "connection_inv 0 connected"
    by (simp add: connection_inv_def calls_inv_def subs_inv_def connected_def Dial_def)
qed (rule connection_step)

subsection \<open>What a reachable connection guarantees\<close>

lemma reachable_calls:
  assumes "runs enabled perform n connected s" and "n \<le> 2 ^ 64 - 1"
  shows "calls_inv n (co_client s) (co_calls s)" "subs_inv (co_client s)"
  using connection.reachable_inv [OF assms] by (simp_all add: connection_inv_def)

text \<open>
  A connection with two callers, the second answered first, and a subscription.
\<close>

definition plain_answer :: "64 word \<Rightarrow> string \<Rightarrow> rpc_response" where
  "plain_answer i t = \<lparr>rr_id = i, rr_result = Some (JStr t), rr_error = None, rr_method = [], rr_params = None\<rparr>"

definition busy_events :: "event list" where
  "busy_events = [StartCall, StartCall, Incoming (plain_answer 2 ''second'') False, OpenSubscription ''app.stats'']"

definition busy_connection :: connection where
  "busy_connection = (case run_events enabled perform busy_events connected of Ran s \<Rightarrow> s | _ \<Rightarrow> connected)"

lemma busy_connection_eq:
  "run_events enabled perform busy_events connected = Ran busy_connection"
  "busy_connection =
     \<lparr>co_client = \<lparr>cl_nextID = 2, cl_pending = [(1, 0)], cl_subscriptions = [(''app.stats'', 2)], cl_unsubscribing = [],
        cl_closed = False, cl_readErr = None,
        cl_chans = [0 \<mapsto> \<lparr>cc_buf = [], cc_shut = False\<rparr>, 1 \<mapsto> \<lparr>cc_buf = [plain_answer 2 ''second''], cc_shut = False\<rparr>],
        cl_subs = [2 \<mapsto> \<lparr>sb_events = [], sb_shut = False, sb_err = None\<rparr>], cl_cleanups = Map.empty, cl_fresh = 3\<rparr>,
      co_calls = [(2, 1), (1, 0)]\<rparr>"
  by (simp_all add: busy_connection_def busy_events_def connected_def Dial_def call_start_def Let_def map_put_def map_del_def
      with_client_def read_message_def deliver_def send_answer_def Subscribe_def plain_answer_def collectionUpdateMethod_def
      eval_nat_numeral)

lemma busy_reachable: "runs enabled perform 4 connected busy_connection"
  using runs_of_events [OF busy_connection_eq(1)] by (simp add: busy_events_def eval_nat_numeral)

text \<open>
  C8. No interleaving of calls, answers, subscriptions, notifications, failures and closing makes the connection panic on
  a channel or block its read loop: in every state reachable in fewer than \<open>2 ^ 64 - 1\<close> steps, each
  step that can be taken runs to its end. The bound is that of the 64-bit request id.
\<close>

theorem connection_never_breaks:
  assumes "runs enabled perform n connected s" and "n < 2 ^ 64 - 1" and "enabled e s"
  shows "\<exists>s'. perform e s = Ran s'"
  using connection.reachable_proceeds [OF assms] by blast

lemma connection_never_breaks_witness:
  "\<exists>s'. perform (Incoming (plain_answer 1 ''first'') False) busy_connection = Ran s'"
  by (rule connection_never_breaks [OF busy_reachable]) (simp_all add: busy_connection_eq(2))

text \<open>
  Answers are matched to callers by id, whatever their order of arrival: no two calls in flight share an id or a
  channel, and an answer a caller reads from its channel carries the id of its own request.
\<close>

theorem answers_reach_their_caller:
  assumes "runs enabled perform n connected s" and "n \<le> 2 ^ 64 - 1"
    and "(i, a) \<in> set (co_calls s)" and "cl_chans (co_client s) a = Some ch" and "channel_read ch = Some (Some r)"
  shows "rr_id r = i \<and> distinct (map fst (co_calls s)) \<and> distinct (map snd (co_calls s))"
proof -
  note inv = calls_invD [OF reachable_calls(1) [OF assms(1,2)]]
  from inv(6) [OF assms(3)] assms(4) have "list_all (\<lambda>r. rr_id r = i) (cc_buf ch)"
    by (simp add: call_ok_def holds_def)
  with assms(5) inv(4,5) show ?thesis
    by (auto simp: channel_read_def split: list.splits if_splits)
qed

lemma answers_reach_their_caller_witness:
  "rr_id (plain_answer 2 ''second'') = 2 \<and> distinct (map fst (co_calls busy_connection)) \<and>
     distinct (map snd (co_calls busy_connection))"
  by (rule answers_reach_their_caller [OF busy_reachable, of 2 1 "\<lparr>cc_buf = [plain_answer 2 ''second''], cc_shut = False\<rparr>"])
    (simp_all add: busy_connection_eq(2) channel_read_def)

text \<open>
  C21. A connection that dies leaves nobody waiting: every caller in flight can read its answer or, failing that, the end of its
  channel, which it reports as an interruption; every open subscription ends with the interruption as its
  error; and the client is no longer alive and opens no further subscription.
\<close>

theorem failure_wakes_everyone:
  assumes "runs enabled perform n connected s" and "n < 2 ^ 64 - 1" and "cl_readErr (co_client s) = None"
  shows "\<exists>s'. perform (ReadFails e) s = Ran s' \<and>
    list_all (\<lambda>(i, a). enabled (TakeAnswer i a) s') (co_calls s) \<and> co_calls s' = co_calls s \<and>
    list_all (\<lambda>(src, a). holds (\<lambda>sb. sb_shut sb \<and> sb_err sb = Some (interrupted_by e)) (cl_subs (co_client s')) a)
      (cl_subscriptions (co_client s)) \<and>
    \<not> Alive (co_client s') \<and> (\<exists>err. fst (Subscribe (co_client s') src) = Refused err)"
proof -
  have "n \<le> 2 ^ 64 - 1" using assms(2) by simp
  note inv = reachable_calls [OF assms(1) this]
  let ?s = "s\<lparr>co_client := failed (co_client s) e\<rparr>"
  have "perform (ReadFails e) s = Ran ?s"
    by (simp add: with_client_def failPending_failed [OF inv])
  moreover have "enabled (TakeAnswer i a) ?s" if "(i, a) \<in> set (co_calls s)" for i a
    using failed_wakes [OF inv(1) that, of e] that by (simp add: holds_def split: option.splits)
  then have "list_all (\<lambda>(i, a). enabled (TakeAnswer i a) ?s) (co_calls s)"
    by (simp only: list_all_iff) blast
  moreover have streams: "holds (\<lambda>sb. sb_shut sb \<and> sb_err sb = Some (interrupted_by e)) (cl_subs (co_client ?s)) a"
    if "(k, a) \<in> set (cl_subscriptions (co_client s))" for k a
    using owned_in [OF subs_invD(1) [OF inv(2)] that] that
    by (force simp: holds_def failed_def split: option.splits)
  then have "list_all (\<lambda>(src, a). holds (\<lambda>sb. sb_shut sb \<and> sb_err sb = Some (interrupted_by e)) (cl_subs (co_client ?s)) a)
      (cl_subscriptions (co_client s))"
    by (simp only: list_all_iff) blast
  moreover have "\<not> Alive (co_client ?s)" "\<exists>err. fst (Subscribe (co_client ?s) src) = Refused err" "co_calls ?s = co_calls s"
    by (simp_all add: Alive_def Subscribe_def failed_def)
  ultimately show ?thesis by blast
qed

lemma failure_wakes_everyone_witness:
  "\<exists>s'. perform (ReadFails ''reset'') busy_connection = Ran s' \<and>
    list_all (\<lambda>(i, a). enabled (TakeAnswer i a) s') (co_calls busy_connection) \<and> co_calls s' = co_calls busy_connection \<and>
    list_all (\<lambda>(src, a). holds (\<lambda>sb. sb_shut sb \<and> sb_err sb = Some (interrupted_by ''reset'')) (cl_subs (co_client s')) a)
      (cl_subscriptions (co_client busy_connection)) \<and>
    \<not> Alive (co_client s') \<and> (\<exists>err. fst (Subscribe (co_client s') ''app.stats'') = Refused err)"
  by (rule failure_wakes_everyone [OF busy_reachable]) (simp_all add: busy_connection_eq(2))

text \<open>
  C22. A source has one stream at a time and its reader never stalls the connection. A registered subscription is open, holds at most 64
  undelivered events and is not being unsubscribed. A notification is appended in order while there is room;
  when there is none the stream ends with the overflow error, keeping the events already queued, and the source cannot
  be subscribed again before its unsubscribe is over.
\<close>

theorem subscription_streams:
  assumes "runs enabled perform n connected s" and "n \<le> 2 ^ 64 - 1"
    and c: "c = co_client s" and reg: "map_of (cl_subscriptions c) src = Some a"
  shows "\<exists>sb. cl_subs c a = Some sb \<and> \<not> sb_shut sb \<and> length (sb_events sb) \<le> 64 \<and> map_of (cl_unsubscribing c) src = None \<and>
    (\<exists>c' cleanup. dispatchNotification c src params pick = Ran (c', cleanup) \<and>
       (if length (sb_events sb) < 64
        then map_of (cl_subscriptions c') src = Some a \<and> cl_subs c' a = Some (sb\<lparr>sb_events := sb_events sb @ [params]\<rparr>)
        else cl_subs c' a = Some (sb\<lparr>sb_shut := True, sb_err := Some errSubscriptionOverflow\<rparr>) \<and>
          map_of (cl_subscriptions c') src = None \<and> map_of (cl_unsubscribing c') src = cleanup \<and> cleanup \<noteq> None \<and>
          (\<forall>sub. fst (Subscribe c' src) \<noteq> Registered sub)))"
proof -
  have "subs_inv c" unfolding c by (rule reachable_calls(2) [OF assms(1,2)])
  note inv = subs_invD [OF this]
  from ownedD [OF inv(1) reg] obtain sb where sb: "cl_subs c a = Some sb" "open_sub sb"
    by (auto elim: holdsE)
  have free: "map_of (cl_unsubscribing c) src = None"
    using inv(3) reg by (force simp: map_of_eq_None_iff dest: map_of_SomeD)
  show ?thesis
  proof (cases "length (sb_events sb) < 64")
    case True
    with sb reg free show ?thesis
      by (simp add: dispatchNotification_def open_sub_def event_capacity_def)
  next
    case False
    with sb reg free show ?thesis
      by (simp add: dispatchNotification_def open_sub_def event_capacity_def unregisterSubscriptionLocked_def Let_def
          map_of_map_del map_of_map_put Subscribe_def split: option.splits)
  qed
qed

lemma subscription_streams_witness:
  "\<exists>sb. cl_subs (co_client busy_connection) 2 = Some sb \<and> \<not> sb_shut sb \<and> length (sb_events sb) \<le> 64"
  using subscription_streams [OF busy_reachable _ refl, of "''app.stats''" 2] by (auto simp: busy_connection_eq(2))

text \<open>
  What \<^verbatim>\<open>Call\<close> does not check: once the read loop has ended, a call whose request can still be written is entered among the
  waiting callers although nothing will ever answer it or close its channel, so only its own context ends it.
\<close>

definition unanswerable :: "nat \<Rightarrow> connection \<Rightarrow> bool" where
  "unanswerable a s \<longleftrightarrow> cl_readErr (co_client s) \<noteq> None \<and> a < cl_fresh (co_client s) \<and>
     holds open_chan (cl_chans (co_client s)) a"

lemma unregister_chans:
  "unregisterSubscriptionLocked c src sub err u = Ran (c', k) \<Longrightarrow>
     cl_readErr c' = cl_readErr c \<and> cl_chans c' = cl_chans c \<and> cl_fresh c \<le> cl_fresh c'"
  by (auto simp: unregisterSubscriptionLocked_def and_then_Ran Let_def split: if_splits)

lemma unanswerable_step:
  assumes "unanswerable a s" and "enabled e s" and "perform e s = Ran s'"
  shows "unanswerable a s'"
proof (cases e)
  case (TakeAnswer i b)
  with assms have "b \<noteq> a"
    by (auto simp: unanswerable_def holds_def open_chan_def channel_read_def split: option.splits)
  with TakeAnswer assms show ?thesis by (auto simp: unanswerable_def call_over_def)
next
  case (EndSubscription src sub err u)
  with assms show ?thesis
    by (auto simp: unanswerable_def with_client_def and_then_Ran dest!: unregister_chans)
next
  case (UnsubscribeDone src cleanup)
  with assms show ?thesis
    by (auto simp: unanswerable_def with_client_def and_then_Ran unsubscribe_done_def split: if_splits)
next
  case StartCall
  with assms show ?thesis
    by (auto simp: unanswerable_def call_start_def Let_def split: if_splits)
qed (use assms in \<open>auto simp: unanswerable_def call_over_def forget_def Close_def Subscribe_def Let_def split: option.splits if_splits\<close>)

lemma call_after_failure_waits:
  assumes dead: "cl_readErr (co_client s) = Some e" and start: "call_start (co_client s) = Inr (i, a, c)"
    and s': "perform StartCall s = Ran s'" and run: "runs enabled perform m s' t"
  shows "\<not> enabled (TakeAnswer i a) t"
proof -
  have "unanswerable a s'"
    using dead start s' by (auto simp: unanswerable_def call_start_def Let_def open_chan_def split: if_splits)
  with run have "unanswerable a t"
    by (induction rule: runs.induct) (auto intro: unanswerable_step)
  then show ?thesis by (auto simp: unanswerable_def holds_def open_chan_def channel_read_def split: option.splits)
qed

end
