(* ===== verification/Call_Mailbox.thy ===== *)
theory Call_Mailbox
  imports Client
begin

section \<open>What the connection promises its callers\<close>

text \<open>
  The abstract specification of \<^verbatim>\<open>Call\<close> and the read loop of \<^verbatim>\<open>internal/truenas/client.go\<close>, without channels, the table
  of waiting callers or subscriptions: a mailbox that holds, for each request in flight, whether it waits, has been
  answered, or was interrupted. The connection of the theory \<open>Client\<close> refines it, step by step.
\<close>

subsection \<open>The mailbox\<close>

datatype mail = Waiting | Answered rpc_response | Interrupted

record mailbox =
  mb_next :: "64 word"
  mb_closed :: bool
  mb_reading :: bool
  mb_calls :: "64 word \<rightharpoonup> mail"

definition empty_mailbox :: mailbox where
  "empty_mailbox = \<lparr>mb_next = 0, mb_closed = False, mb_reading = True, mb_calls = Map.empty\<rparr>"

text \<open>A message that is neither a notification nor another message the target initiates.\<close>

definition is_answer :: "rpc_response \<Rightarrow> bool" where
  "is_answer r \<longleftrightarrow> \<not> (rr_id r = 0 \<and> rr_method r \<noteq> [])"

fun mailbox_step :: "event \<Rightarrow> mailbox \<Rightarrow> mailbox" where
  "mailbox_step StartCall m =
     (if mb_closed m then m
      else m\<lparr>mb_next := mb_next m + 1, mb_calls := (mb_calls m)(mb_next m + 1 \<mapsto> Waiting)\<rparr>)"
| "mailbox_step (GiveUp i a) m = m\<lparr>mb_calls := (mb_calls m)(i := None)\<rparr>"
| "mailbox_step (TakeAnswer i a) m = m\<lparr>mb_calls := (mb_calls m)(i := None)\<rparr>"
| "mailbox_step (Incoming r pick) m =
     (if is_answer r \<and> mb_calls m (rr_id r) = Some Waiting
      then m\<lparr>mb_calls := (mb_calls m)(rr_id r \<mapsto> Answered r)\<rparr> else m)"
| "mailbox_step (ReadFails e) m =
     m\<lparr>mb_reading := False,
       mb_calls := (\<lambda>i. map_option (\<lambda>x. if x = Waiting then Interrupted else x) (mb_calls m i))\<rparr>"
| "mailbox_step CloseClient m = m\<lparr>mb_closed := True\<rparr>"
| "mailbox_step _ m = m"

text \<open>When the caller of a request has something to read.\<close>

definition mail_ready :: "mailbox \<Rightarrow> 64 word \<Rightarrow> bool" where
  "mail_ready m i \<longleftrightarrow> (case mb_calls m i of None \<Rightarrow> False | Some x \<Rightarrow> x \<noteq> Waiting)"

subsection \<open>The abstraction\<close>

definition mail_of :: "(nat \<rightharpoonup> call_chan) \<Rightarrow> nat \<Rightarrow> mail" where
  "mail_of chans a =
     (case chans a of
        None \<Rightarrow> Interrupted
      | Some ch \<Rightarrow> (case cc_buf ch of r # rs \<Rightarrow> Answered r | [] \<Rightarrow> if cc_shut ch then Interrupted else Waiting))"

definition mailbox_of :: "connection \<Rightarrow> mailbox" where
  "mailbox_of s =
     \<lparr>mb_next = cl_nextID (co_client s), mb_closed = cl_closed (co_client s),
      mb_reading = (cl_readErr (co_client s) = None),
      mb_calls = (\<lambda>i. map_option (mail_of (cl_chans (co_client s))) (map_of (co_calls s) i))\<rparr>"

lemma mail_of_cong: "chans' a = chans a \<Longrightarrow> mail_of chans' a = mail_of chans a"
  by (simp add: mail_of_def)

lemma mailbox_same:
  assumes "cl_nextID c' = cl_nextID (co_client s)" "cl_closed c' = cl_closed (co_client s)"
    "cl_readErr c' = cl_readErr (co_client s)" "cl_chans c' = cl_chans (co_client s)"
  shows "mailbox_of (s\<lparr>co_client := c'\<rparr>) = mailbox_of s"
  using assms by (simp add: mailbox_of_def)

subsection \<open>Steps that leave the callers alone\<close>

definition same_mail :: "client \<Rightarrow> client \<Rightarrow> bool" where
  "same_mail c c' \<longleftrightarrow> cl_nextID c' = cl_nextID c \<and> cl_closed c' = cl_closed c \<and> cl_readErr c' = cl_readErr c \<and>
     cl_chans c' = cl_chans c"

lemma same_mailbox: "same_mail (co_client s) c' \<Longrightarrow> mailbox_of (s\<lparr>co_client := c'\<rparr>) = mailbox_of s"
  by (rule mailbox_same) (simp_all add: same_mail_def)

lemma unregister_same_mail:
  "unregisterSubscriptionLocked c src sub err u = Ran (c', k) \<Longrightarrow> same_mail c c'"
  by (auto simp: unregisterSubscriptionLocked_def and_then_Ran Let_def same_mail_def split: if_splits)

lemma dispatch_same_mail: "dispatchNotification c src params pick = Ran (c', k) \<Longrightarrow> same_mail c c'"
  by (auto simp: dispatchNotification_def same_mail_def dest: unregister_same_mail [unfolded same_mail_def]
      split: option.splits if_splits)

lemma Subscribe_same_mail: "same_mail c (snd (Subscribe c src))"
  by (simp add: Subscribe_def Let_def same_mail_def split: option.split)

lemma unsubscribe_same_mail: "unsubscribe_done c src k = Ran c' \<Longrightarrow> same_mail c c'"
  by (auto simp: unsubscribe_done_def and_then_Ran same_mail_def split: if_splits)

subsection \<open>Steps of the callers\<close>

text \<open>Under the invariant a caller waits exactly when its channel is in the table of pending calls.\<close>

lemma waiting_iff_pending:
  assumes "calls_inv n c calls" and "map_of calls i = Some a"
  shows "mail_of (cl_chans c) a = Waiting \<longleftrightarrow> map_of (cl_pending c) i = Some a"
proof
  note inv = calls_invD [OF assms(1)]
  have ia: "(i, a) \<in> set calls" using assms(2) by (rule map_of_SomeD)
  show "map_of (cl_pending c) i = Some a" if "mail_of (cl_chans c) a = Waiting"
  proof -
    have "(i, a) \<in> set (cl_pending c)"
      using inv(6) [OF ia] that by (auto simp: call_ok_def holds_def mail_of_def split: option.splits list.splits if_splits)
    then show ?thesis using inv(1) by (simp add: owned_def)
  qed
  show "mail_of (cl_chans c) a = Waiting" if "map_of (cl_pending c) i = Some a"
    using ownedD [OF inv(1) that] by (auto simp: holds_def open_chan_def mail_of_def split: option.splits)
qed

lemma pending_is_call:
  assumes "calls_inv n c calls" and "map_of (cl_pending c) i = Some a"
  shows "map_of calls i = Some a"
proof -
  note inv = calls_invD [OF assms(1)]
  from assms(2) inv(3) have "(i, a) \<in> set calls" by (auto dest: map_of_SomeD)
  with inv(4) show ?thesis by simp
qed

lemma other_call_channel:
  assumes "distinct (map snd calls)" and "map_of calls i = Some a" and "map_of calls j = Some b" and "i \<noteq> j"
  shows "a \<noteq> b"
proof
  assume "a = b"
  have "(i, a) \<in> set calls" "(j, b) \<in> set calls" using assms(2,3) by (simp_all add: map_of_SomeD)
  with assms(1,4) \<open>a = b\<close> show False
    using inj_onD [of snd "set calls" "(i, a)" "(j, b)"] by (simp add: distinct_map)
qed

text \<open>Sending an answer changes the mail of its own request and of no other.\<close>

lemma answered_mail:
  assumes inv: "calls_inv n c calls" and call: "map_of calls i = Some a" and buf: "cc_buf ch = [r]"
  shows "(\<lambda>j. map_option (mail_of ((cl_chans c)(a \<mapsto> ch))) (map_of calls j)) =
    (\<lambda>j. map_option (mail_of (cl_chans c)) (map_of calls j))(i \<mapsto> Answered r)"
proof
  fix j
  show "map_option (mail_of ((cl_chans c)(a \<mapsto> ch))) (map_of calls j) =
      ((\<lambda>j. map_option (mail_of (cl_chans c)) (map_of calls j))(i \<mapsto> Answered r)) j"
  proof (cases "j = i")
    case True
    then show ?thesis by (simp add: call buf mail_of_def)
  next
    case False
    have "b \<noteq> a" if "map_of calls j = Some b" for b
      using other_call_channel [OF calls_invD(5) [OF inv] call that] False by blast
    then have "map_option (mail_of ((cl_chans c)(a \<mapsto> ch))) (map_of calls j) = map_option (mail_of (cl_chans c)) (map_of calls j)"
      by (cases "map_of calls j") (simp_all add: mail_of_def)
    with False show ?thesis by (simp only: fun_upd_apply if_False)
  qed
qed

lemma deliver_mail:
  assumes inv: "calls_inv n c calls" and d: "deliver c r = Ran c'"
  shows "(\<lambda>i. map_option (mail_of (cl_chans c')) (map_of calls i)) =
      (let m = (\<lambda>i. map_option (mail_of (cl_chans c)) (map_of calls i))
       in if m (rr_id r) = Some Waiting then m(rr_id r \<mapsto> Answered r) else m) \<and>
    cl_nextID c' = cl_nextID c \<and> cl_closed c' = cl_closed c \<and> cl_readErr c' = cl_readErr c"
proof (cases "map_of (cl_pending c) (rr_id r)")
  case None
  then have "map_option (mail_of (cl_chans c)) (map_of calls (rr_id r)) \<noteq> Some Waiting"
    using waiting_iff_pending [OF inv, of "rr_id r"] by auto
  moreover have "c' = c\<lparr>cl_pending := map_del (rr_id r) (cl_pending c)\<rparr>"
    using d None by (simp add: deliver_def)
  ultimately show ?thesis unfolding Let_def by (simp del: map_option_eq_Some)
next
  case (Some a)
  note call = pending_is_call [OF inv Some]
  from ownedD [OF calls_invD(1) [OF inv] Some] obtain ch where ch: "cl_chans c a = Some ch" "open_chan ch"
    by (auto elim: holdsE)
  with d Some have c': "c' = c\<lparr>cl_pending := map_del (rr_id r) (cl_pending c),
      cl_chans := (cl_chans c)(a \<mapsto> ch\<lparr>cc_buf := [r]\<rparr>)\<rparr>"
    by (auto simp: deliver_def send_answer_def open_chan_def)
  have "map_option (mail_of (cl_chans c)) (map_of calls (rr_id r)) = Some Waiting"
    using waiting_iff_pending [OF inv call] Some call by simp
  with answered_mail [OF inv call, of "ch\<lparr>cc_buf := [r]\<rparr>" r] show ?thesis
    unfolding Let_def c' by (simp del: map_option_eq_Some fun_upd_apply)
qed

lemma failed_mail:
  assumes inv: "calls_inv n c calls"
  shows "map_option (mail_of (cl_chans (failed c e))) (map_of calls i) =
    map_option (\<lambda>x. if x = Waiting then Interrupted else x) (map_option (mail_of (cl_chans c)) (map_of calls i))"
proof (cases "map_of calls i")
  case (Some a)
  note iff = waiting_iff_pending [OF inv Some]
  show ?thesis
  proof (cases "map_of (cl_pending c) i = Some a")
    case True
    with ownedD [OF calls_invD(1) [OF inv] True] iff Some show ?thesis
      by (force simp: failed_def holds_def open_chan_def mail_of_def dest: map_of_SomeD split: option.splits)
  next
    case False
    have "a \<notin> snd ` set (cl_pending c)"
    proof
      assume "a \<in> snd ` set (cl_pending c)"
      then obtain j where "(j, a) \<in> set (cl_pending c)" by auto
      then have j: "map_of (cl_pending c) j = Some a" using calls_invD(1) [OF inv] by (simp add: owned_def)
      from other_call_channel [OF calls_invD(5) [OF inv] pending_is_call [OF inv j] Some] False j show False by auto
    qed
    with False iff Some show ?thesis by (simp add: failed_def mail_of_def)
  qed
qed simp

subsection \<open>The refinement\<close>

lemma read_message_mail:
  assumes inv: "calls_inv n (co_client s) (co_calls s)" and "read_message (co_client s) r pick = Ran (c', k)"
  shows "mailbox_of (s\<lparr>co_client := c'\<rparr>) = mailbox_step (Incoming r pick) (mailbox_of s)"
proof (cases "is_answer r")
  case True
  with assms(2) have d: "deliver (co_client s) r = Ran c'"
    by (auto simp: read_message_def is_answer_def collectionUpdateMethod_def and_then_Ran split: if_splits)
  from deliver_mail [OF inv d] True show ?thesis
    by (simp add: mailbox_of_def Let_def del: map_option_eq_Some split del: if_split) (simp del: map_option_eq_Some)
next
  case False
  with assms(2) have "same_mail (co_client s) c'"
    by (auto simp: read_message_def is_answer_def same_mail_def dest: dispatch_same_mail [unfolded same_mail_def]
        split: if_splits option.splits)
  with False show ?thesis by (simp add: same_mailbox)
qed

lemma start_call_mail:
  assumes inv: "calls_inv n (co_client s) (co_calls s)" and s': "perform StartCall s = Ran s'"
  shows "mailbox_of s' = mailbox_step StartCall (mailbox_of s)"
proof -
  have "b \<noteq> cl_fresh (co_client s)" if "map_of (co_calls s) j = Some b" for j b
    using calls_invD(6) [OF inv map_of_SomeD [OF that]] by auto
  then have "map_option (mail_of ((cl_chans (co_client s))(cl_fresh (co_client s) \<mapsto> ch))) (map_of (co_calls s) j) =
      map_option (mail_of (cl_chans (co_client s))) (map_of (co_calls s) j)" for j ch
    by (cases "map_of (co_calls s) j") (auto intro: mail_of_cong)
  with s' show ?thesis
    by (auto simp: call_start_def Let_def mailbox_of_def fun_eq_iff mail_of_def [of _ "cl_fresh (co_client s)"]
        split: if_splits)
qed

lemma take_answer_mail:
  assumes inv: "calls_inv n (co_client s) (co_calls s)" and call: "(i, a) \<in> set (co_calls s)"
    and s': "perform (TakeAnswer i a) s = Ran s'"
  shows "mailbox_of s' = mailbox_step (TakeAnswer i a) (mailbox_of s)"
proof -
  have i: "map_of (co_calls s) i = Some a" using call calls_invD(4) [OF inv] by simp
  have "b \<noteq> a" if "map_of (co_calls s) j = Some b" and "j \<noteq> i" for j b
    using other_call_channel [OF calls_invD(5) [OF inv] i that(1)] that(2) by auto
  then have "map_option (mail_of ((cl_chans (co_client s))(a := v))) (map_of (co_calls s) j) =
      map_option (mail_of (cl_chans (co_client s))) (map_of (co_calls s) j)" if "j \<noteq> i" for j v
    using that by (cases "map_of (co_calls s) j") (auto intro: mail_of_cong)
  with s' show ?thesis
    by (auto simp: call_over_def mailbox_of_def map_of_map_del fun_eq_iff)
qed

lemma mailbox_refined:
  assumes inv: "connection_inv n s" and "enabled e s" and "perform e s = Ran s'"
  shows "mailbox_of s' = mailbox_step e (mailbox_of s)"
proof -
  have c: "calls_inv n (co_client s) (co_calls s)" and u: "subs_inv (co_client s)"
    using inv by (simp_all add: connection_inv_def)
  show ?thesis
  proof (cases e)
    case StartCall
    with start_call_mail [OF c] assms(3) show ?thesis by simp
  next
    case (GiveUp i a)
    with assms(3) show ?thesis
      by (auto simp: call_over_def forget_def mailbox_of_def map_of_map_del fun_eq_iff)
  next
    case (TakeAnswer i a)
    with take_answer_mail [OF c, of i a] assms(2,3) show ?thesis by simp
  next
    case (Incoming r pick)
    with assms(3) obtain c' k where "read_message (co_client s) r pick = Ran (c', k)" "s' = s\<lparr>co_client := c'\<rparr>"
      by (auto simp: with_client_def and_then_Ran)
    with read_message_mail [OF c, of r pick] Incoming show ?thesis by simp
  next
    case (ReadFails err)
    with assms(3) failPending_failed [OF c u] have "s' = s\<lparr>co_client := failed (co_client s) err\<rparr>"
      by (simp add: with_client_def)
    with ReadFails failed_mail [OF c, of err] show ?thesis
      by (simp add: mailbox_of_def fun_eq_iff) (simp add: failed_def)
  next
    case (OpenSubscription src)
    with assms(3) show ?thesis by (auto simp: same_mailbox Subscribe_same_mail)
  next
    case (EndSubscription src sub err w)
    with assms(3) show ?thesis
      by (auto simp: with_client_def and_then_Ran dest!: unregister_same_mail intro!: same_mailbox)
  next
    case (UnsubscribeDone src k)
    with assms(3) show ?thesis
      by (auto simp: with_client_def and_then_Ran dest!: unsubscribe_same_mail intro!: same_mailbox)
  qed (use assms(3) in \<open>auto simp: mailbox_of_def Close_def split: if_splits\<close>)
qed

text \<open>
  C7. The connection refines the mailbox. Behind its channels, tables and locks a caller sees exactly the mailbox: it starts
  empty, every step a reachable connection can take is one the mailbox takes too, and a caller can read its
  channel exactly when its request has been answered or interrupted.
\<close>

theorem connection_refines_mailbox:
  assumes "runs enabled perform n connected s" and "n < 2 ^ 64 - 1"
  shows "mailbox_of connected = empty_mailbox \<and>
    (\<forall>e s'. enabled e s \<and> perform e s = Ran s' \<longrightarrow> mailbox_of s' = mailbox_step e (mailbox_of s)) \<and>
    (\<forall>i a. enabled (TakeAnswer i a) s \<longleftrightarrow> (i, a) \<in> set (co_calls s) \<and> mail_ready (mailbox_of s) i)"
proof -
  have n: "n \<le> 2 ^ 64 - 1" using assms(2) by simp
  note inv = connection.reachable_inv [OF assms(1) n]
  have c: "calls_inv n (co_client s) (co_calls s)" using inv by (simp add: connection_inv_def)
  note ci = calls_invD [OF c]
  have "enabled (TakeAnswer i a) s \<longleftrightarrow> mail_ready (mailbox_of s) i" if ia: "(i, a) \<in> set (co_calls s)" for i a
  proof -
    have "map_of (co_calls s) i = Some a" using ia ci(4) by simp
    moreover obtain ch where "cl_chans (co_client s) a = Some ch"
      using ci(6) [OF ia] by (auto simp: call_ok_def elim: holdsE)
    ultimately show ?thesis
      using ia by (simp add: mail_ready_def mailbox_of_def mail_of_def channel_read_def split: list.split)
  qed
  moreover have "mailbox_of connected = empty_mailbox"
    by (simp add: mailbox_of_def connected_def Dial_def empty_mailbox_def)
  ultimately show ?thesis using mailbox_refined [OF inv] by auto
qed

lemma connection_refines_mailbox_witness:
  "mailbox_of connected = empty_mailbox \<and> enabled (TakeAnswer 2 1) busy_connection \<and>
   mail_ready (mailbox_of busy_connection) 2 \<and> \<not> mail_ready (mailbox_of busy_connection) 1"
proof -
  have "(4 :: nat) < 2 ^ 64 - 1" by simp
  note r = connection_refines_mailbox [OF busy_reachable this]
  have "enabled (TakeAnswer 2 1) busy_connection" "\<not> enabled (TakeAnswer 1 0) busy_connection"
    "(1, 0) \<in> set (co_calls busy_connection)"
    by (simp_all add: busy_connection_eq(2) channel_read_def)
  with r show ?thesis by blast
qed

end
