(* ===== verification/Subscribers.thy ===== *)
theory Subscribers
  imports Client
begin

section \<open>The goroutines of event subscriptions\<close>

text \<open>
  \<^verbatim>\<open>Subscribe\<close>, \<^verbatim>\<open>endSubscription\<close> and \<^verbatim>\<open>unsubscribeAsync\<close> of \<^verbatim>\<open>internal/truenas/client.go\<close> with the goroutines they run in: a
  caller that waits for the previous stream of its source to be unsubscribed, its call to the target, the goroutine that
  watches the caller's context, and the one that unsubscribes and then lets the next caller in. The client is the one of
  theory \<open>Client\<close>; its critical sections are the steps, and the goroutines' positions between them are part of the state.
  That a context ends, how a call ends and which goroutine runs next is up to the environment.
\<close>

subsection \<open>State and steps\<close>

text \<open>
  Where a goroutine is: before the locked part of the loop in \<^verbatim>\<open>Subscribe\<close>; waiting for a cleanup; in the call to
  \<^verbatim>\<open>core.subscribe\<close>; watching the context of a stream it handed out; in the call to \<^verbatim>\<open>core.unsubscribe\<close>; or over, with
  the error returned, if any.
\<close>

datatype thread =
    Entering string
  | AwaitCleanup string nat
  | AwaitReply string nat
  | Watching string nat
  | Cleaning string nat
  | Over "go_error option"

record hub =
  hb_conn :: connection
  hb_threads :: "thread list"
  hb_socket_open :: bool

abbreviation hub_client :: "hub \<Rightarrow> client" where
  "hub_client h \<equiv> co_client (hb_conn h)"

definition new_hub :: hub where
  "new_hub = \<lparr>hb_conn = connected, hb_threads = [], hb_socket_open = True\<rparr>"

definition thread_at :: "hub \<Rightarrow> nat \<Rightarrow> thread option" where
  "thread_at h t = (if t < length (hb_threads h) then Some (hb_threads h ! t) else None)"

definition set_client :: "client \<Rightarrow> hub \<Rightarrow> hub" where
  "set_client c h = h\<lparr>hb_conn := (hb_conn h)\<lparr>co_client := c\<rparr>\<rparr>"

definition become :: "nat \<Rightarrow> thread \<Rightarrow> hub \<Rightarrow> hub" where
  "become t th h = h\<lparr>hb_threads := (hb_threads h)[t := th]\<rparr>"

definition spawn :: "thread list \<Rightarrow> hub \<Rightarrow> hub" where
  "spawn ths h = h\<lparr>hb_threads := hb_threads h @ ths\<rparr>"

definition unsubscribeAsync :: "string \<Rightarrow> nat option \<Rightarrow> thread list" where
  "unsubscribeAsync src cleanup = (case cleanup of None \<Rightarrow> [] | Some k \<Rightarrow> [Cleaning src k])"

definition endSubscription :: "string \<Rightarrow> nat \<Rightarrow> go_error \<Rightarrow> bool \<Rightarrow> hub \<Rightarrow> hub outcome" where
  "endSubscription src sub err unsubscribe h =
     and_then (unregisterSubscriptionLocked (hub_client h) src sub err unsubscribe)
       (\<lambda>(c, cleanup). Ran (spawn (unsubscribeAsync src cleanup) (set_client c h)))"

text \<open>The source a message is dispatched to.\<close>

definition message_source :: "rpc_response \<Rightarrow> string" where
  "message_source r = (case unmarshal dec_envelope (rr_params r) of Some (name, _) \<Rightarrow> name | None \<Rightarrow> [])"

datatype hub_event =
    NewSubscriber string "go_error option"    \<comment> \<open>source, error of a context that is already over\<close>
  | Enter nat
  | Woken nat
  | Cancelled nat go_error
  | Replied nat "go_error option"
  | StreamDone nat
  | Unsubscribed nat bool                     \<comment> \<open>whether the call succeeded\<close>
  | Message rpc_response bool
  | Dies string
  | Other event

text \<open>Steps of the connection that concern calls, readers of streams and closing, not the table of subscriptions.\<close>

fun other_event :: "event \<Rightarrow> bool" where
  "other_event StartCall = True"
| "other_event (GiveUp i a) = True"
| "other_event (TakeAnswer i a) = True"
| "other_event (TakeEvent a) = True"
| "other_event CloseClient = True"
| "other_event _ = False"

fun hub_enabled :: "hub_event \<Rightarrow> hub \<Rightarrow> bool" where
  "hub_enabled (NewSubscriber src e) h \<longleftrightarrow> True"
| "hub_enabled (Enter t) h \<longleftrightarrow> (case thread_at h t of Some (Entering src) \<Rightarrow> True | _ \<Rightarrow> False)"
| "hub_enabled (Woken t) h \<longleftrightarrow>
     (case thread_at h t of Some (AwaitCleanup src k) \<Rightarrow> cl_cleanups (hub_client h) k = Some True | _ \<Rightarrow> False)"
| "hub_enabled (Cancelled t e) h \<longleftrightarrow>
     (case thread_at h t of Some (AwaitCleanup src k) \<Rightarrow> True | Some (Watching src a) \<Rightarrow> True | _ \<Rightarrow> False)"
| "hub_enabled (Replied t e) h \<longleftrightarrow> (case thread_at h t of Some (AwaitReply src a) \<Rightarrow> True | _ \<Rightarrow> False)"
| "hub_enabled (StreamDone t) h \<longleftrightarrow>
     (case thread_at h t of Some (Watching src a) \<Rightarrow> holds sb_shut (cl_subs (hub_client h)) a | _ \<Rightarrow> False)"
| "hub_enabled (Unsubscribed t ok) h \<longleftrightarrow> (case thread_at h t of Some (Cleaning src k) \<Rightarrow> True | _ \<Rightarrow> False)"
| "hub_enabled (Message r pick) h \<longleftrightarrow> cl_readErr (hub_client h) = None"
| "hub_enabled (Dies e) h \<longleftrightarrow> cl_readErr (hub_client h) = None"
| "hub_enabled (Other e) h \<longleftrightarrow> other_event e \<and> enabled e (hb_conn h)"

text \<open>
  A failed unsubscribe closes the socket, so that the next stream of the source cannot be opened on this connection, and
  then lets waiting callers go on to find that out.
\<close>

fun hub_perform :: "hub_event \<Rightarrow> hub \<Rightarrow> hub outcome" where
  "hub_perform (NewSubscriber src e) h = Ran (spawn [case e of None \<Rightarrow> Entering src | Some err \<Rightarrow> Over (Some err)] h)"
| "hub_perform (Enter t) h =
     (case thread_at h t of
        Some (Entering src) \<Rightarrow>
          (case Subscribe (hub_client h) src of
             (Refused err, c) \<Rightarrow> Ran (become t (Over (Some err)) (set_client c h))
           | (WaitFor k, c) \<Rightarrow> Ran (become t (AwaitCleanup src k) (set_client c h))
           | (Registered a, c) \<Rightarrow> Ran (become t (AwaitReply src a) (set_client c h)))
      | _ \<Rightarrow> Ran h)"
| "hub_perform (Woken t) h =
     (case thread_at h t of Some (AwaitCleanup src k) \<Rightarrow> Ran (become t (Entering src) h) | _ \<Rightarrow> Ran h)"
| "hub_perform (Cancelled t e) h =
     (case thread_at h t of
        Some (AwaitCleanup src k) \<Rightarrow> Ran (become t (Over (Some e)) h)
      | Some (Watching src a) \<Rightarrow> and_then (endSubscription src a e True h) (\<lambda>h'. Ran (become t (Over None) h'))
      | _ \<Rightarrow> Ran h)"
| "hub_perform (Replied t e) h =
     (case thread_at h t of
        Some (AwaitReply src a) \<Rightarrow>
          (case e of
             None \<Rightarrow> Ran (become t (Watching src a) h)
           | Some err \<Rightarrow> and_then (endSubscription src a err (err_as_call err = None) h)
               (\<lambda>h'. Ran (become t (Over (Some err)) h')))
      | _ \<Rightarrow> Ran h)"
| "hub_perform (StreamDone t) h = Ran (become t (Over None) h)"
| "hub_perform (Unsubscribed t ok) h =
     (case thread_at h t of
        Some (Cleaning src k) \<Rightarrow>
          and_then (unsubscribe_done (hub_client h) src k)
            (\<lambda>c. Ran (become t (Over None) (set_client c (h\<lparr>hb_socket_open := hb_socket_open h \<and> ok\<rparr>))))
      | _ \<Rightarrow> Ran h)"
| "hub_perform (Message r pick) h =
     and_then (read_message (hub_client h) r pick)
       (\<lambda>(c, cleanup). Ran (spawn (unsubscribeAsync (message_source r) cleanup) (set_client c h)))"
| "hub_perform (Dies e) h = and_then (failPending (hub_client h) e) (\<lambda>c. Ran (set_client c h))"
| "hub_perform (Other e) h = and_then (perform e (hb_conn h)) (\<lambda>s. Ran (h\<lparr>hb_conn := s\<rparr>))"

subsection \<open>The invariant\<close>

text \<open>
  What each goroutine may rely on: a cleanup somebody waits for is under way or over; a stream somebody watches is
  registered or closed; and while the connection lives, a goroutine that unsubscribes is the one whose cleanup is entered.
\<close>

fun thread_ok :: "client \<Rightarrow> thread \<Rightarrow> bool" where
  "thread_ok c (AwaitCleanup src k) \<longleftrightarrow> k < cl_fresh c \<and> ((src, k) \<in> set (cl_unsubscribing c) \<or> cl_cleanups c k = Some True)"
| "thread_ok c (Cleaning src k) \<longleftrightarrow> k < cl_fresh c \<and>
     ((src, k) \<in> set (cl_unsubscribing c) \<or> cl_readErr c \<noteq> None \<and> cl_cleanups c k = Some True)"
| "thread_ok c (AwaitReply src a) \<longleftrightarrow> a < cl_fresh c \<and> ((src, a) \<in> set (cl_subscriptions c) \<or> holds sb_shut (cl_subs c) a)"
| "thread_ok c (Watching src a) \<longleftrightarrow> a < cl_fresh c \<and> ((src, a) \<in> set (cl_subscriptions c) \<or> holds sb_shut (cl_subs c) a)"
| "thread_ok c _ \<longleftrightarrow> True"

fun cleaner_key :: "thread \<Rightarrow> nat list" where
  "cleaner_key (Cleaning src k) = [k]"
| "cleaner_key _ = []"

definition cleaner_keys :: "thread list \<Rightarrow> nat list" where
  "cleaner_keys ths = concat (map cleaner_key ths)"

text \<open>Every cleanup entered has its goroutine, every stream registered has its caller.\<close>

definition attended :: "client \<Rightarrow> thread list \<Rightarrow> bool" where
  "attended c ths \<longleftrightarrow>
     (\<forall>(src, k) \<in> set (cl_unsubscribing c). Cleaning src k \<in> set ths) \<and>
     (\<forall>(src, a) \<in> set (cl_subscriptions c). AwaitReply src a \<in> set ths \<or> Watching src a \<in> set ths)"

definition threads_inv :: "client \<Rightarrow> thread list \<Rightarrow> bool" where
  "threads_inv c ths \<longleftrightarrow> list_all (thread_ok c) ths \<and> distinct (cleaner_keys ths) \<and> attended c ths"

definition hub_inv :: "nat \<Rightarrow> hub \<Rightarrow> bool" where
  "hub_inv n h \<longleftrightarrow> connection_inv n (hb_conn h) \<and> threads_inv (hub_client h) (hb_threads h)"

lemma cleaner_keys_simps [simp]:
  "cleaner_keys [] = []" "cleaner_keys (th # ths) = cleaner_key th @ cleaner_keys ths"
  "cleaner_keys (xs @ ys) = cleaner_keys xs @ cleaner_keys ys"
  by (simp_all add: cleaner_keys_def)

lemma cleaner_in: "Cleaning src k \<in> set ths \<Longrightarrow> k \<in> set (cleaner_keys ths)"
  by (force simp: cleaner_keys_def)

lemma cleaner_keys_ok: "list_all (thread_ok c) ths \<Longrightarrow> k \<in> set (cleaner_keys ths) \<Longrightarrow> k < cl_fresh c"
  by (auto simp: cleaner_keys_def list_all_iff) (metis (no_types, lifting) cleaner_key.elims empty_iff list.set(1) set_ConsD thread_ok.simps(2))

lemma thread_atE:
  assumes "thread_at h t = Some th"
  obtains pre post where "hb_threads h = pre @ th # post" "length pre = t"
proof -
  from assms have "t < length (hb_threads h)" "hb_threads h ! t = th"
    by (auto simp: thread_at_def split: if_splits)
  then show thesis using that [of "take t (hb_threads h)" "drop (Suc t) (hb_threads h)"] id_take_nth_drop by fastforce
qed

subsection \<open>What a step of the client leaves intact\<close>

text \<open>
  \<open>advances X c c'\<close>: what was closed stays closed, what was entered stays entered or has been closed; the cleanups in
  \<open>X\<close> have been closed by their goroutine, any other only because the connection died.
\<close>

definition advances :: "(string \<times> nat) set \<Rightarrow> client \<Rightarrow> client \<Rightarrow> bool" where
  "advances X c c' \<longleftrightarrow> cl_fresh c \<le> cl_fresh c' \<and> (cl_readErr c \<noteq> None \<longrightarrow> cl_readErr c' \<noteq> None) \<and>
     (\<forall>k < cl_fresh c. cl_cleanups c k = Some True \<longrightarrow> cl_cleanups c' k = Some True) \<and>
     (\<forall>p \<in> set (cl_unsubscribing c). p \<in> set (cl_unsubscribing c') \<or>
        cl_cleanups c' (snd p) = Some True \<and> (p \<in> X \<or> cl_readErr c' \<noteq> None)) \<and>
     (\<forall>a < cl_fresh c. holds sb_shut (cl_subs c) a \<longrightarrow> holds sb_shut (cl_subs c') a) \<and>
     (\<forall>p \<in> set (cl_subscriptions c). p \<in> set (cl_subscriptions c') \<or> holds sb_shut (cl_subs c') (snd p))"

lemma thread_ok_advances:
  "thread_ok c th \<Longrightarrow> advances X c c' \<Longrightarrow> (\<And>src k. th = Cleaning src k \<Longrightarrow> (src, k) \<notin> X) \<Longrightarrow> thread_ok c' th"
  by (cases th) (fastforce simp: advances_def)+

lemma advances_same: "same_subs c c' \<Longrightarrow> advances X c c'"
  by (auto simp: advances_def same_subs_def)

lemma set_map_del_owned: "owned P t h n \<Longrightarrow> map_of t k = Some a \<Longrightarrow> set (map_del k t) = set t - {(k, a)}"
  by (auto simp: set_map_del owned_def dest: map_of_SomeD) (metis eq_key_imp_eq_value map_of_SomeD)

lemma set_map_put_new: "map_of t k = None \<Longrightarrow> set (map_put k v t) = insert (k, v) (set t)"
  by (force simp: map_put_def set_map_del map_of_eq_None_iff)

text \<open>The effect of a step that may take a stream of the source out, with the cleanup it starts.\<close>

definition may_end :: "client \<Rightarrow> string \<Rightarrow> client \<Rightarrow> nat option \<Rightarrow> bool" where
  "may_end c src c' cleanup \<longleftrightarrow>
     advances {} c c' \<and> set (cl_subscriptions c') \<subseteq> set (cl_subscriptions c) \<and>
     (case cleanup of
        None \<Rightarrow> set (cl_unsubscribing c') = set (cl_unsubscribing c)
      | Some k \<Rightarrow> k = cl_fresh c \<and> cl_fresh c' = Suc k \<and> set (cl_unsubscribing c') = insert (src, k) (set (cl_unsubscribing c)))"

lemma may_end_idle: "same_subs c c' \<Longrightarrow> may_end c src c' None"
  by (simp add: may_end_def advances_same) (simp add: same_subs_def)

lemma unregister_effect:
  assumes inv: "subs_inv c" and ran: "unregisterSubscriptionLocked c src sub err u = Ran (c', cleanup)"
  shows "may_end c src c' cleanup \<and> set (cl_subscriptions c') = set (cl_subscriptions c) - {(src, sub)}"
proof (cases "map_of (cl_subscriptions c) src = Some sub")
  case False
  with ran have "c' = c" "cleanup = None" by (simp_all add: unregisterSubscriptionLocked_def)
  moreover have "(src, sub) \<notin> set (cl_subscriptions c)"
    using False subs_invD(1) [OF inv] by (auto simp: owned_def dest: map_of_is_SomeI)
  ultimately show ?thesis by (simp add: may_end_idle same_subs_def)
next
  case True
  note inv' = subs_invD [OF inv]
  from ownedD [OF inv'(1) True] obtain sb where sb: "cl_subs c sub = Some sb" "open_sub sb"
    by (auto elim: holdsE)
  have free: "map_of (cl_unsubscribing c) src = None"
    using inv'(3) True by (force simp: map_of_eq_None_iff dest: map_of_SomeD)
  have del: "set (map_del src (cl_subscriptions c)) = set (cl_subscriptions c) - {(src, sub)}"
    by (rule set_map_del_owned [OF inv'(1) True])
  show ?thesis
    using ran True sb
    by (auto simp: unregisterSubscriptionLocked_def Let_def open_sub_def may_end_def advances_def del set_map_put_new [OF free]
        split: if_splits)
qed

lemma dispatch_effect:
  assumes inv: "subs_inv c" and ran: "dispatchNotification c src params pick = Ran (c', cleanup)"
  shows "may_end c src c' cleanup"
proof (cases "map_of (cl_subscriptions c) src")
  case None
  with ran show ?thesis by (simp add: dispatchNotification_def may_end_idle same_subs_def)
next
  case (Some a)
  from ownedD [OF subs_invD(1) [OF inv] Some] obtain sb where sb: "cl_subs c a = Some sb" "\<not> sb_shut sb"
    by (auto elim: holdsE simp: open_sub_def)
  show ?thesis
  proof (cases "length (sb_events sb) < event_capacity")
    case True
    with ran Some sb have "c' = c\<lparr>cl_subs := (cl_subs c)(a \<mapsto> sb\<lparr>sb_events := sb_events sb @ [params]\<rparr>)\<rparr>" "cleanup = None"
      by (simp_all add: dispatchNotification_def)
    with sb show ?thesis by (auto simp: may_end_def advances_def holds_def)
  next
    case False
    with ran Some sb have "unregisterSubscriptionLocked c src a errSubscriptionOverflow True = Ran (c', cleanup)"
      by (simp add: dispatchNotification_def)
    from unregister_effect [OF inv this] show ?thesis by simp
  qed
qed

lemma deliver_same_subs: "deliver c r = Ran c' \<Longrightarrow> same_subs c c'"
  by (auto simp: deliver_def send_answer_def Let_def same_subs_def split: option.splits if_splits)

lemma message_effect:
  assumes inv: "subs_inv c" and ran: "read_message c r pick = Ran (c', cleanup)"
  shows "may_end c (message_source r) c' cleanup"
proof (cases "dispatchNotification c (message_source r) (snd (the (unmarshal dec_envelope (rr_params r)))) pick = Ran (c', cleanup)")
  case True
  then show ?thesis by (rule dispatch_effect [OF inv])
next
  case False
  with ran have "same_subs c c' \<and> cleanup = None"
    by (auto simp: read_message_def message_source_def and_then_Ran same_subs_def split: if_splits option.splits
        dest!: deliver_same_subs)
  then show ?thesis by (simp add: may_end_idle)
qed

lemma Subscribe_effect:
  assumes inv: "subs_inv c"
  shows "case Subscribe c src of
      (Registered a, c') \<Rightarrow> advances {} c c' \<and> a < cl_fresh c' \<and> set (cl_unsubscribing c') = set (cl_unsubscribing c) \<and>
        set (cl_subscriptions c') = insert (src, a) (set (cl_subscriptions c))
    | (WaitFor k, c') \<Rightarrow> c' = c \<and> (src, k) \<in> set (cl_unsubscribing c)
    | (Refused err, c') \<Rightarrow> c' = c"
proof -
  have "(src, k) \<in> set (cl_unsubscribing c)" if "map_of (cl_unsubscribing c) src = Some k" for k
    using that by (rule map_of_SomeD)
  then show ?thesis
    by (auto simp: Subscribe_def Let_def advances_def set_map_put_new split: option.splits)
qed

lemma unsubscribe_done_effect:
  assumes inv: "subs_inv c" and ran: "unsubscribe_done c src k = Ran c'"
  shows "advances {(src, k)} c c' \<and> cl_subscriptions c' = cl_subscriptions c \<and>
    set (cl_unsubscribing c') = set (cl_unsubscribing c) - {(src, k)} \<and>
    ((src, k) \<in> set (cl_unsubscribing c) \<longrightarrow> cl_cleanups c' k = Some True)"
proof (cases "map_of (cl_unsubscribing c) src = Some k")
  case False
  with ran have "c' = c" by (simp add: unsubscribe_done_def)
  moreover have "(src, k) \<notin> set (cl_unsubscribing c)"
    using False subs_invD(2) [OF inv] by (auto simp: owned_def dest: map_of_is_SomeI)
  ultimately show ?thesis by (simp add: advances_same same_subs_def)
next
  case True
  have del: "set (map_del src (cl_unsubscribing c)) = set (cl_unsubscribing c) - {(src, k)}"
    by (rule set_map_del_owned [OF subs_invD(2) [OF inv] True])
  from ran True have "c' = c\<lparr>cl_unsubscribing := map_del src (cl_unsubscribing c), cl_cleanups := (cl_cleanups c)(k \<mapsto> True)\<rparr>"
    by (auto simp: unsubscribe_done_def and_then_Ran close_cleanup_def split: if_splits)
  then show ?thesis by (auto simp: advances_def del)
qed

lemma failed_effect:
  assumes inv: "subs_inv c"
  shows "advances {} c (failed c e) \<and> cl_subscriptions (failed c e) = [] \<and> cl_unsubscribing (failed c e) = []"
proof -
  have "cl_cleanups c (snd p) = Some False" if "p \<in> set (cl_unsubscribing c)" for p
    using owned_in [OF subs_invD(2) [OF inv], of "fst p" "snd p"] that by (auto elim: holdsE)
  moreover have "\<exists>sb. cl_subs c (snd p) = Some sb" if "p \<in> set (cl_subscriptions c)" for p
    using owned_in [OF subs_invD(1) [OF inv], of "fst p" "snd p"] that by (auto elim: holdsE)
  ultimately show ?thesis
    by (force simp: advances_def failed_def holds_def split: option.splits)
qed

lemma other_effect:
  assumes "other_event e" and "perform e s = Ran s'"
  shows "advances {} (co_client s) (co_client s') \<and> cl_subscriptions (co_client s') = cl_subscriptions (co_client s) \<and>
    cl_unsubscribing (co_client s') = cl_unsubscribing (co_client s)"
proof (cases e)
  case (TakeEvent a)
  with assms(2) show ?thesis by (auto simp: advances_def holds_def split: option.splits if_splits)
qed (use assms in \<open>auto simp: call_start_def Let_def call_over_def forget_def Close_def advances_def split: if_splits sum.splits\<close>)

subsection \<open>Every step keeps the invariant\<close>

lemma threads_invD:
  assumes "threads_inv c ths"
  shows "list_all (thread_ok c) ths" "distinct (cleaner_keys ths)"
    "\<And>src k. (src, k) \<in> set (cl_unsubscribing c) \<Longrightarrow> Cleaning src k \<in> set ths"
    "\<And>src a. (src, a) \<in> set (cl_subscriptions c) \<Longrightarrow> AwaitReply src a \<in> set ths \<or> Watching src a \<in> set ths"
  using assms by (auto simp: threads_inv_def attended_def)

lemma threads_spawn:
  assumes inv: "threads_inv c ths" and eff: "may_end c src c' cleanup"
  shows "threads_inv c' (ths @ unsubscribeAsync src cleanup)"
proof -
  note inv' = threads_invD [OF inv]
  from eff have adv: "advances {} c c'" by (simp add: may_end_def)
  have "list_all (thread_ok c') ths"
    using inv'(1) thread_ok_advances [OF _ adv] by (auto simp: list_all_iff)
  moreover have "list_all (thread_ok c') (unsubscribeAsync src cleanup)"
    using eff by (auto simp: unsubscribeAsync_def may_end_def split: option.splits)
  moreover have "distinct (cleaner_keys (ths @ unsubscribeAsync src cleanup))"
    using eff inv'(2) cleaner_keys_ok [OF inv'(1)]
    by (force simp: unsubscribeAsync_def may_end_def split: option.splits)
  moreover have "attended c' (ths @ unsubscribeAsync src cleanup)"
    using eff inv'(3,4) by (fastforce simp: attended_def may_end_def unsubscribeAsync_def split: option.splits)
  ultimately show ?thesis by (simp add: threads_inv_def)
qed

lemma threads_advance:
  assumes "threads_inv c ths" and "advances {} c c'"
    and "set (cl_unsubscribing c') \<subseteq> set (cl_unsubscribing c)" and "set (cl_subscriptions c') \<subseteq> set (cl_subscriptions c)"
  shows "threads_inv c' ths"
  using threads_invD [OF assms(1)] thread_ok_advances [OF _ assms(2)] assms(3,4)
  by (fastforce simp: threads_inv_def list_all_iff attended_def)

text \<open>A goroutine goes on: it may leave a stream or a cleanup only when that is no longer entered.\<close>

lemma threads_become:
  assumes inv: "threads_inv c (pre @ old # post)" and "cleaner_key new = []" and "thread_ok c new"
    and "\<And>src k. old = Cleaning src k \<Longrightarrow> (src, k) \<notin> set (cl_unsubscribing c)"
    and "\<And>src a. old = AwaitReply src a \<or> old = Watching src a \<Longrightarrow>
      (src, a) \<notin> set (cl_subscriptions c) \<or> new = AwaitReply src a \<or> new = Watching src a"
  shows "threads_inv c (pre @ new # post)"
proof -
  note inv' = threads_invD [OF inv]
  have "Cleaning src k \<in> set (pre @ new # post)" if "(src, k) \<in> set (cl_unsubscribing c)" for src k
    using inv'(3) [OF that] assms(4) [of src k] that by auto
  moreover have "AwaitReply src a \<in> set (pre @ new # post) \<or> Watching src a \<in> set (pre @ new # post)"
    if "(src, a) \<in> set (cl_subscriptions c)" for src a
    using inv'(4) [OF that] assms(5) [of src a] that by auto
  ultimately have "attended c (pre @ new # post)" by (auto simp: attended_def)
  with assms(2,3) inv'(1,2) show ?thesis by (auto simp: threads_inv_def)
qed

lemma threads_register:
  assumes inv: "threads_inv c (pre @ Entering src # post)" and "advances {} c c'" and "a < cl_fresh c'"
    and "set (cl_unsubscribing c') = set (cl_unsubscribing c)"
    and "set (cl_subscriptions c') = insert (src, a) (set (cl_subscriptions c))"
  shows "threads_inv c' (pre @ AwaitReply src a # post)"
proof -
  note inv' = threads_invD [OF inv]
  have "AwaitReply s b \<in> set (pre @ AwaitReply src a # post) \<or> Watching s b \<in> set (pre @ AwaitReply src a # post)"
    if "(s, b) \<in> set (cl_subscriptions c')" for s b
    using inv'(4) [of s b] that assms(5) by auto
  then have "attended c' (pre @ AwaitReply src a # post)"
    using inv'(3) assms(4) by (fastforce simp: attended_def)
  moreover have "list_all (thread_ok c') (pre @ AwaitReply src a # post)"
    using inv'(1) thread_ok_advances [OF _ assms(2)] assms(3,5) by (auto simp: list_all_iff)
  ultimately show ?thesis using inv'(2) by (simp add: threads_inv_def)
qed

lemma threads_unsubscribed:
  assumes inv: "threads_inv c (pre @ Cleaning src k # post)" and "advances {(src, k)} c c'"
    and "cl_subscriptions c' = cl_subscriptions c" and "set (cl_unsubscribing c') = set (cl_unsubscribing c) - {(src, k)}"
  shows "threads_inv c' (pre @ Over None # post)"
proof -
  note inv' = threads_invD [OF inv]
  have other: "th \<noteq> Cleaning src k" if "th \<in> set (pre @ post)" for th
    using that inv'(2) by (auto dest: cleaner_in)
  have "thread_ok c' th" if "th \<in> set (pre @ post)" for th
    using that inv'(1) other [OF that] by (intro thread_ok_advances [OF _ assms(2)]) (auto simp: list_all_iff)
  moreover have "attended c' (pre @ Over None # post)"
    using inv'(3,4) assms(3,4) by (fastforce simp: attended_def)
  ultimately show ?thesis using inv'(2) by (auto simp: threads_inv_def list_all_iff)
qed

lemma hub_simps [simp]:
  "hub_client (set_client c h) = c" "co_calls (hb_conn (set_client c h)) = co_calls (hb_conn h)"
  "hb_threads (set_client c h) = hb_threads h"
  "hb_conn (become t th h) = hb_conn h" "hb_threads (become t th h) = (hb_threads h)[t := th]"
  "hb_conn (spawn ths h) = hb_conn h" "hb_threads (spawn ths h) = hb_threads h @ ths"
  by (simp_all add: set_client_def become_def spawn_def)

lemma connection_idle: "connection_inv n s \<Longrightarrow> connection_inv (Suc n) s"
  by (auto simp: connection_inv_def intro: calls_inv_frame simp: same_calls_def)

lemma set_client_inv:
  "connection_inv n (hb_conn h) \<Longrightarrow> same_calls (hub_client h) c \<Longrightarrow> subs_inv c \<Longrightarrow> connection_inv (Suc n) (hb_conn (set_client c h))"
  by (auto simp: connection_inv_def intro: calls_inv_frame)

lemma endSubscription_step:
  assumes inv: "hub_inv n h"
  shows "\<exists>h' ths. endSubscription src a err u h = Ran h' \<and> hb_threads h' = hb_threads h @ ths \<and>
    connection_inv (Suc n) (hb_conn h') \<and> threads_inv (hub_client h') (hb_threads h') \<and>
    (src, a) \<notin> set (cl_subscriptions (hub_client h'))"
proof -
  from inv have conn: "connection_inv n (hb_conn h)" and subs: "subs_inv (hub_client h)"
    and ths: "threads_inv (hub_client h) (hb_threads h)"
    by (auto simp: hub_inv_def connection_inv_def)
  from unregister_inv [OF subs] obtain c cleanup where
    ran: "unregisterSubscriptionLocked (hub_client h) src a err u = Ran (c, cleanup)"
    and c: "subs_inv c" "same_calls (hub_client h) c" by blast
  note eff = unregister_effect [OF subs ran]
  from threads_spawn [OF ths] eff have "threads_inv c (hb_threads h @ unsubscribeAsync src cleanup)" by blast
  with ran set_client_inv [OF conn c(2,1)] eff show ?thesis
    by (simp add: endSubscription_def)
qed

text \<open>A goroutine goes on after a step that left the connection in order.\<close>

lemma become_inv:
  assumes "connection_inv n (hb_conn h)" and "threads_inv (hub_client h) (hb_threads h)"
    and "hb_threads h = pre @ old # post" and "length pre = t" and "cleaner_key new = []" and "thread_ok (hub_client h) new"
    and "\<And>src k. old = Cleaning src k \<Longrightarrow> (src, k) \<notin> set (cl_unsubscribing (hub_client h))"
    and "\<And>src a. old = AwaitReply src a \<or> old = Watching src a \<Longrightarrow>
      (src, a) \<notin> set (cl_subscriptions (hub_client h)) \<or> new = AwaitReply src a \<or> new = Watching src a"
  shows "hub_inv n (become t new h)"
proof -
  have "threads_inv (hub_client h) (pre @ new # post)"
    using assms(2) unfolding assms(3) by (rule threads_become [OF _ assms(5-8)])
  with assms(1,3,4) show ?thesis by (auto simp: hub_inv_def)
qed

lemma enter_step:
  assumes inv: "hub_inv n h" and t: "thread_at h t = Some (Entering src)"
  shows "\<exists>h'. hub_perform (Enter t) h = Ran h' \<and> hub_inv (Suc n) h'"
proof -
  from inv have conn: "connection_inv n (hb_conn h)" and subs: "subs_inv (hub_client h)"
    and ths: "threads_inv (hub_client h) (hb_threads h)"
    by (auto simp: hub_inv_def connection_inv_def)
  from t obtain pre post where split: "hb_threads h = pre @ Entering src # post" "length pre = t" by (rule thread_atE)
  obtain r c where r: "Subscribe (hub_client h) src = (r, c)" by fastforce
  note eff = Subscribe_effect [OF subs, of src, unfolded r, simplified]
  from Subscribe_inv [OF subs, of src] r have c: "subs_inv c" "same_calls (hub_client h) c" by simp_all
  note conn' = set_client_inv [OF conn c(2,1)]
  show ?thesis
  proof (cases r)
    case (Registered a)
    with eff threads_register [OF ths [unfolded split(1)]] have "threads_inv c (pre @ AwaitReply src a # post)" by auto
    with conn' Registered show ?thesis using t r split by (auto simp: hub_inv_def)
  next
    case (WaitFor k)
    with eff have "c = hub_client h" "(src, k) \<in> set (cl_unsubscribing (hub_client h))" by simp_all
    moreover from owned_in [OF subs_invD(2) [OF subs] this(2)] have "k < cl_fresh (hub_client h)" by simp
    ultimately have "hub_inv (Suc n) (become t (AwaitCleanup src k) (set_client c h))"
      using ths split by (intro become_inv [OF conn']) auto
    with WaitFor t r show ?thesis by simp
  next
    case (Refused err)
    with eff ths split have "hub_inv (Suc n) (become t (Over (Some err)) (set_client c h))"
      by (intro become_inv [OF conn']) auto
    with Refused t r show ?thesis by simp
  qed
qed

text \<open>The end of a stream by its caller or its watcher, who then goes.\<close>

lemma end_and_go_step:
  assumes inv: "hub_inv n h" and t: "thread_at h t = Some th" and th: "th = AwaitReply src a \<or> th = Watching src a"
  shows "\<exists>h'. and_then (endSubscription src a err u h) (\<lambda>h'. Ran (become t (Over e) h')) = Ran h' \<and> hub_inv (Suc n) h'"
proof -
  from t obtain pre post where split: "hb_threads h = pre @ th # post" "length pre = t" by (rule thread_atE)
  from endSubscription_step [OF inv, of src a err u] obtain h' ths where
    ran: "endSubscription src a err u h = Ran h'" and h': "hb_threads h' = hb_threads h @ ths"
    "connection_inv (Suc n) (hb_conn h')" "threads_inv (hub_client h') (hb_threads h')"
    "(src, a) \<notin> set (cl_subscriptions (hub_client h'))" by blast
  have "hub_inv (Suc n) (become t (Over e) h')"
    using h'(4) th split by (intro become_inv [OF h'(2,3)]) (auto simp: h'(1))
  with ran show ?thesis by simp
qed

lemma unsubscribed_step:
  assumes inv: "hub_inv n h" and t: "thread_at h t = Some (Cleaning src k)"
  shows "\<exists>h'. hub_perform (Unsubscribed t ok) h = Ran h' \<and> hub_inv (Suc n) h' \<and>
    hb_threads h' = (hb_threads h)[t := Over None] \<and> cl_cleanups (hub_client h') k = Some True"
proof -
  from inv have conn: "connection_inv n (hb_conn h)" and subs: "subs_inv (hub_client h)"
    and ths: "threads_inv (hub_client h) (hb_threads h)"
    by (auto simp: hub_inv_def connection_inv_def)
  from t obtain pre post where split: "hb_threads h = pre @ Cleaning src k # post" "length pre = t" by (rule thread_atE)
  from unsubscribe_done_inv [OF subs, of src k] obtain c where ran: "unsubscribe_done (hub_client h) src k = Ran c"
    and c: "subs_inv c" "same_calls (hub_client h) c" by blast
  note eff = unsubscribe_done_effect [OF subs ran]
  have "thread_ok (hub_client h) (Cleaning src k)" using threads_invD(1) [OF ths] split by simp
  with eff have over: "cl_cleanups c k = Some True" by (auto simp: advances_def)
  have "threads_inv c (pre @ Over None # post)"
    using threads_unsubscribed [OF ths [unfolded split(1)]] eff by blast
  moreover have "connection_inv (Suc n) (hb_conn (set_client c (h\<lparr>hb_socket_open := hb_socket_open h \<and> ok\<rparr>)))"
    using set_client_inv [OF _ _ c(1), of n "h\<lparr>hb_socket_open := hb_socket_open h \<and> ok\<rparr>"] conn c(2) by simp
  ultimately show ?thesis using t ran split over by (auto simp: hub_inv_def)
qed

lemma hub_step:
  assumes inv: "hub_inv n h" and n: "n < 2 ^ 64 - 1" and en: "hub_enabled e h"
  shows "\<exists>h'. hub_perform e h = Ran h' \<and> hub_inv (Suc n) h'"
proof -
  from inv have conn: "connection_inv n (hb_conn h)" and subs: "subs_inv (hub_client h)"
    and ths: "threads_inv (hub_client h) (hb_threads h)"
    by (auto simp: hub_inv_def connection_inv_def)
  note idle = connection_idle [OF conn]
  show ?thesis
  proof (cases e)
    case (NewSubscriber src err)
    have "threads_inv (hub_client h) (hb_threads h @ [case err of None \<Rightarrow> Entering src | Some err \<Rightarrow> Over (Some err)])"
      using ths by (auto simp: threads_inv_def attended_def split: option.split)
    with idle NewSubscriber show ?thesis by (simp add: hub_inv_def)
  next
    case (Enter t)
    with en enter_step [OF inv] show ?thesis by (auto split: option.splits thread.splits)
  next
    case (Woken t)
    with en obtain src k where t: "thread_at h t = Some (AwaitCleanup src k)" by (auto split: option.splits thread.splits)
    then obtain pre post where "hb_threads h = pre @ AwaitCleanup src k # post" "length pre = t" by (rule thread_atE)
    then have "hub_inv (Suc n) (become t (Entering src) h)" by (intro become_inv [OF idle ths]) auto
    with Woken t show ?thesis by simp
  next
    case (Cancelled t err)
    with en consider src k where "thread_at h t = Some (AwaitCleanup src k)" | src a where "thread_at h t = Some (Watching src a)"
      by (auto split: option.splits thread.splits)
    then show ?thesis
    proof cases
      case (1 src k)
      then obtain pre post where "hb_threads h = pre @ AwaitCleanup src k # post" "length pre = t" by (rule thread_atE)
      then have "hub_inv (Suc n) (become t (Over (Some err)) h)" by (intro become_inv [OF idle ths]) auto
      with Cancelled 1 show ?thesis by simp
    next
      case (2 src a)
      with Cancelled end_and_go_step [OF inv 2] show ?thesis by simp
    qed
  next
    case (Replied t err)
    with en obtain src a where t: "thread_at h t = Some (AwaitReply src a)" by (auto split: option.splits thread.splits)
    show ?thesis
    proof (cases err)
      case None
      from t obtain pre post where split: "hb_threads h = pre @ AwaitReply src a # post" "length pre = t" by (rule thread_atE)
      with threads_invD(1) [OF ths] have "hub_inv (Suc n) (become t (Watching src a) h)"
        by (intro become_inv [OF idle ths]) auto
      with Replied t None show ?thesis by simp
    next
      case (Some e')
      with Replied t end_and_go_step [OF inv t] show ?thesis by simp
    qed
  next
    case (StreamDone t)
    with en obtain src a where t: "thread_at h t = Some (Watching src a)" and shut: "holds sb_shut (cl_subs (hub_client h)) a"
      by (auto split: option.splits thread.splits)
    have "(src, a) \<notin> set (cl_subscriptions (hub_client h))"
      using owned_in [OF subs_invD(1) [OF subs], of src a] shut by (auto simp: holds_def open_sub_def split: option.splits)
    moreover from t obtain pre post where "hb_threads h = pre @ Watching src a # post" "length pre = t" by (rule thread_atE)
    ultimately have "hub_inv (Suc n) (become t (Over None) h)" by (intro become_inv [OF idle ths]) auto
    with StreamDone show ?thesis by simp
  next
    case (Unsubscribed t ok)
    with en obtain src k where "thread_at h t = Some (Cleaning src k)" by (auto split: option.splits thread.splits)
    with Unsubscribed unsubscribed_step [OF inv] show ?thesis by blast
  next
    case (Message r pick)
    from read_message_inv [OF conn, of r pick] obtain c cleanup where ran: "read_message (hub_client h) r pick = Ran (c, cleanup)"
      and c: "calls_inv (Suc n) c (co_calls (hb_conn h))" "subs_inv c" by blast
    from threads_spawn [OF ths message_effect [OF subs ran]]
    have "threads_inv c (hb_threads h @ unsubscribeAsync (message_source r) cleanup)" .
    with Message ran c show ?thesis by (simp add: hub_inv_def connection_inv_def)
  next
    case (Dies err)
    from conn have calls: "calls_inv n (hub_client h) (co_calls (hb_conn h))" by (simp add: connection_inv_def)
    have "threads_inv (failed (hub_client h) err) (hb_threads h)"
      using failed_effect [OF subs, of err] by (intro threads_advance [OF ths]) simp_all
    with Dies failPending_failed [OF calls subs] failed_inv [OF calls subs] show ?thesis
      by (simp add: hub_inv_def connection_inv_def)
  next
    case (Other ev)
    with en have ev: "other_event ev" "enabled ev (hb_conn h)" by simp_all
    from connection_step [OF conn n ev(2)] obtain s where s: "perform ev (hb_conn h) = Ran s" "connection_inv (Suc n) s" by blast
    with other_effect [OF ev(1) s(1)] have "threads_inv (co_client s) (hb_threads h)"
      by (intro threads_advance [OF ths]) simp_all
    with Other s show ?thesis by (simp add: hub_inv_def)
  qed
qed

interpretation hub: machine hub_enabled hub_perform hub_inv new_hub "2 ^ 64 - 1"
proof unfold_locales
  show "hub_inv 0 new_hub"
    using connection.inv_start
    by (simp add: hub_inv_def new_hub_def threads_inv_def attended_def connected_def Dial_def)
qed (rule hub_step)

subsection \<open>The connection under its subscribers\<close>

text \<open>
  Every step of the goroutines is at most one step of the connection, so the connection below them is one that theory
  \<open>Client\<close> reaches, and all that is shown of it there, the mailbox it refines included, holds with subscribers around.
\<close>

lemma endSubscription_perform:
  "endSubscription src a err u h = Ran h' \<Longrightarrow> perform (EndSubscription src a err u) (hb_conn h) = Ran (hb_conn h')"
  by (auto simp: endSubscription_def with_client_def and_then_Ran set_client_def)

lemma always_enabled:
  "enabled (OpenSubscription src) s" "enabled (EndSubscription src a err u) s" "enabled (UnsubscribeDone src k) s"
  by simp_all

lemma hub_step_below:
  assumes "hub_enabled e h" and "hub_perform e h = Ran h'"
  shows "hb_conn h' = hb_conn h \<or> (\<exists>ev. enabled ev (hb_conn h) \<and> perform ev (hb_conn h) = Ran (hb_conn h'))"
proof (cases e)
  case (Enter t)
  with assms obtain src where "thread_at h t = Some (Entering src)" by (auto split: option.splits thread.splits)
  with Enter assms(2) have "perform (OpenSubscription src) (hb_conn h) = Ran (hb_conn h')"
    by (auto simp: set_client_def split: prod.splits registration.splits)
  then show ?thesis by (metis always_enabled)
next
  case (Cancelled t err)
  with assms consider "hb_conn h' = hb_conn h" | src a h0 where "endSubscription src a err True h = Ran h0" "hb_conn h' = hb_conn h0"
    by (auto simp: and_then_Ran split: option.splits thread.splits)
  then show ?thesis by cases (simp, metis endSubscription_perform always_enabled(2))
next
  case (Replied t err)
  with assms consider "hb_conn h' = hb_conn h" | src a e' u h0 where "endSubscription src a e' u h = Ran h0" "hb_conn h' = hb_conn h0"
    by (auto simp: and_then_Ran split: option.splits thread.splits)
  then show ?thesis by cases (simp, metis endSubscription_perform always_enabled(2))
next
  case (Unsubscribed t ok)
  with assms obtain src k where "thread_at h t = Some (Cleaning src k)" by (auto split: option.splits thread.splits)
  with Unsubscribed assms(2) have "perform (UnsubscribeDone src k) (hb_conn h) = Ran (hb_conn h')"
    by (auto simp: and_then_Ran with_client_def set_client_def)
  then show ?thesis by (metis always_enabled)
next
  case (Message r pick)
  with assms have "enabled (Incoming r pick) (hb_conn h) \<and> perform (Incoming r pick) (hb_conn h) = Ran (hb_conn h')"
    by (auto simp: and_then_Ran with_client_def set_client_def)
  then show ?thesis by blast
next
  case (Dies err)
  with assms have "enabled (ReadFails err) (hb_conn h) \<and> perform (ReadFails err) (hb_conn h) = Ran (hb_conn h')"
    by (auto simp: and_then_Ran with_client_def set_client_def)
  then show ?thesis by blast
next
  case (Other ev)
  with assms have "enabled ev (hb_conn h) \<and> perform ev (hb_conn h) = Ran (hb_conn h')" by (auto simp: and_then_Ran)
  then show ?thesis by blast
qed (use assms in \<open>auto split: option.splits thread.splits\<close>)

theorem subscribers_run_connection:
  "runs hub_enabled hub_perform n new_hub h \<Longrightarrow> \<exists>m \<le> n. runs enabled perform m connected (hb_conn h)"
proof (induction n arbitrary: h)
  case 0
  then have "h = new_hub" by (simp add: runs_0)
  then show ?case by (auto simp: new_hub_def intro: runs_start)
next
  case (Suc n)
  from Suc.prems obtain h0 e where "runs hub_enabled hub_perform n new_hub h0" "hub_enabled e h0" "hub_perform e h0 = Ran h"
    by (rule runs_SucE)
  then show ?case
    using Suc.IH [of h0] hub_step_below [of e h0 h] by (metis Suc_le_mono le_Suc_eq runs_step)
qed

subsection \<open>What the goroutines guarantee\<close>

lemma reachable_hub:
  assumes "runs hub_enabled hub_perform n new_hub h" and "n < 2 ^ 64 - 1"
  shows "hub_inv n h" "subs_inv (hub_client h)" "threads_inv (hub_client h) (hb_threads h)"
proof -
  have "n \<le> 2 ^ 64 - 1" using assms(2) by simp
  from hub.reachable_inv [OF assms(1) this] show "hub_inv n h" .
  then show "subs_inv (hub_client h)" "threads_inv (hub_client h) (hb_threads h)"
    by (simp_all add: hub_inv_def connection_inv_def)
qed

lemma thread_at_in: "thread_at h t = Some th \<Longrightarrow> th \<in> set (hb_threads h)"
  by (auto simp: thread_at_def split: if_splits)

lemma running_thread_ok: "threads_inv (hub_client h) (hb_threads h) \<Longrightarrow> thread_at h t = Some th \<Longrightarrow> thread_ok (hub_client h) th"
  using threads_invD(1) by (metis list_all_iff thread_at_in)

lemma in_thread_at: "th \<in> set (hb_threads h) \<Longrightarrow> \<exists>t. thread_at h t = Some th"
  by (auto simp: thread_at_def in_set_conv_nth)

text \<open>A stream watched, and a second caller of the same source waiting while the first stream is unsubscribed.\<close>

definition handover_events :: "hub_event list" where
  "handover_events =
     [NewSubscriber ''app.stats'' None, Enter 0, Replied 0 None, NewSubscriber ''app.stats'' None,
      Cancelled 0 (Wrapped ''context canceled'' []), Enter 1]"

definition handover_hub :: hub where
  "handover_hub = (case run_events hub_enabled hub_perform handover_events new_hub of Ran h \<Rightarrow> h | _ \<Rightarrow> new_hub)"

definition watching_hub :: hub where
  "watching_hub = (case run_events hub_enabled hub_perform (take 3 handover_events) new_hub of Ran h \<Rightarrow> h | _ \<Rightarrow> new_hub)"

lemmas hub_run_defs =
  handover_events_def new_hub_def connected_def Dial_def Subscribe_def Let_def map_put_def map_del_def thread_at_def
  become_def spawn_def set_client_def endSubscription_def unregisterSubscriptionLocked_def close_subscription_def
  unsubscribeAsync_def eval_nat_numeral

lemma watching_hub_eq:
  "run_events hub_enabled hub_perform (take 3 handover_events) new_hub = Ran watching_hub"
  "hb_threads watching_hub = [Watching ''app.stats'' 0]"
  "cl_subscriptions (hub_client watching_hub) = [(''app.stats'', 0)]"
  by (simp_all add: watching_hub_def hub_run_defs)

lemma handover_hub_eq:
  "run_events hub_enabled hub_perform handover_events new_hub = Ran handover_hub"
  "hb_threads handover_hub = [Over None, AwaitCleanup ''app.stats'' 1, Cleaning ''app.stats'' 1]"
  "cl_cleanups (hub_client handover_hub) = [1 \<mapsto> False]" "cl_readErr (hub_client handover_hub) = None"
  by (simp_all add: handover_hub_def hub_run_defs)

lemma watching_reachable: "runs hub_enabled hub_perform 3 new_hub watching_hub"
  using runs_of_events [OF watching_hub_eq(1)] by (simp add: handover_events_def eval_nat_numeral)

lemma handover_reachable: "runs hub_enabled hub_perform 6 new_hub handover_hub"
  using runs_of_events [OF handover_hub_eq(1)] by (simp add: handover_events_def eval_nat_numeral)

text \<open>
  C23. Nobody waits for a stream that nobody ends: a caller waiting to subscribe to a source can go on at once, or a
  goroutine is in the call that unsubscribes the previous stream of that source, and when that call is over, whether it
  succeeded, failed or timed out, the caller can go on.
\<close>

theorem waiting_subscriber_wakes:
  assumes run: "runs hub_enabled hub_perform n new_hub h" and n: "n < 2 ^ 64 - 1"
    and t: "thread_at h t = Some (AwaitCleanup src k)"
  shows "hub_enabled (Woken t) h \<or>
    (\<exists>u. thread_at h u = Some (Cleaning src k) \<and>
       (\<forall>ok. \<exists>h'. hub_perform (Unsubscribed u ok) h = Ran h' \<and> hub_enabled (Woken t) h'))"
proof (cases "hub_enabled (Woken t) h")
  case False
  note inv = reachable_hub [OF run n]
  have "thread_ok (hub_client h) (AwaitCleanup src k)"
    by (rule running_thread_ok [OF inv(3) t])
  with False t have "(src, k) \<in> set (cl_unsubscribing (hub_client h))" by simp
  from threads_invD(3) [OF inv(3) this] obtain u where u: "thread_at h u = Some (Cleaning src k)"
    using in_thread_at by blast
  with t have "t \<noteq> u" by auto
  have "\<exists>h'. hub_perform (Unsubscribed u ok) h = Ran h' \<and> hub_enabled (Woken t) h'" for ok
    using unsubscribed_step [OF inv(1) u, of ok] t \<open>t \<noteq> u\<close> by (auto simp: thread_at_def split: if_splits)
  with u show ?thesis by blast
qed simp

lemma waiting_subscriber_wakes_witness:
  "\<exists>h'. hub_perform (Unsubscribed 2 False) handover_hub = Ran h' \<and> hub_enabled (Woken 1) h'"
proof -
  have t: "thread_at handover_hub 1 = Some (AwaitCleanup ''app.stats'' 1)"
    by (simp add: thread_at_def handover_hub_eq)
  have "u = 2" if "thread_at handover_hub u = Some (Cleaning ''app.stats'' 1)" for u
    using that by (auto simp: thread_at_def handover_hub_eq nth_Cons' split: if_splits)
  with waiting_subscriber_wakes [OF handover_reachable _ t] t show ?thesis
    by (auto simp: handover_hub_eq)
qed

text \<open>
  A stream ends with its context: every registered stream belongs to a goroutine, either in the call that
  subscribes or watching the context, and when the context of a watched stream ends, the stream is closed and no longer
  registered; if it was still open it ends with the context's error and the events already queued, and
  the source is being unsubscribed by a goroutine that any later caller has to wait for.
\<close>

theorem stream_ends_with_context:
  assumes run: "runs hub_enabled hub_perform n new_hub h" and n: "n < 2 ^ 64 - 1"
    and t: "thread_at h t = Some (Watching src a)"
  shows "(\<forall>p \<in> set (cl_subscriptions (hub_client h)). \<exists>u. thread_at h u = Some (AwaitReply (fst p) (snd p)) \<or>
       thread_at h u = Some (Watching (fst p) (snd p))) \<and>
    (\<exists>h'. hub_perform (Cancelled t e) h = Ran h' \<and> holds sb_shut (cl_subs (hub_client h')) a \<and>
       map_of (cl_subscriptions (hub_client h')) src \<noteq> Some a \<and>
       (case map_of (cl_subscriptions (hub_client h)) src = Some a of
          False \<Rightarrow> hub_client h' = hub_client h
        | True \<Rightarrow>
            cl_subs (hub_client h') a = map_option (\<lambda>sb. sb\<lparr>sb_shut := True, sb_err := Some e\<rparr>) (cl_subs (hub_client h) a) \<and>
            (\<exists>k. Cleaning src k \<in> set (hb_threads h') \<and> map_of (cl_unsubscribing (hub_client h')) src = Some k \<and>
               (\<not> cl_closed (hub_client h) \<longrightarrow> fst (Subscribe (hub_client h') src) = WaitFor k))))"
proof (rule conjI)
  note inv = reachable_hub [OF run n]
  show "\<forall>p \<in> set (cl_subscriptions (hub_client h)). \<exists>u. thread_at h u = Some (AwaitReply (fst p) (snd p)) \<or>
       thread_at h u = Some (Watching (fst p) (snd p))"
    using threads_invD(4) [OF inv(3)] in_thread_at by fastforce
  have ok: "thread_ok (hub_client h) (Watching src a)"
    by (rule running_thread_ok [OF inv(3) t])
  show "\<exists>h'. hub_perform (Cancelled t e) h = Ran h' \<and> holds sb_shut (cl_subs (hub_client h')) a \<and>
       map_of (cl_subscriptions (hub_client h')) src \<noteq> Some a \<and>
       (case map_of (cl_subscriptions (hub_client h)) src = Some a of
          False \<Rightarrow> hub_client h' = hub_client h
        | True \<Rightarrow>
            cl_subs (hub_client h') a = map_option (\<lambda>sb. sb\<lparr>sb_shut := True, sb_err := Some e\<rparr>) (cl_subs (hub_client h) a) \<and>
            (\<exists>k. Cleaning src k \<in> set (hb_threads h') \<and> map_of (cl_unsubscribing (hub_client h')) src = Some k \<and>
               (\<not> cl_closed (hub_client h) \<longrightarrow> fst (Subscribe (hub_client h') src) = WaitFor k)))"
  proof (cases "map_of (cl_subscriptions (hub_client h)) src = Some a")
    case False
    then have "(src, a) \<notin> set (cl_subscriptions (hub_client h))"
      using subs_invD(1) [OF inv(2)] by (auto simp: owned_def dest: map_of_is_SomeI)
    with ok have "holds sb_shut (cl_subs (hub_client h)) a" by simp
    with False t show ?thesis
      by (auto simp: endSubscription_def unregisterSubscriptionLocked_def unsubscribeAsync_def)
  next
    case True
    from ownedD [OF subs_invD(1) [OF inv(2)] True] obtain sb where sb: "cl_subs (hub_client h) a = Some sb" "\<not> sb_shut sb"
      by (auto elim: holdsE simp: open_sub_def)
    have alive: "cl_readErr (hub_client h) = None" using subs_invD(4) [OF inv(2)] True by fastforce
    from t have len: "t < length (hb_threads h)" by (simp add: thread_at_def split: if_splits)
    with True t sb alive show ?thesis
      by (auto simp: endSubscription_def unregisterSubscriptionLocked_def unsubscribeAsync_def Let_def map_of_map_del
          map_of_map_put Subscribe_def list_update_append)
  qed
qed

lemma stream_ends_with_context_witness:
  "\<exists>h'. hub_perform (Cancelled 0 (Wrapped ''context canceled'' [])) watching_hub = Ran h' \<and>
     holds sb_shut (cl_subs (hub_client h')) 0"
  using stream_ends_with_context [OF watching_reachable, of 0 "''app.stats''" 0 "Wrapped ''context canceled'' []"]
  by (auto simp: thread_at_def watching_hub_eq)



end
