(* ===== verification/Callers.thy ===== *)
theory Callers
  imports MCP_Server Session Step_Machine
begin

section \<open>One server, many callers\<close>

text \<open>
  \<^verbatim>\<open>mcpHandler\<close> of \<^verbatim>\<open>internal/server/mcp.go\<close> with what it caches per credential: an MCP server, the session provider its tools
  share, and the registry of its tasks. The machine's steps are those of the HTTP requests in flight: a request arrives and
  finds its caller, its handler asks for a session, calls tools, reads a job resource, hands out a task or is asked for one.
  Requests interleave in any order. A tool call is one step, in a world of its own: whatever concurrent requests did
  to the target in between is part of what the target answers.

  A connection is numbered in the order of dialling, and the state keeps the calls made on it. Which request handed out which task
  is kept to reason about it.
\<close>

subsection \<open>What is kept per credential\<close>

record caller =
  cl_key :: string
  cl_server :: mcp_server
  cl_provider :: "nat provider"
  cl_tasks :: task_registry

definition new_caller :: "string \<Rightarrow> mcp_config \<Rightarrow> string \<Rightarrow> caller" where
  "new_caller html cfg apiKey =
     \<lparr>cl_key = apiKey, cl_server = NewMCPServer html cfg True, cl_provider = NewSessionProvider,
      cl_tasks = newTaskRegistry\<rparr>"

definition caller_for ::
    "crypto \<Rightarrow> string \<Rightarrow> mcp_config \<Rightarrow> string \<Rightarrow> (string \<rightharpoonup> caller) \<Rightarrow> string \<times> (string \<rightharpoonup> caller)" where
  "caller_for cy html cfg apiKey cs =
     (let i = credentialID cy apiKey
      in case cs i of
           Some existing \<Rightarrow> (i, cs)
         | None \<Rightarrow> (i, cs(i \<mapsto> new_caller html cfg apiKey)))"

text \<open>This is the handler cache of \<open>Session\<close>, with what is behind a handler filled in.\<close>

lemma caller_for_handlerFor:
  assumes "caller_for cy html cfg key cs = (i, cs')"
  shows "handlerFor cy key (map_option cl_key \<circ> cs) =
    (case cs' i of None \<Rightarrow> [] | Some cl \<Rightarrow> cl_key cl, map_option cl_key \<circ> cs')"
proof (cases "cs (credentialID cy key)")
  case None
  with assms have "i = credentialID cy key" "cs' = cs(i \<mapsto> new_caller html cfg key)"
    by (auto simp: caller_for_def Let_def)
  with None show ?thesis by (simp add: handlerFor_def Let_def new_caller_def fun_eq_iff)
next
  case (Some cl)
  with assms show ?thesis by (simp add: caller_for_def handlerFor_def Let_def)
qed

subsection \<open>The state and its steps\<close>

record incoming =
  in_key :: string
  in_caller :: string
  in_session :: "(go_error + nat) option"

record callers =
  mh_callers :: "string \<rightharpoonup> caller"
  mh_table :: "nat session_table"
  mh_conns :: "trace list"
  mh_requests :: "incoming list"
  mh_made :: "(nat \<times> string \<times> int) list"

definition no_callers :: callers where
  "no_callers = \<lparr>mh_callers = Map.empty, mh_table = [], mh_conns = [], mh_requests = [], mh_made = []\<rparr>"

text \<open>Without a session manager there is one server, without a session, for everyone.\<close>

datatype http_handler = OneServer mcp_server | PerCaller callers

definition NewMCPHandler :: "string \<Rightarrow> mcp_config \<Rightarrow> bool \<Rightarrow> http_handler" where
  "NewMCPHandler html cfg sessions =
     (if \<not> sessions then OneServer (NewMCPServer html cfg False) else PerCaller no_callers)"

definition arrive ::
    "crypto \<Rightarrow> keys option \<Rightarrow> string \<Rightarrow> mcp_config \<Rightarrow> string \<Rightarrow> string \<Rightarrow> int \<Rightarrow> callers \<Rightarrow> callers" where
  "arrive cy oauthKeys html cfg apiKeyHeader auth now s =
     (case CredentialFromRequest cy oauthKeys now apiKeyHeader auth of
        Inl e \<Rightarrow> s
      | Inr apiKey \<Rightarrow>
          (case caller_for cy html cfg apiKey (mh_callers s) of
             (i, cs) \<Rightarrow> s\<lparr>mh_callers := cs,
                mh_requests := mh_requests s @ [\<lparr>in_key = apiKey, in_caller = i, in_session = None\<rparr>]\<rparr>))"

text \<open>What arriving does to the cache, and when it is refused, is what \<open>ServeHTTP\<close> of \<open>Session\<close> says.\<close>

lemma arrive_ServeHTTP:
  "case ServeHTTP cy oauthKeys url now apiKeyHeader auth (map_option cl_key \<circ> mh_callers s) of
     (Unauthorized challenge e, cache) \<Rightarrow> arrive cy oauthKeys html cfg apiKeyHeader auth now s = s
   | (Served k, cache) \<Rightarrow>
       cache = map_option cl_key \<circ> mh_callers (arrive cy oauthKeys html cfg apiKeyHeader auth now s) \<and>
       (\<exists>q. mh_requests (arrive cy oauthKeys html cfg apiKeyHeader auth now s) = mh_requests s @ [q] \<and>
          cache (in_caller q) = Some k)"
proof (cases "CredentialFromRequest cy oauthKeys now apiKeyHeader auth")
  case (Inl e)
  then show ?thesis by (simp add: ServeHTTP_def arrive_def)
next
  case (Inr key)
  obtain i cs where c: "caller_for cy html cfg key (mh_callers s) = (i, cs)" by fastforce
  then have "cs i \<noteq> None" by (auto simp: caller_for_def Let_def split: option.splits)
  with Inr c caller_for_handlerFor [OF c] show ?thesis
    by (auto simp: ServeHTTP_def arrive_def)
qed

text \<open>
  A handler asks its caller's provider for a session. The provider opens at most two on the way, the world's \<open>j\<close>-th dial
  and the target it reaches being \<open>dials j\<close> and \<open>targets j\<close>. A handler that were given neither a session nor an error would
  dereference a nil pointer.
\<close>

definition opened :: "(nat \<Rightarrow> go_error option) \<Rightarrow> (nat \<Rightarrow> middleware) \<Rightarrow> string \<Rightarrow> nat \<Rightarrow> (go_error + unit) \<times> bool \<times> trace" where
  "opened dials targets apiKey j = Open (targets j) (dials j) apiKey []"

definition attempts ::
    "(nat \<Rightarrow> go_error option) \<Rightarrow> (nat \<Rightarrow> middleware) \<Rightarrow> string \<Rightarrow> nat \<Rightarrow> nat \<Rightarrow> nat \<Rightarrow> go_error + nat" where
  "attempts dials targets apiKey made base k =
     (case opened dials targets apiKey (k - made) of
        (Inl e, shut, tr) \<Rightarrow> Inl e
      | (Inr u, shut, tr) \<Rightarrow> Inr (base + (k - made)))"

definition ask_session ::
    "nat \<Rightarrow> (nat \<Rightarrow> go_error option) \<Rightarrow> (nat \<Rightarrow> middleware) \<Rightarrow> (nat \<Rightarrow> bool) \<Rightarrow> caller \<Rightarrow> callers \<Rightarrow> callers outcome" where
  "ask_session r dials targets alive cl s =
     (let q = mh_requests s ! r;
          made = pv_attempts (cl_provider cl);
          base = length (mh_conns s)
      in case provide (attempts dials targets (cl_key cl) made base) alive (in_caller q) (cl_provider cl) (mh_table s) of
           (res, shut, p, table) \<Rightarrow>
             let s' = s\<lparr>mh_callers := (mh_callers s)(in_caller q \<mapsto> cl\<lparr>cl_provider := p\<rparr>), mh_table := table,
                   mh_conns := mh_conns s @
                     map (\<lambda>j. snd (snd (opened dials targets (cl_key cl) j))) [0..<pv_attempts p - made]\<rparr>
             in case res of
                  Inl e \<Rightarrow> Ran (s'\<lparr>mh_requests := (mh_requests s)[r := q\<lparr>in_session := Some (Inl e)\<rparr>]\<rparr>)
                | Inr None \<Rightarrow> Panicked
                | Inr (Some c) \<Rightarrow> Ran (s'\<lparr>mh_requests := (mh_requests s)[r := q\<lparr>in_session := Some (Inr c)\<rparr>]\<rparr>))"

text \<open>What a request does on the connection it was given, as a function of the calls made on it; without one it makes none.\<close>

definition on_connection :: "incoming \<Rightarrow> (trace \<Rightarrow> trace) \<Rightarrow> callers \<Rightarrow> callers" where
  "on_connection q f s =
     (case in_session q of
        Some (Inr c) \<Rightarrow> s\<lparr>mh_conns := (mh_conns s)[c := f (mh_conns s ! c)]\<rparr>
      | _ \<Rightarrow> s)"

definition session_error :: "incoming \<Rightarrow> go_error option" where
  "session_error q = (case in_session q of Some (Inl e) \<Rightarrow> Some e | _ \<Rightarrow> None)"

definition set_tasks :: "string \<Rightarrow> caller \<Rightarrow> task_registry \<Rightarrow> callers \<Rightarrow> callers" where
  "set_tasks i cl tasks s = s\<lparr>mh_callers := (mh_callers s)(i \<mapsto> cl\<lparr>cl_tasks := tasks\<rparr>)\<rparr>"

datatype callers_event =
    Arrives string string int
  | AsksSession nat "nat \<Rightarrow> go_error option" "nat \<Rightarrow> middleware" "nat \<Rightarrow> bool"
  | CallsTool nat string tool_input world
  | ReadsResource nat middleware string
  | ToolReturns nat "string list option" string string "go_error + handled" int string
  | GetsTask nat middleware int string
  | UpdatesTask nat int string
  | CancelsTask nat middleware int string
  | Consents string "go_error option" middleware

definition caller_of :: "callers \<Rightarrow> nat \<Rightarrow> caller option" where
  "caller_of s r = (if r < length (mh_requests s) then mh_callers s (in_caller (mh_requests s ! r)) else None)"

text \<open>The three methods of tasks exist on a server that carries the extension.\<close>

definition has_tasks :: "callers \<Rightarrow> nat \<Rightarrow> bool" where
  "has_tasks s r = (case caller_of s r of None \<Rightarrow> False | Some cl \<Rightarrow> ms_tasks (cl_server cl))"

fun callers_enabled :: "callers_event \<Rightarrow> callers \<Rightarrow> bool" where
  "callers_enabled (Arrives apiKeyHeader auth now) s \<longleftrightarrow> True"
| "callers_enabled (AsksSession r dials targets alive) s \<longleftrightarrow> r < length (mh_requests s)"
| "callers_enabled (CallsTool r name inp wd) s \<longleftrightarrow> r < length (mh_requests s)"
| "callers_enabled (ReadsResource r mw uri) s \<longleftrightarrow> r < length (mh_requests s)"
| "callers_enabled (ToolReturns r caps meth tool res now new_id) s \<longleftrightarrow> has_tasks s r"
| "callers_enabled (GetsTask r mw now i) s \<longleftrightarrow> has_tasks s r"
| "callers_enabled (UpdatesTask r now i) s \<longleftrightarrow> has_tasks s r"
| "callers_enabled (CancelsTask r mw now i) s \<longleftrightarrow> has_tasks s r"
| "callers_enabled (Consents apiKey dial mw) s \<longleftrightarrow> True"

text \<open>The job a substitution hands out a task for.\<close>

definition task_made :: "substituted \<Rightarrow> nat \<Rightarrow> task_registry \<Rightarrow> (nat \<times> string \<times> int) list" where
  "task_made sub r tasks =
     (case sub of
        CreateTask t res \<Rightarrow> (case tasks (tk_id t) of None \<Rightarrow> [] | Some e \<Rightarrow> [(r, tk_id t, te_job_id e)])
      | Unchanged res \<Rightarrow> [])"

text \<open>What a request does once its caller is known.\<close>

fun callers_step :: "mcp_config \<Rightarrow> callers_event \<Rightarrow> caller \<Rightarrow> callers \<Rightarrow> callers outcome" where
  "callers_step cfg (AsksSession r dials targets alive) cl s = ask_session r dials targets alive cl s"
| "callers_step cfg (CallsTool r name inp wd) cl s =
     (let q = mh_requests s ! r
      in Ran (on_connection q
           (request_calls (cl_server cl) cfg (wd\<lparr>wd_session := session_error q\<rparr>) name inp) s))"
| "callers_step cfg (ReadsResource r mw uri) cl s =
     (let q = mh_requests s ! r
      in Ran (on_connection q (\<lambda>tr. snd (read_job_resource mw (session_error q) uri tr)) s))"
| "callers_step cfg (ToolReturns r caps meth tool res now new_id) cl s =
     (case substitute_task (clientDeclaresTasks caps) meth tool res now new_id (cl_tasks cl) of
        (sub, tasks) \<Rightarrow>
          Ran ((set_tasks (in_caller (mh_requests s ! r)) cl tasks s)\<lparr>mh_made := mh_made s @ task_made sub r tasks\<rparr>))"
| "callers_step cfg (GetsTask r mw now i) cl s =
     (let q = mh_requests s ! r;
          calls = (\<lambda>tr. snd (snd (tasks_get mw (session_error q) now i (cl_tasks cl) tr)))
      in Ran (on_connection q calls
           (set_tasks (in_caller q) cl (fst (snd (tasks_get mw (session_error q) now i (cl_tasks cl) []))) s)))"
| "callers_step cfg (UpdatesTask r now i) cl s =
     Ran (set_tasks (in_caller (mh_requests s ! r)) cl (snd (tasks_update now i (cl_tasks cl))) s)"
| "callers_step cfg (CancelsTask r mw now i) cl s =
     (let q = mh_requests s ! r;
          calls = (\<lambda>tr. snd (snd (tasks_cancel mw (session_error q) now i (cl_tasks cl) tr)))
      in Ran (on_connection q calls
           (set_tasks (in_caller q) cl (fst (snd (tasks_cancel mw (session_error q) now i (cl_tasks cl) []))) s)))"
| "callers_step cfg e cl s = Ran s"

fun request_of :: "callers_event \<Rightarrow> nat" where
  "request_of (AsksSession r dials targets alive) = r"
| "request_of (CallsTool r name inp wd) = r"
| "request_of (ReadsResource r mw uri) = r"
| "request_of (ToolReturns r caps meth tool res now new_id) = r"
| "request_of (GetsTask r mw now i) = r"
| "request_of (UpdatesTask r now i) = r"
| "request_of (CancelsTask r mw now i) = r"
| "request_of e = 0"

text \<open>The consent page tries the key typed into it on a connection of its own, closed again at once.\<close>

fun callers_perform ::
    "crypto \<Rightarrow> keys option \<Rightarrow> string \<Rightarrow> mcp_config \<Rightarrow> callers_event \<Rightarrow> callers \<Rightarrow> callers outcome" where
  "callers_perform cy oauthKeys html cfg (Arrives apiKeyHeader auth now) s =
     Ran (arrive cy oauthKeys html cfg apiKeyHeader auth now s)"
| "callers_perform cy oauthKeys html cfg (Consents apiKey dial mw) s =
     Ran (s\<lparr>mh_conns := mh_conns s @ [snd (Validate mw dial apiKey [])]\<rparr>)"
| "callers_perform cy oauthKeys html cfg e s =
     (case caller_of s (request_of e) of
        None \<Rightarrow> Panicked
      | Some cl \<Rightarrow> callers_step cfg e cl s)"

subsection \<open>What no tool calls\<close>

text \<open>The denylist refuses neither the method nor any of the objects among the parameters.\<close>

definition permitted :: "mcall \<Rightarrow> bool" where
  "permitted c \<longleftrightarrow> CheckDenied (mc_method c) [] = None \<and> check_params (mc_method c) (mc_params c) = None"

lemma permitted_always: "(\<And>args. CheckDenied (mc_method c) args = None) \<Longrightarrow> permitted c"
  by (auto simp: permitted_def check_params_None list_all_iff split: json.split)

lemma unlisted_permitted: "mc_method c \<notin> set (map dn_method denials) \<Longrightarrow> permitted c"
  by (rule permitted_always) (rule CheckDenied_unlisted)

text \<open>The calls of a handler come after the ones already made, and the denylist lets all of them through.\<close>

definition permitted_calls :: "trace \<Rightarrow> trace \<Rightarrow> bool" where
  "permitted_calls tr tr' \<longleftrightarrow> (\<exists>cs. tr' = tr @ cs \<and> list_all permitted cs)"

lemma permitted_calls_refl [intro, simp]: "permitted_calls tr tr"
  by (simp add: permitted_calls_def)

lemma permitted_calls_append [simp]: "permitted_calls tr (tr @ cs) \<longleftrightarrow> list_all permitted cs"
  by (simp add: permitted_calls_def)

lemma permitted_harmless:
  "permitted get_methods_call" "permitted (job_query jid)" "permitted (target_query t)"
  "permitted \<lparr>mc_method = ''core.job_abort'', mc_params = ps\<rparr>"
  "permitted \<lparr>mc_method = ''auth.login_with_api_key'', mc_params = ps\<rparr>"
  "permitted \<lparr>mc_method = ''system.version'', mc_params = ps\<rparr>"
  "permitted \<lparr>mc_method = ''core.get_jobs'', mc_params = ps\<rparr>"
  by (simp_all add: unlisted_permitted denials_def get_methods_call_def job_query_def target_query_def)

lemma surface_unlisted: "list_all (\<lambda>m. m \<notin> set (map dn_method denials)) surface_table"
  unfolding surface_table_def inventory_methods_eq by (simp add: ReadConcerns_def table_simps denials_def)

lemma reader_permitted:
  assumes "reads_only h"
  shows "permitted_calls tr (handler_calls cfg wd h inp tr)"
proof -
  from reader_calls [OF assms, of tr cfg wd inp] obtain cs
    where cs: "handler_calls cfg wd h inp tr = tr @ cs" "mc_method ` set cs \<subseteq> read_surface"
    unfolding calls_within_def by blast
  with surface_unlisted read_surface_table have "list_all permitted cs"
    by (auto simp: list_all_iff simp del: set_map intro!: unlisted_permitted)
  with cs(1) show ?thesis by simp
qed

lemma usable_bare: "reported_usable w r n \<Longrightarrow> CheckDenied n [] = None"
  by (auto simp: reported_usable_def usable_def CheckDiscoverable_None meta_info_def split: option.splits)

lemma call_method_permitted: "permitted_calls tr (snd (call_method w mw sess inp tr))"
proof -
  obtain cs where "snd (call_method w mw sess inp tr) = tr @ cs" "cs = [] \<or> cs = [get_methods_call] \<or>
      cs = [get_methods_call, \<lparr>mc_method = ci_method inp, mc_params = ci_params inp\<rparr>] \<and>
      check_params (ci_method inp) (ci_params inp) = None \<and> reported_usable w (mw tr get_methods_call) (ci_method inp)"
    using call_method_sends [of w mw sess inp tr] by blast
  moreover have "permitted \<lparr>mc_method = n, mc_params = ps\<rparr>"
    if "reported_usable w r n" "check_params n ps = None" for r n ps
    using usable_bare [OF that(1)] that(2) by (simp add: permitted_def)
  ultimately show ?thesis using permitted_harmless(1) by (auto simp: list_all_iff)
qed

lemma write_tool_permitted_calls:
  assumes "w \<in> set WriteOps"
  shows "permitted_calls tr (snd (write_tool w mw sess inp tr))"
proof (cases "sess \<noteq> None \<or> input_target inp = []")
  case True
  then show ?thesis by (simp add: write_tool_refused)
next
  case False
  let ?t = "input_target inp"
  have own: "permitted \<lparr>mc_method = wo_method w, mc_params = ps\<rparr>" for ps
    by (rule permitted_always) (simp add: write_method_permitted [OF assms])
  obtain err tr' where res: "resolveTarget mw w ?t tr = (err, tr')" by fastforce
  have "tr' = tr \<or> tr' = tr @ [target_query ?t]"
    using res resolveTarget_app [of w mw ?t tr] by (cases "wo_target_arg w = ''app_name''") (auto simp: resolveTarget_def)
  then have tr': "permitted_calls tr tr'" using permitted_harmless(3) by auto
  have "snd (write_tool w mw None inp tr) = tr' \<or>
      (\<exists>ps. snd (write_tool w mw None inp tr) = tr' @ [\<lparr>mc_method = wo_method w, mc_params = ps\<rparr>])"
    using write_tool_permitted [OF assms, of inp mw tr] False res CallJob_trace [of mw "wo_method w" _ tr']
    by (cases err) (auto split: sum.split prod.split; metis snd_conv)+
  with tr' own False show ?thesis by (auto simp: permitted_calls_def)
qed

lemma config_methods_bare: "list_all (\<lambda>c. CheckDenied (cw_method c) [] = None) ConfigWrites"
proof -
  have "list_all (\<lambda>m. CheckDenied m [] = None) (map cw_method ConfigWrites)"
    unfolding config_methods denied_bare_iff DeniedMethods_eq by simp
  then show ?thesis by (simp add: list_all_iff)
qed

lemma config_tool_permitted_calls:
  assumes "w \<in> set ConfigWrites"
  shows "permitted_calls tr (snd (config_write_tool w mw sess inp tr))"
proof -
  have "permitted \<lparr>mc_method = cw_method w, mc_params = configParams w inp\<rparr>"
    if "check_config (cw_method w) (cwi_config inp) = None"
    using that config_methods_bare assms by (simp add: permitted_def configParams_def check_config_None list_all_iff)
  moreover obtain cs where "snd (config_write_tool w mw sess inp tr) = tr @ cs"
    "cs = [] \<or> cs = [get_methods_call, \<lparr>mc_method = cw_method w, mc_params = configParams w inp\<rparr>] \<and>
      check_config (cw_method w) (cwi_config inp) = None"
    using config_write_tool_sends [of w mw sess inp tr] by blast
  ultimately show ?thesis using permitted_harmless(1) by (auto simp: list_all_iff)
qed

lemma request_permitted: "permitted_calls tr (request_calls (NewMCPServer html cfg session) cfg wd name inp tr)"
proof (cases "find_tool (NewMCPServer html cfg session) name")
  case None
  then show ?thesis by (simp add: request_calls_def)
next
  case (Some t)
  let ?h = "tl_handler t"
  consider "reads_only ?h" | "?h = CallTool" | w where "?h = WriteTool w" "w \<in> set WriteOps"
    | w where "?h = ConfigTool w" "w \<in> set ConfigWrites"
    using find_tool_in [OF Some]
    by (auto simp: NewMCPServer_def registerInventory_def registerConcerns_def registerJobs_def registerDiscovery_def
        registerWrites_def registerConfigWrites_def reads_only_def split: if_splits)
  then have "permitted_calls tr (handler_calls cfg wd ?h inp tr)"
    using reader_permitted call_method_permitted write_tool_permitted_calls config_tool_permitted_calls
    by cases (auto simp: handler_calls_def split: tool_input.split)
  with Some show ?thesis by (simp add: request_calls_def)
qed


subsection \<open>The invariant\<close>

definition login_call :: "string \<Rightarrow> mcall" where
  "login_call k = \<lparr>mc_method = ''auth.login_with_api_key'', mc_params = [JStr k]\<rparr>"

definition version_call :: mcall where
  "version_call = \<lparr>mc_method = ''system.version'', mc_params = []\<rparr>"

text \<open>Connection \<open>c\<close> was logged in with the key \<open>k\<close>, and what is on it came afterwards.\<close>

definition logged_in :: "trace list \<Rightarrow> string \<Rightarrow> nat \<Rightarrow> bool" where
  "logged_in conns k c \<longleftrightarrow> c < length conns \<and> (\<exists>rest. conns ! c = login_call k # version_call # rest)"

definition provider_has :: "trace list \<Rightarrow> string \<Rightarrow> nat provider \<Rightarrow> bool" where
  "provider_has conns k p \<longleftrightarrow>
     (if pv_opened p
      then (case pv_error p of
              Some e \<Rightarrow> True
            | None \<Rightarrow> (case pv_session p of None \<Rightarrow> False | Some c \<Rightarrow> logged_in conns k c))
      else pv_session p = None \<and> pv_error p = None)"

text \<open>The tasks of a registry are those handed out to requests of the caller \<open>i\<close>.\<close>

definition tasks_made_for :: "callers \<Rightarrow> string \<Rightarrow> task_registry \<Rightarrow> bool" where
  "tasks_made_for s i tasks \<longleftrightarrow>
     (\<forall>t e. tasks t = Some e \<longrightarrow>
        (\<exists>r < length (mh_requests s). (r, t, te_job_id e) \<in> set (mh_made s) \<and> in_caller (mh_requests s ! r) = i))"

definition caller_ok :: "crypto \<Rightarrow> string \<Rightarrow> mcp_config \<Rightarrow> callers \<Rightarrow> string \<Rightarrow> caller \<Rightarrow> bool" where
  "caller_ok cy html cfg s i cl \<longleftrightarrow> credentialID cy (cl_key cl) = i \<and> cl_key cl \<in> in_key ` set (mh_requests s) \<and>
     cl_server cl = NewMCPServer html cfg True \<and> provider_has (mh_conns s) (cl_key cl) (cl_provider cl) \<and>
     tasks_made_for s i (cl_tasks cl)"

definition request_ok :: "crypto \<Rightarrow> callers \<Rightarrow> incoming \<Rightarrow> bool" where
  "request_ok cy s q \<longleftrightarrow> in_caller q = credentialID cy (in_key q) \<and>
     (case mh_callers s (in_caller q) of
        None \<Rightarrow> False
      | Some cl \<Rightarrow> (case in_session q of Some (Inr c) \<Rightarrow> logged_in (mh_conns s) (cl_key cl) c | _ \<Rightarrow> True))"

definition callers_inv :: "crypto \<Rightarrow> string \<Rightarrow> mcp_config \<Rightarrow> nat \<Rightarrow> callers \<Rightarrow> bool" where
  "callers_inv cy html cfg n s \<longleftrightarrow> (\<forall>i cl. mh_callers s i = Some cl \<longrightarrow> caller_ok cy html cfg s i cl) \<and>
     (\<forall>q \<in> set (mh_requests s). request_ok cy s q) \<and> list_all (list_all permitted) (mh_conns s)"

lemma callers_invD:
  assumes "callers_inv cy html cfg n s"
  shows "mh_callers s i = Some cl \<Longrightarrow> caller_ok cy html cfg s i cl"
    and "q \<in> set (mh_requests s) \<Longrightarrow> request_ok cy s q" and "list_all (list_all permitted) (mh_conns s)"
  using assms by (simp_all add: callers_inv_def)

lemma no_callers_inv: "callers_inv cy html cfg 0 no_callers"
  by (simp add: callers_inv_def no_callers_def)

text \<open>Connections only grow: new ones are dialled, and calls are added to the old ones.\<close>

definition conns_grow :: "trace list \<Rightarrow> trace list \<Rightarrow> bool" where
  "conns_grow conns conns' \<longleftrightarrow> length conns \<le> length conns' \<and>
     (\<forall>c < length conns. permitted_calls (conns ! c) (conns' ! c))"

lemma logged_in_grow: "logged_in conns k c \<Longrightarrow> conns_grow conns conns' \<Longrightarrow> logged_in conns' k c"
  unfolding logged_in_def conns_grow_def permitted_calls_def by fastforce

lemma provider_has_grow: "provider_has conns k p \<Longrightarrow> conns_grow conns conns' \<Longrightarrow> provider_has conns' k p"
  using logged_in_grow by (auto simp: provider_has_def split: option.splits if_splits)

lemma conns_grow_refl [simp]: "conns_grow conns conns"
  by (simp add: conns_grow_def)

lemma conns_grow_append [simp]: "conns_grow conns (conns @ conns2)"
  by (simp add: conns_grow_def nth_append)

lemma conns_grow_update: "permitted_calls (conns ! c) tr \<Longrightarrow> conns_grow conns (conns[c := tr])"
  by (cases "c < length conns") (auto simp: conns_grow_def nth_list_update)

lemma grown_permitted:
  assumes "list_all (list_all permitted) conns" and "permitted_calls (conns ! c) tr"
  shows "list_all (list_all permitted) (conns[c := tr])"
proof (cases "c < length conns")
  case True
  with assms(1) have "list_all permitted (conns ! c)" by (simp add: list_all_length)
  with assms(2) have "list_all permitted tr" by (auto simp: permitted_calls_def)
  with assms(1) show ?thesis
    using set_update_subset_insert [of conns c tr] by (auto simp: list_all_iff)
qed (simp add: assms(1) not_less list_update_beyond)

text \<open>A step that changes nothing but what is on the connections keeps the invariant.\<close>

lemma inv_conns:
  assumes "callers_inv cy html cfg n s" and "conns_grow (mh_conns s) conns" and "list_all (list_all permitted) conns"
  shows "callers_inv cy html cfg m (s\<lparr>mh_conns := conns\<rparr>)"
proof -
  have "caller_ok cy html cfg (s\<lparr>mh_conns := conns\<rparr>) i cl" if "mh_callers s i = Some cl" for i cl
    using callers_invD(1) [OF assms(1) that] provider_has_grow [OF _ assms(2)]
    by (simp add: caller_ok_def tasks_made_for_def)
  moreover have "request_ok cy (s\<lparr>mh_conns := conns\<rparr>) q" if "q \<in> set (mh_requests s)" for q
    using callers_invD(2) [OF assms(1) that] logged_in_grow [OF _ assms(2)]
    by (auto simp: request_ok_def split: option.splits sum.splits)
  ultimately show ?thesis using assms(3) by (simp add: callers_inv_def)
qed

lemma inv_on_connection:
  assumes "callers_inv cy html cfg n s" and "\<And>tr. permitted_calls tr (f tr)"
  shows "callers_inv cy html cfg m (on_connection q f s)"
proof -
  have "callers_inv cy html cfg m s" using assms(1) by (simp add: callers_inv_def)
  moreover have "callers_inv cy html cfg m (s\<lparr>mh_conns := (mh_conns s)[c := f (mh_conns s ! c)]\<rparr>)" for c
    by (rule inv_conns [OF assms(1)])
      (simp_all add: conns_grow_update grown_permitted assms(2) callers_invD(3) [OF assms(1)])
  ultimately show ?thesis by (simp add: on_connection_def split: option.split sum.split)
qed

text \<open>A step that changes a registry keeps it if every task in it was handed out to its own caller.\<close>

lemma inv_tasks:
  assumes "callers_inv cy html cfg n s" and "mh_callers s i = Some cl"
    and "tasks_made_for (s\<lparr>mh_made := mh_made s @ made\<rparr>) i tasks"
  shows "callers_inv cy html cfg m ((set_tasks i cl tasks s)\<lparr>mh_made := mh_made s @ made\<rparr>)"
proof -
  let ?s = "(set_tasks i cl tasks s)\<lparr>mh_made := mh_made s @ made\<rparr>"
  have "caller_ok cy html cfg ?s j cl'" if "mh_callers ?s j = Some cl'" for j cl'
  proof (cases "j = i")
    case True
    with that have "cl' = cl\<lparr>cl_tasks := tasks\<rparr>" by (simp add: set_tasks_def)
    with True callers_invD(1) [OF assms(1,2)] assms(3) show ?thesis
      by (simp add: caller_ok_def set_tasks_def tasks_made_for_def)
  next
    case False
    with that have "mh_callers s j = Some cl'" by (simp add: set_tasks_def)
    from callers_invD(1) [OF assms(1) this] show ?thesis
      by (auto simp: caller_ok_def set_tasks_def tasks_made_for_def)
  qed
  moreover have "request_ok cy ?s q" if "q \<in> set (mh_requests s)" for q
    using callers_invD(2) [OF assms(1) that] assms(2)
    by (auto simp: request_ok_def set_tasks_def split: option.splits sum.splits)
  ultimately show ?thesis
    using callers_invD(3) [OF assms(1)] by (simp add: callers_inv_def set_tasks_def)
qed


lemma opened_calls:
  "case opened dials targets k j of (res, shut, tr) \<Rightarrow>
     list_all permitted tr \<and> (res = Inr () \<longrightarrow> tr = [login_call k, version_call])"
  using Open_exact [where mw = "targets j" and dial = "dials j" and k = k and tr = "[]"] permitted_harmless(5,6)
  by (auto simp: opened_def Let_def login_call_def version_call_def split: prod.splits if_splits)

text \<open>The connections after a provider has made some attempts, and the one a successful attempt names.\<close>

lemma attempts_logged_in:
  assumes "attempts dials targets k made (length conns) a = Inr c" and "made \<le> a" and "a < made + m"
  shows "logged_in (conns @ map (\<lambda>j. snd (snd (opened dials targets k j))) [0..<m]) k c"
proof -
  define j where "j = a - made"
  obtain res shut tr where o: "opened dials targets k j = (res, shut, tr)" by (metis prod_cases3)
  with assms(1) have c: "c = length conns + j" and "res = Inr ()"
    by (auto simp: attempts_def j_def split: sum.splits)
  with o opened_calls [where dials = dials and targets = targets and k = k and j = j]
  have "tr = [login_call k, version_call]" by simp
  moreover have "j < m" using assms(2,3) by (simp add: j_def)
  ultimately show ?thesis using o c by (simp add: logged_in_def nth_append)
qed

lemma provide_logged_in:
  assumes "provider_has conns k p" and made: "made = pv_attempts p"
    and "provide (attempts dials targets k made (length conns)) alive i p table = (res, shut, p', table')"
    and conns': "conns' = conns @ map (\<lambda>j. snd (snd (opened dials targets k j))) [0..<pv_attempts p' - made]"
  shows "provider_has conns' k p'" and "case res of Inl e \<Rightarrow> True | Inr None \<Rightarrow> False | Inr (Some c) \<Rightarrow> logged_in conns' k c"
proof -
  let ?att = "attempts dials targets k made (length conns)"
  have old: "logged_in conns k c \<Longrightarrow> logged_in conns' k c" for c
    using logged_in_grow [of conns k c conns'] by (simp add: conns')
  have new: "?att a = Inr c \<Longrightarrow> made \<le> a \<Longrightarrow> a < pv_attempts p' \<Longrightarrow> logged_in conns' k c" for a c
    using attempts_logged_in [where m = "pv_attempts p' - made"] by (simp add: conns')
  have "provider_has conns' k p' \<and> (case res of Inl e \<Rightarrow> True | Inr None \<Rightarrow> False | Inr (Some c) \<Rightarrow> logged_in conns' k c)"
  proof (cases "pv_opened p")
    case True
    with assms(1,3) old new [of "pv_attempts p"] show ?thesis
      by (auto simp: provide_def open_once_def provider_has_def made split: option.splits if_splits sum.splits)
  next
    case False
    show ?thesis
    proof (cases "?att made")
      case (Inl e)
      with False assms(1,3) show ?thesis
        by (auto simp: provide_def open_once_def provider_has_def made)
    next
      case (Inr c)
      with False assms(1,3) new [of made] new [of "Suc made"] show ?thesis
        by (auto simp: provide_def open_once_def provider_has_def made split: if_splits sum.splits)
    qed
  qed
  then show "provider_has conns' k p'"
    and "case res of Inl e \<Rightarrow> True | Inr None \<Rightarrow> False | Inr (Some c) \<Rightarrow> logged_in conns' k c" by simp_all
qed


subsection \<open>Every step keeps it\<close>

lemma same_requests:
  assumes "r < length rs"
  shows "map in_key (rs[r := (rs ! r)\<lparr>in_session := x\<rparr>]) = map in_key rs"
    and "map in_caller (rs[r := (rs ! r)\<lparr>in_session := x\<rparr>]) = map in_caller rs"
  using assms by (simp_all add: map_update list_update_same_conv)

lemma tasks_made_for_cong:
  assumes "tasks_made_for s i tasks" and "map in_caller (mh_requests s') = map in_caller (mh_requests s)"
    and "mh_made s' = mh_made s"
  shows "tasks_made_for s' i tasks"
proof -
  have "length (mh_requests s') = length (mh_requests s)" using arg_cong [OF assms(2), of length] by simp
  moreover from this have "in_caller (mh_requests s' ! r) = in_caller (mh_requests s ! r)" if "r < length (mh_requests s)" for r
    using arg_cong [OF assms(2), of "\<lambda>xs. xs ! r"] that by simp
  ultimately show ?thesis using assms(1,3) unfolding tasks_made_for_def by (metis (no_types))
qed

lemma tasks_made_for_more:
  assumes "tasks_made_for s i tasks" and "mh_requests s' = mh_requests s @ qs" and "mh_made s' = mh_made s @ made"
  shows "tasks_made_for s' i tasks"
  unfolding tasks_made_for_def
proof (intro allI impI)
  fix t e assume "tasks t = Some e"
  with assms(1) obtain r where "r < length (mh_requests s)" "(r, t, te_job_id e) \<in> set (mh_made s)"
    "in_caller (mh_requests s ! r) = i" unfolding tasks_made_for_def by blast
  with assms(2,3) show "\<exists>r < length (mh_requests s'). (r, t, te_job_id e) \<in> set (mh_made s') \<and> in_caller (mh_requests s' ! r) = i"
    by (intro exI [of _ r]) (simp add: nth_append)
qed

lemma inv_provider:
  assumes "callers_inv cy html cfg n s" and r: "r < length (mh_requests s)"
    and q: "q = mh_requests s ! r" and cl: "mh_callers s (in_caller q) = Some cl"
    and conns: "conns_grow (mh_conns s) conns" "list_all (list_all permitted) conns"
    and p: "provider_has conns (cl_key cl) p"
    and x: "case x of Inl e \<Rightarrow> True | Inr c \<Rightarrow> logged_in conns (cl_key cl) c"
  shows "callers_inv cy html cfg m (s\<lparr>mh_callers := (mh_callers s)(in_caller q \<mapsto> cl\<lparr>cl_provider := p\<rparr>), mh_table := table,
      mh_conns := conns, mh_requests := (mh_requests s)[r := q\<lparr>in_session := Some x\<rparr>]\<rparr>)"
proof -
  let ?rs = "(mh_requests s)[r := q\<lparr>in_session := Some x\<rparr>]"
  let ?s = "s\<lparr>mh_callers := (mh_callers s)(in_caller q \<mapsto> cl\<lparr>cl_provider := p\<rparr>), mh_table := table, mh_conns := conns,
      mh_requests := ?rs\<rparr>"
  note same = same_requests [OF r, of "Some x", folded q]
  have keys: "in_key ` set ?rs = in_key ` set (mh_requests s)"
    using arg_cong [OF same(1), of set] by simp
  have tasks: "tasks_made_for ?s i tasks" if "tasks_made_for s i tasks" for i tasks
    by (rule tasks_made_for_cong [OF that]) (simp_all add: same(2))
  have "caller_ok cy html cfg ?s i cl'" if "mh_callers ?s i = Some cl'" for i cl'
  proof (cases "i = in_caller q")
    case True
    with that have "cl' = cl\<lparr>cl_provider := p\<rparr>" by simp
    with True callers_invD(1) [OF assms(1) cl] p tasks show ?thesis by (simp add: caller_ok_def keys)
  next
    case False
    with that have "mh_callers s i = Some cl'" by simp
    from callers_invD(1) [OF assms(1) this] provider_has_grow [OF _ conns(1)] tasks show ?thesis
      by (simp add: caller_ok_def keys)
  qed
  moreover have "request_ok cy ?s q'" if "q' \<in> set ?rs" for q'
  proof -
    have same_caller: "request_ok cy ?s q''" if "q'' \<in> set (mh_requests s)" for q''
      using callers_invD(2) [OF assms(1) that] logged_in_grow [OF _ conns(1)] cl
      by (auto simp: request_ok_def split: option.splits sum.splits)
    have "q \<in> set (mh_requests s)" using r by (simp add: q)
    from callers_invD(2) [OF assms(1) this] x have "request_ok cy ?s (q\<lparr>in_session := Some x\<rparr>)"
      by (auto simp: request_ok_def split: sum.splits)
    with that same_caller set_update_subset_insert [of "mh_requests s" r "q\<lparr>in_session := Some x\<rparr>"] show ?thesis by blast
  qed
  ultimately show ?thesis using conns(2) by (simp add: callers_inv_def)
qed

lemma ask_session_inv:
  assumes "callers_inv cy html cfg n s" and r: "r < length (mh_requests s)"
    and cl: "mh_callers s (in_caller (mh_requests s ! r)) = Some cl"
  shows "\<exists>s'. ask_session r dials targets alive cl s = Ran s' \<and> callers_inv cy html cfg m s'"
proof -
  let ?q = "mh_requests s ! r" and ?made = "pv_attempts (cl_provider cl)"
  obtain res shut p table where pr: "provide (attempts dials targets (cl_key cl) ?made (length (mh_conns s))) alive
      (in_caller ?q) (cl_provider cl) (mh_table s) = (res, shut, p, table)" by (metis prod_cases4)
  let ?conns = "mh_conns s @ map (\<lambda>j. snd (snd (opened dials targets (cl_key cl) j))) [0..<pv_attempts p - ?made]"
  have "provider_has (mh_conns s) (cl_key cl) (cl_provider cl)"
    using callers_invD(1) [OF assms(1) cl] by (simp add: caller_ok_def)
  note has = provide_logged_in [OF this refl pr refl]
  have "list_all permitted (snd (snd (opened dials targets (cl_key cl) j)))" for j
    using opened_calls [where dials = dials and targets = targets and k = "cl_key cl" and j = j]
    by (simp split: prod.splits)
  then have "list_all (list_all permitted) ?conns"
    using callers_invD(3) [OF assms(1)] by (auto simp: list_all_iff)
  note keep = inv_provider [OF assms(1) r refl cl conns_grow_append this has(1)]
  show ?thesis
  proof (cases res)
    case (Inl e)
    with keep [where x = "Inl e"] show ?thesis by (simp add: ask_session_def Let_def pr)
  next
    case (Inr c)
    with has(2) obtain c' where "c = Some c'" "logged_in ?conns (cl_key cl) c'" by (auto split: option.splits)
    with Inr keep [where x = "Inr c'"] show ?thesis by (simp add: ask_session_def Let_def pr)
  qed
qed

lemma arrive_inv:
  assumes "callers_inv cy html cfg n s"
  shows "callers_inv cy html cfg m (arrive cy oauthKeys html cfg apiKeyHeader auth now s)"
proof (cases "CredentialFromRequest cy oauthKeys now apiKeyHeader auth")
  case (Inl e)
  with assms show ?thesis by (simp add: arrive_def callers_inv_def)
next
  case (Inr key)
  let ?i = "credentialID cy key"
  let ?q = "\<lparr>in_key = key, in_caller = ?i, in_session = None\<rparr>"
  let ?cs = "case mh_callers s ?i of None \<Rightarrow> (mh_callers s)(?i \<mapsto> new_caller html cfg key) | Some cl \<Rightarrow> mh_callers s"
  let ?s = "s\<lparr>mh_callers := ?cs, mh_requests := mh_requests s @ [?q]\<rparr>"
  have s: "arrive cy oauthKeys html cfg apiKeyHeader auth now s = ?s"
    by (simp add: arrive_def Inr caller_for_def Let_def split: option.split)
  have "caller_ok cy html cfg ?s i cl" if "mh_callers ?s i = Some cl" for i cl
  proof (cases "mh_callers s i")
    case None
    with that have "i = ?i" "cl = new_caller html cfg key" by (auto split: option.splits if_splits)
    then show ?thesis
      by (simp add: caller_ok_def new_caller_def provider_has_def NewSessionProvider_def tasks_made_for_def newTaskRegistry_def)
  next
    case (Some cl')
    with that have "cl' = cl" by (auto split: option.splits if_splits)
    with callers_invD(1) [OF assms Some] tasks_made_for_more [of s i "cl_tasks cl" ?s "[?q]" "[]"] show ?thesis
      by (simp add: caller_ok_def)
  qed
  moreover have "request_ok cy ?s q" if "q \<in> set (mh_requests s)" for q
    using callers_invD(2) [OF assms that] by (auto simp: request_ok_def split: option.splits sum.splits)
  moreover have "request_ok cy ?s ?q" by (simp add: request_ok_def split: option.split)
  ultimately show ?thesis
    unfolding s using callers_invD(3) [OF assms] by (simp add: callers_inv_def)
qed


text \<open>What is in a registry after each of the task operations was in it before, or has just been handed out.\<close>

lemma prune_sub: "prune now tasks t = Some e \<Longrightarrow> tasks t = Some e"
  by (simp add: prune_def split: option.splits if_splits)

lemma substitute_registry:
  assumes "substitute_task declares meth tool res now new_id tasks = (sub, tasks')" and "tasks' t = Some e"
  shows "tasks t = Some e \<or> (r, t, te_job_id e) \<in> set (task_made sub r tasks')"
proof (cases "tasks' = tasks")
  case True
  with assms(2) show ?thesis by simp
next
  case False
  with assms(1) obtain jid jm target callRes where "jobStarted callRes = Some (jid, jm, target)"
    and sub: "sub = CreateTask x callRes \<Longrightarrow> tk_id x = new_id" "\<exists>x. sub = CreateTask x callRes"
    and r: "tasks' = prune now (registry_add tasks now new_id
        \<lparr>te_job_id = jid, te_tool = tool, te_method = jm, te_target = target, te_created = 0\<rparr>)" for x
    by (auto simp: substitute_task_def registry_get_def Let_def newTask_def
        split: sum.splits handled.splits if_splits option.splits)
  from sub obtain x where x: "sub = CreateTask x callRes" "tk_id x = new_id" by blast
  show ?thesis
  proof (cases "t = new_id")
    case True
    with x assms(2) show ?thesis by (simp add: task_made_def)
  next
    case False
    with prune_sub [of now _ t e] assms(2) r show ?thesis
      by (metis fun_upd_other prune_sub registry_add_def)
  qed
qed

lemma lookup_registry: "snd (lookupTask tasks now i) t = Some e \<Longrightarrow> tasks t = Some e"
  using prune_sub [of now tasks t e] by (simp add: lookupTask_cases registry_get_def Let_def split: if_splits)

lemma tasks_registry:
  "fst (snd (tasks_get mw sess now i tasks tr)) = snd (lookupTask tasks now i)"
  "snd (tasks_update now i tasks) = snd (lookupTask tasks now i)"
  "fst (snd (tasks_cancel mw sess now i tasks tr)) = snd (lookupTask tasks now i)"
  by (simp_all add: tasks_get_def tasks_update_def tasks_cancel_def split: prod.split sum.split option.split)

lemma lookup_inv:
  assumes "callers_inv cy html cfg n s" and "mh_callers s i = Some cl"
  shows "callers_inv cy html cfg m (set_tasks i cl (snd (lookupTask (cl_tasks cl) now t)) s)"
proof -
  have "tasks_made_for s i (cl_tasks cl)" using callers_invD(1) [OF assms] by (simp add: caller_ok_def)
  then have "tasks_made_for (s\<lparr>mh_made := mh_made s @ []\<rparr>) i (snd (lookupTask (cl_tasks cl) now t))"
    using lookup_registry [of "cl_tasks cl" now t] by (simp add: tasks_made_for_def)
  from inv_tasks [OF assms this] show ?thesis by (simp add: set_tasks_def)
qed

lemma task_calls_permitted:
  "permitted_calls tr (snd (snd (tasks_get mw sess now i tasks tr)))"
  "permitted_calls tr (snd (snd (tasks_cancel mw sess now i tasks tr)))"
  by (simp_all add: tasks_get_calls tasks_cancel_calls permitted_harmless split: option.split)

lemma read_job_permitted: "permitted_calls tr (snd (read_job_resource mw sess uri tr))"
proof -
  have "snd (case Job mw jid tr of (Inl e, tr') \<Rightarrow> (ReadFailed e, tr') | (Inr j, tr') \<Rightarrow> (ReadJob j, tr')) = tr @ [job_query jid]" for jid
    using Job_trace [of mw jid tr] by (cases "Job mw jid tr") (simp add: job_query_def split: sum.split)
  then show ?thesis
    by (simp add: read_job_resource_def Let_def permitted_harmless(2) split: option.split)
qed


lemma request_has_caller:
  assumes "callers_inv cy html cfg n s" and "r < length (mh_requests s)"
  shows "\<exists>cl. mh_callers s (in_caller (mh_requests s ! r)) = Some cl \<and> caller_of s r = Some cl \<and>
    caller_ok cy html cfg s (in_caller (mh_requests s ! r)) cl"
proof -
  from assms(2) have "mh_requests s ! r \<in> set (mh_requests s)" by simp
  from callers_invD(2) [OF assms(1) this] obtain cl where "mh_callers s (in_caller (mh_requests s ! r)) = Some cl"
    by (auto simp: request_ok_def split: option.splits)
  with callers_invD(1) [OF assms(1) this] assms(2) show ?thesis by (simp add: caller_of_def)
qed

lemma callers_step_inv:
  assumes keep: "callers_inv cy html cfg n s" and r: "request_of e < length (mh_requests s)"
    and cl: "mh_callers s (in_caller (mh_requests s ! request_of e)) = Some cl"
  shows "\<exists>s'. callers_step cfg e cl s = Ran s' \<and> callers_inv cy html cfg (Suc n) s'"
proof (cases e)
  case (AsksSession r dials targets alive)
  with assms show ?thesis using ask_session_inv [OF keep] by simp
next
  case (CallsTool r name inp wd)
  have "cl_server cl = NewMCPServer html cfg True" using callers_invD(1) [OF keep cl] by (simp add: caller_ok_def)
  with CallsTool show ?thesis
    using inv_on_connection [OF keep] request_permitted by (simp add: Let_def)
next
  case (ReadsResource r mw uri)
  then show ?thesis using inv_on_connection [OF keep] read_job_permitted by (simp add: Let_def)
next
  case (ToolReturns r caps meth tool res now new_id)
  obtain sub tasks where sub: "substitute_task (clientDeclaresTasks caps) meth tool res now new_id (cl_tasks cl) = (sub, tasks)"
    by fastforce
  let ?i = "in_caller (mh_requests s ! r)"
  have mine: "tasks_made_for s ?i (cl_tasks cl)" using callers_invD(1) [OF keep cl] ToolReturns by (simp add: caller_ok_def)
  have "tasks_made_for (s\<lparr>mh_made := mh_made s @ task_made sub r tasks\<rparr>) ?i tasks"
    unfolding tasks_made_for_def
  proof (intro allI impI)
    fix t e assume "tasks t = Some e"
    from substitute_registry [OF sub this, of r] mine r ToolReturns
    show "\<exists>ra < length (mh_requests (s\<lparr>mh_made := mh_made s @ task_made sub r tasks\<rparr>)).
        (ra, t, te_job_id e) \<in> set (mh_made (s\<lparr>mh_made := mh_made s @ task_made sub r tasks\<rparr>)) \<and>
        in_caller (mh_requests (s\<lparr>mh_made := mh_made s @ task_made sub r tasks\<rparr>) ! ra) = ?i"
      unfolding tasks_made_for_def by fastforce
  qed
  from inv_tasks [OF keep _ this] cl ToolReturns show ?thesis by (simp add: sub)
next
  case (GetsTask r mw now i)
  with inv_on_connection [OF lookup_inv [OF keep cl]] task_calls_permitted(1) show ?thesis
    by (simp add: Let_def tasks_registry)
next
  case (UpdatesTask r now i)
  with lookup_inv [OF keep cl] show ?thesis by (simp add: tasks_registry)
next
  case (CancelsTask r mw now i)
  with inv_on_connection [OF lookup_inv [OF keep cl]] task_calls_permitted(2) show ?thesis
    by (simp add: Let_def tasks_registry)
qed (use keep in \<open>simp_all add: callers_inv_def\<close>)

lemma Validate_permitted: "list_all permitted (snd (Validate mw dial k []))"
  using opened_calls [where dials = "\<lambda>j. dial" and targets = "\<lambda>j. mw" and k = k and j = 0]
  by (auto simp: Validate_def opened_def split: prod.splits sum.splits)

lemma consent_inv:
  assumes "callers_inv cy html cfg n s"
  shows "callers_inv cy html cfg m (s\<lparr>mh_conns := mh_conns s @ [snd (Validate mw dial k [])]\<rparr>)"
  by (rule inv_conns [OF assms]) (simp_all add: callers_invD(3) [OF assms] Validate_permitted)

lemma has_tasks_request: "has_tasks s r \<Longrightarrow> r < length (mh_requests s)"
  by (auto simp: has_tasks_def caller_of_def split: if_splits)

lemma callers_perform_inv:
  assumes keep: "callers_inv cy html cfg n s" and "callers_enabled e s"
  shows "\<exists>s'. callers_perform cy oauthKeys html cfg e s = Ran s' \<and> callers_inv cy html cfg (Suc n) s'"
proof (cases "\<exists>h a t. e = Arrives h a t")
  case True
  with arrive_inv [OF keep] show ?thesis by auto
next
  case not_arriving: False
  show ?thesis
  proof (cases "\<exists>k d mw. e = Consents k d mw")
    case True
    with consent_inv [OF keep] show ?thesis by auto
  next
    case False
    with not_arriving assms(2) have r: "request_of e < length (mh_requests s)"
      using has_tasks_request by (cases e) auto
    from request_has_caller [OF keep r] obtain cl where
      cl: "mh_callers s (in_caller (mh_requests s ! request_of e)) = Some cl" "caller_of s (request_of e) = Some cl" by blast
    from not_arriving False cl(2) have "callers_perform cy oauthKeys html cfg e s = callers_step cfg e cl s"
      by (cases e) simp_all
    with callers_step_inv [OF keep r cl(1)] show ?thesis by simp
  qed
qed

interpretation callers: machine callers_enabled "callers_perform cy oauthKeys html cfg" "callers_inv cy html cfg" no_callers limit
  for cy oauthKeys html cfg limit
  by unfold_locales (simp_all add: no_callers_inv callers_perform_inv)

subsection \<open>Properties\<close>

text \<open>
  C3. No caller is ever served with another's authority. However requests interleave, the connection a request's tools were
  given was logged in, as the first thing on it, with the key of that very request, provided that no two of the keys in use have the same
  identifier; no request finds its handler gone, and no handler is left without a session or an error.
\<close>

theorem served_with_own_key:
  assumes "runs callers_enabled (callers_perform cy oauthKeys html cfg) n no_callers s"
    and "inj_on (credentialID cy) (in_key ` set (mh_requests s))"
  shows "(\<forall>q \<in> set (mh_requests s). \<forall>c. in_session q = Some (Inr c) \<longrightarrow>
      c < length (mh_conns s) \<and> (\<exists>rest. mh_conns s ! c = login_call (in_key q) # version_call # rest)) \<and>
    (\<forall>e. callers_enabled e s \<longrightarrow> callers_perform cy oauthKeys html cfg e s \<noteq> Panicked)"
proof (intro conjI ballI allI impI)
  note keep = callers.reachable_inv [OF assms(1) order_refl]
  show "callers_perform cy oauthKeys html cfg e s \<noteq> Panicked" if "callers_enabled e s" for e
    using callers_perform_inv [OF keep that, of oauthKeys] by auto
  fix q c assume q: "q \<in> set (mh_requests s)" and c: "in_session q = Some (Inr c)"
  from callers_invD(2) [OF keep q] c obtain cl where cl: "mh_callers s (in_caller q) = Some cl"
    and own: "in_caller q = credentialID cy (in_key q)" "logged_in (mh_conns s) (cl_key cl) c"
    by (auto simp: request_ok_def split: option.splits)
  from callers_invD(1) [OF keep cl] own(1) assms(2) q have "cl_key cl = in_key q"
    by (auto simp: caller_ok_def inj_on_def)
  with own(2) show "c < length (mh_conns s)" "\<exists>rest. mh_conns s ! c = login_call (in_key q) # version_call # rest"
    by (simp_all add: logged_in_def)
qed



text \<open>
  C26. A task belongs to the credential that made it. In every state the server reaches, what a request can do with the id of a task in
  the registry of its caller is nothing, or to ask for or abort one job, and this job is one that a tool call of a request
  with the same key was given that very id for, provided that no two of the keys in use have the same identifier.
\<close>

theorem tasks_bound_to_key:
  assumes "runs callers_enabled (callers_perform cy oauthKeys html cfg) n no_callers s"
    and "inj_on (credentialID cy) (in_key ` set (mh_requests s))"
    and "q \<in> set (mh_requests s)" and "mh_callers s (in_caller q) = Some cl"
    and "cs = (if cancels then snd (snd (tasks_cancel mw sess now t (cl_tasks cl) tr))
               else snd (snd (tasks_get mw sess now t (cl_tasks cl) tr)))"
  shows "cs = tr \<or> (\<exists>r jid. (r, t, jid) \<in> set (mh_made s) \<and> r < length (mh_requests s) \<and>
    in_key (mh_requests s ! r) = in_key q \<and>
    cs = tr @ [if cancels then \<lparr>mc_method = ''core.job_abort'', mc_params = [JInt jid]\<rparr> else job_query jid])"
proof (cases "cs = tr")
  case False
  note keep = callers.reachable_inv [OF assms(1) order_refl]
  from False assms(5) obtain e where e: "fst (registry_get (cl_tasks cl) now t) = Some e"
    and cs: "cs = tr @ [if cancels then \<lparr>mc_method = ''core.job_abort'', mc_params = [JInt (te_job_id e)]\<rparr>
      else job_query (te_job_id e)]"
    by (auto simp: tasks_get_calls tasks_cancel_calls split: if_splits option.splits)
  from e have "cl_tasks cl t = Some e" by (auto simp: registry_get_def Let_def intro: prune_sub)
  with callers_invD(1) [OF keep assms(4)] obtain r where r: "r < length (mh_requests s)"
    "(r, t, te_job_id e) \<in> set (mh_made s)" "in_caller (mh_requests s ! r) = in_caller q"
    unfolding caller_ok_def tasks_made_for_def by blast
  have "in_caller q' = credentialID cy (in_key q')" if "q' \<in> set (mh_requests s)" for q'
    using callers_invD(2) [OF keep that] by (simp add: request_ok_def)
  with r assms(2,3) have "in_key (mh_requests s ! r) = in_key q" by (metis image_eqI inj_onD nth_mem)
  with r cs show ?thesis by blast
qed simp


subsection \<open>Callers do not interfere\<close>

text \<open>Whatever connections a step adds, connection \<open>c\<close> stays as it was.\<close>

definition conns_kept :: "nat \<Rightarrow> callers \<Rightarrow> callers \<Rightarrow> bool" where
  "conns_kept c s s' \<longleftrightarrow> length (mh_conns s) \<le> length (mh_conns s') \<and>
     (if c < length (mh_conns s) then mh_conns s' ! c = mh_conns s ! c else True)"

lemma conns_kept_same [simp]: "mh_conns s' = mh_conns s \<Longrightarrow> conns_kept c s s'"
  by (simp add: conns_kept_def)

lemma provide_table:
  "provide attempt alive i p table = (res, shut, p', table') \<Longrightarrow> j \<noteq> i \<Longrightarrow> map_of table' j = map_of table j"
  by (auto simp: provide_def open_once_def Track_def map_of_map_put split: if_splits option.splits sum.splits)

lemma ask_session_other:
  assumes "ask_session r dials targets alive cl s = Ran s'" and "i \<noteq> in_caller (mh_requests s ! r)"
  shows "mh_callers s' i = mh_callers s i \<and> map_of (mh_table s') i = map_of (mh_table s) i"
    and "conns_kept c s s'"
proof -
  let ?q = "mh_requests s ! r"
  obtain res shut p table where pr: "provide (attempts dials targets (cl_key cl) (pv_attempts (cl_provider cl)) (length (mh_conns s))) alive
      (in_caller ?q) (cl_provider cl) (mh_table s) = (res, shut, p, table)" by (metis prod_cases4)
  from assms(1) provide_table [OF pr assms(2)] assms(2)
  show "mh_callers s' i = mh_callers s i \<and> map_of (mh_table s') i = map_of (mh_table s) i" and "conns_kept c s s'"
    by (auto simp: ask_session_def Let_def pr nth_append conns_kept_def split: sum.splits option.splits)
qed

lemma on_connection_same [simp]:
  "mh_callers (on_connection q f s) = mh_callers s" "mh_table (on_connection q f s) = mh_table s"
  by (simp_all add: on_connection_def split: option.split sum.split)

lemma on_connection_other:
  "(\<And>c'. in_session q = Some (Inr c') \<Longrightarrow> c' \<noteq> c) \<Longrightarrow> conns_kept c s (on_connection q f s)"
  by (auto simp: on_connection_def conns_kept_def nth_list_update split: option.split sum.split)

lemma set_tasks_other:
  "i \<noteq> j \<Longrightarrow> mh_callers (set_tasks j cl tasks s) i = mh_callers s i"
  "mh_table (set_tasks j cl tasks s) = mh_table s" "mh_conns (set_tasks j cl tasks s) = mh_conns s"
  by (simp_all add: set_tasks_def)

lemma callers_step_other:
  assumes "callers_step cfg e cl s = Ran s'" and "i \<noteq> in_caller (mh_requests s ! request_of e)"
  shows "mh_callers s' i = mh_callers s i \<and> map_of (mh_table s') i = map_of (mh_table s) i"
    and "(\<And>c'. in_session (mh_requests s ! request_of e) = Some (Inr c') \<Longrightarrow> c' \<noteq> c) \<Longrightarrow> conns_kept c s s'"
proof -
  show "mh_callers s' i = mh_callers s i \<and> map_of (mh_table s') i = map_of (mh_table s) i"
    using assms ask_session_other(1) by (cases e) (auto simp: Let_def set_tasks_other split: prod.splits)
  assume other: "\<And>c'. in_session (mh_requests s ! request_of e) = Some (Inr c') \<Longrightarrow> c' \<noteq> c"
  have on: "conns_kept c s (on_connection (mh_requests s ! request_of e) f (set_tasks j cl' tasks s))"
    "conns_kept c s (on_connection (mh_requests s ! request_of e) f s)" for f j cl' tasks
    using on_connection_other [OF other, where s = "set_tasks j cl' tasks s" and f = f]
      on_connection_other [OF other, where s = s and f = f]
    by (simp_all add: conns_kept_def set_tasks_other)
  show "conns_kept c s s'"
    using assms ask_session_other(2) on
    by (cases e) (auto simp: Let_def set_tasks_other split: prod.splits)
qed

text \<open>No two callers' connections are the same.\<close>

lemma connections_not_shared:
  assumes "callers_inv cy html cfg n s" and "mh_callers s i = Some cl" and "mh_callers s j = Some cl'" and "i \<noteq> j"
    and "logged_in (mh_conns s) (cl_key cl) c" and "logged_in (mh_conns s) (cl_key cl') c'"
  shows "c' \<noteq> c"
proof
  assume "c' = c"
  with assms(5,6) have "cl_key cl = cl_key cl'" by (auto simp: logged_in_def login_call_def)
  with callers_invD(1) [OF assms(1,2)] callers_invD(1) [OF assms(1,3)] assms(4) show False
    by (simp add: caller_ok_def)
qed

text \<open>
  C25. Callers do not interfere. A step for a request leaves every other caller as it was: its server, its provider and its
  tasks, the session tracked for it, and every call made on the connection it holds; and the arrival of a request or the trial
  of a key leaves every caller there is.
\<close>

theorem callers_do_not_interfere:
  assumes "runs callers_enabled (callers_perform cy oauthKeys html cfg) n no_callers s"
    and "callers_enabled e s" and "callers_perform cy oauthKeys html cfg e s = Ran s'"
    and "mh_callers s i = Some cl"
    and "case e of Arrives h a t \<Rightarrow> True | Consents k d mw \<Rightarrow> True | _ \<Rightarrow> in_caller (mh_requests s ! request_of e) \<noteq> i"
  shows "mh_callers s' i = Some cl \<and> map_of (mh_table s') i = map_of (mh_table s) i \<and>
    (case pv_session (cl_provider cl) of
       None \<Rightarrow> True
     | Some c \<Rightarrow> if pv_error (cl_provider cl) = None then c < length (mh_conns s') \<and> mh_conns s' ! c = mh_conns s ! c else True)"
proof -
  note keep = callers.reachable_inv [OF assms(1) order_refl]
  have grows: "mh_callers s' i = Some cl \<and> map_of (mh_table s') i = map_of (mh_table s) i \<and>
      (\<forall>c. logged_in (mh_conns s) (cl_key cl) c \<longrightarrow> c < length (mh_conns s') \<and> mh_conns s' ! c = mh_conns s ! c)"
  proof (cases "\<exists>h a t. e = Arrives h a t")
    case True
    with assms(3,4) show ?thesis
      by (auto simp: arrive_def caller_for_def Let_def logged_in_def split: sum.splits option.splits)
  next
    case not_arriving: False
    show ?thesis
    proof (cases "\<exists>k d mw. e = Consents k d mw")
      case True
      with assms(3,4) show ?thesis by (auto simp: logged_in_def nth_append)
    next
      case False
      let ?q = "mh_requests s ! request_of e"
      from not_arriving False assms(2) have r: "request_of e < length (mh_requests s)"
        using has_tasks_request by (cases e) auto
      from request_has_caller [OF keep r] obtain cl' where
        cl': "mh_callers s (in_caller ?q) = Some cl'" "caller_of s (request_of e) = Some cl'" by blast
      from not_arriving False assms(5) have other: "i \<noteq> in_caller ?q" by (cases e) auto
      from not_arriving False assms(3) cl'(2) have step: "callers_step cfg e cl' s = Ran s'" by (cases e) simp_all
      have apart: "c' \<noteq> c" if "logged_in (mh_conns s) (cl_key cl) c" "in_session ?q = Some (Inr c')" for c c'
      proof -
        have "?q \<in> set (mh_requests s)" using r by simp
        from callers_invD(2) [OF keep this] that(2) cl'(1) have "logged_in (mh_conns s) (cl_key cl') c'"
          by (simp add: request_ok_def)
        from connections_not_shared [OF keep assms(4) cl'(1) other that(1) this] show ?thesis .
      qed
      have "c < length (mh_conns s') \<and> mh_conns s' ! c = mh_conns s ! c" if "logged_in (mh_conns s) (cl_key cl) c" for c
        using callers_step_other(2) [OF step other apart [OF that]] that by (simp add: logged_in_def conns_kept_def)
      with callers_step_other(1) [OF step other] assms(4) show ?thesis by simp
    qed
  qed
  from callers_invD(1) [OF keep assms(4)] have "provider_has (mh_conns s) (cl_key cl) (cl_provider cl)"
    by (simp add: caller_ok_def)
  then have "logged_in (mh_conns s) (cl_key cl) c"
    if "pv_session (cl_provider cl) = Some c" "pv_error (cl_provider cl) = None" for c
    using that by (auto simp: provider_has_def split: if_splits)
  with grows show ?thesis by (auto split: option.split)
qed

subsection \<open>Two callers\<close>

text \<open>Two keys, each with a session; the first caller is given a task for job 42.\<close>

definition accepting :: middleware where
  "accepting tr c = Inr (Some (if mc_method c = ''auth.login_with_api_key'' then JBool True else JStr []))"

definition example_writing :: mcp_config where
  "example_writing = \<lparr>sv_version = [], sv_target = [], sv_enable_writes = True\<rparr>"

definition job_42 :: "go_error + handled" where
  "job_42 = Inr (CallResult \<lparr>cr_error = False,
     cr_structured = Some (JObj [(''job_id'', JInt 42), (''method'', JStr ''app.start''), (''target'', JStr ''plex'')])\<rparr>)"

definition two_callers :: "callers_event list" where
  "two_callers =
     [Arrives ''1-abc'' [] 0, Arrives ''2-def'' [] 0,
      AsksSession 0 (\<lambda>j. None) (\<lambda>j. accepting) (\<lambda>c. True), AsksSession 1 (\<lambda>j. None) (\<lambda>j. accepting) (\<lambda>c. True),
      ToolReturns 0 (Some [TasksExtensionID]) ''tools/call'' ''app_start'' job_42 0 ''t'']"

lemma opened_accepting: "opened (\<lambda>j. None) (\<lambda>j. accepting) k j = (Inr (), False, [login_call k, version_call])"
proof -
  have "match_here [] = None" by code_simp
  then show ?thesis
    by (simp add: opened_def Open_def Login_def CheckVersion_def accepting_def login_call_def version_call_def)
qed

lemma trim_two: "trim_space ''1-abc'' = ''1-abc''" "trim_space ''2-def'' = ''2-def''"
  by (rule trim_space_same; simp add: printable_def space_bytes_def)+

lemma two_identifiers: "credentialID example_crypto ''1-abc'' \<noteq> credentialID example_crypto ''2-def''"
  by (simp add: credentialID_def example_crypto_def hex_digit_def octet_def)

lemma job_42_started: "jobStarted \<lparr>cr_error = False,
     cr_structured = Some (JObj [(''job_id'', JInt 42), (''method'', JStr ''app.start''), (''target'', JStr ''plex'')])\<rparr> =
   Some (42, ''app.start'', ''plex'')"
  by (simp add: jobStarted_def jfield_def lower_char_def member_def in_int64_def)


lemma two_callers_run:
  "\<exists>s. run_events callers_enabled (callers_perform example_crypto None [] example_writing) two_callers no_callers = Ran s \<and>
     mh_requests s = [\<lparr>in_key = ''1-abc'', in_caller = credentialID example_crypto ''1-abc'', in_session = Some (Inr 0)\<rparr>,
       \<lparr>in_key = ''2-def'', in_caller = credentialID example_crypto ''2-def'', in_session = Some (Inr 1)\<rparr>] \<and>
     mh_conns s = [[login_call ''1-abc'', version_call], [login_call ''2-def'', version_call]] \<and>
     map_option (\<lambda>cl. cl_tasks cl ''t'') (mh_callers s (credentialID example_crypto ''1-abc'')) =
       Some (Some \<lparr>te_job_id = 42, te_tool = ''app_start'', te_method = ''app.start'', te_target = ''plex'', te_created = 0\<rparr>)"
proof -
  have srv: "ms_tasks (NewMCPServer [] example_writing True)" by (simp add: NewMCPServer_def example_writing_def)
  have cred: "CredentialFromRequest example_crypto None 0 k [] = Inr k" if "k \<in> {''1-abc'', ''2-def''}" for k
    using that trim_two by (auto simp: CredentialFromRequest_def)
  have att: "attempts (\<lambda>j. None) (\<lambda>j. accepting) k made base a = Inr (base + (a - made))" for k made base a
    by (simp add: attempts_def opened_accepting)
  show ?thesis
    using two_identifiers srv
    by (simp add: two_callers_def no_callers_def arrive_def cred caller_for_def Let_def new_caller_def ask_session_def att
        provide_def open_once_def NewSessionProvider_def opened_accepting caller_of_def has_tasks_def set_tasks_def
        clientDeclaresTasks_def TasksExtensionID_def job_42_def substitute_task_def job_42_started registry_add_def registry_get_def
        newTaskRegistry_def prune_def taskTTL_def second_ns_def task_made_def newTask_def)
qed


lemma two_callers_reached:
  "\<exists>s cl. runs callers_enabled (callers_perform example_crypto None [] example_writing) 5 no_callers s \<and>
     mh_requests s = [\<lparr>in_key = ''1-abc'', in_caller = credentialID example_crypto ''1-abc'', in_session = Some (Inr 0)\<rparr>,
       \<lparr>in_key = ''2-def'', in_caller = credentialID example_crypto ''2-def'', in_session = Some (Inr 1)\<rparr>] \<and>
     mh_conns s = [[login_call ''1-abc'', version_call], [login_call ''2-def'', version_call]] \<and>
     inj_on (credentialID example_crypto) (in_key ` set (mh_requests s)) \<and>
     mh_callers s (credentialID example_crypto ''1-abc'') = Some cl \<and>
     cl_tasks cl ''t'' = Some \<lparr>te_job_id = 42, te_tool = ''app_start'', te_method = ''app.start'', te_target = ''plex'', te_created = 0\<rparr>"
proof -
  have "length two_callers = 5" by (simp add: two_callers_def)
  with two_callers_run two_identifiers runs_of_events show ?thesis by fastforce
qed

lemma served_with_own_key_witness:
  "\<exists>s q. runs callers_enabled (callers_perform example_crypto None [] example_writing) 5 no_callers s \<and>
     q \<in> set (mh_requests s) \<and> in_key q = ''2-def'' \<and> in_session q = Some (Inr 1) \<and>
     (\<exists>rest. mh_conns s ! 1 = login_call ''2-def'' # version_call # rest)"
proof -
  obtain s cl where s: "runs callers_enabled (callers_perform example_crypto None [] example_writing) 5 no_callers s"
    "mh_requests s = [\<lparr>in_key = ''1-abc'', in_caller = credentialID example_crypto ''1-abc'', in_session = Some (Inr 0)\<rparr>,
       \<lparr>in_key = ''2-def'', in_caller = credentialID example_crypto ''2-def'', in_session = Some (Inr 1)\<rparr>]"
    "inj_on (credentialID example_crypto) (in_key ` set (mh_requests s))"
    using two_callers_reached by blast
  let ?q = "mh_requests s ! 1"
  have "?q \<in> set (mh_requests s)" "in_key ?q = ''2-def''" "in_session ?q = Some (Inr 1)" using s(2) by simp_all
  with served_with_own_key [OF s(1,3)] s(1) show ?thesis by (intro exI [of _ s] exI [of _ ?q]) auto
qed


lemma tasks_bound_to_key_witness:
  "\<exists>s cl r. runs callers_enabled (callers_perform example_crypto None [] example_writing) 5 no_callers s \<and>
     mh_callers s (credentialID example_crypto ''1-abc'') = Some cl \<and>
     snd (snd (tasks_cancel accepting None 1 ''t'' (cl_tasks cl) [])) = [\<lparr>mc_method = ''core.job_abort'', mc_params = [JInt 42]\<rparr>] \<and>
     (r, ''t'', 42) \<in> set (mh_made s) \<and> in_key (mh_requests s ! r) = ''1-abc''"
proof -
  obtain s cl where s: "runs callers_enabled (callers_perform example_crypto None [] example_writing) 5 no_callers s"
    "mh_requests s = [\<lparr>in_key = ''1-abc'', in_caller = credentialID example_crypto ''1-abc'', in_session = Some (Inr 0)\<rparr>,
       \<lparr>in_key = ''2-def'', in_caller = credentialID example_crypto ''2-def'', in_session = Some (Inr 1)\<rparr>]"
    "inj_on (credentialID example_crypto) (in_key ` set (mh_requests s))"
    and cl: "mh_callers s (credentialID example_crypto ''1-abc'') = Some cl" "cl_tasks cl ''t'' =
      Some \<lparr>te_job_id = 42, te_tool = ''app_start'', te_method = ''app.start'', te_target = ''plex'', te_created = 0\<rparr>"
    using two_callers_reached by blast
  let ?q = "mh_requests s ! 0"
  have "fst (registry_get (cl_tasks cl) 1 ''t'') = cl_tasks cl ''t''"
    by (simp add: registry_get_def prune_def cl(2) taskTTL_def second_ns_def)
  moreover have "trim_space ''t'' = ''t''" by (rule trim_space_same) (simp_all add: printable_def space_bytes_def)
  ultimately have calls: "snd (snd (tasks_cancel accepting None 1 ''t'' (cl_tasks cl) [])) =
      [\<lparr>mc_method = ''core.job_abort'', mc_params = [JInt 42]\<rparr>]"
    by (simp add: tasks_cancel_calls cl(2))
  have q: "?q \<in> set (mh_requests s)" "in_key ?q = ''1-abc''" "mh_callers s (in_caller ?q) = Some cl" using s(2) cl(1) by simp_all
  from tasks_bound_to_key [OF s(1,3) q(1,3), of _ True accepting None 1 "''t''" "[]"] q(2) calls
  obtain r where "(r, ''t'', 42) \<in> set (mh_made s)" "in_key (mh_requests s ! r) = ''1-abc''" by auto
  with s(1) cl(1) calls show ?thesis by blast
qed


lemma callers_do_not_interfere_witness:
  "\<exists>s s' cl. runs callers_enabled (callers_perform example_crypto None [] example_writing) 5 no_callers s \<and>
     callers_perform example_crypto None [] example_writing
       (AsksSession 1 (\<lambda>j. None) (\<lambda>j. accepting) (\<lambda>c. False)) s = Ran s' \<and>
     mh_callers s' (credentialID example_crypto ''1-abc'') = Some cl \<and> map_option te_job_id (cl_tasks cl ''t'') = Some 42"
proof -
  obtain s cl where s: "runs callers_enabled (callers_perform example_crypto None [] example_writing) 5 no_callers s"
    "mh_requests s = [\<lparr>in_key = ''1-abc'', in_caller = credentialID example_crypto ''1-abc'', in_session = Some (Inr 0)\<rparr>,
       \<lparr>in_key = ''2-def'', in_caller = credentialID example_crypto ''2-def'', in_session = Some (Inr 1)\<rparr>]"
    and cl: "mh_callers s (credentialID example_crypto ''1-abc'') = Some cl" "map_option te_job_id (cl_tasks cl ''t'') = Some 42"
    using two_callers_reached by fastforce
  let ?e = "AsksSession 1 (\<lambda>j. None) (\<lambda>j. accepting) (\<lambda>c. False)"
  have e: "callers_enabled ?e s" by (simp add: s(2))
  from callers_perform_inv [OF callers.reachable_inv [OF s(1) order_refl] e]
  obtain s' where s': "callers_perform example_crypto None [] example_writing ?e s = Ran s'" by blast
  have "case ?e of Arrives h a t \<Rightarrow> True | Consents k d mw \<Rightarrow> True
      | _ \<Rightarrow> in_caller (mh_requests s ! request_of ?e) \<noteq> credentialID example_crypto ''1-abc''"
    using two_identifiers by (simp add: s(2))
  from callers_do_not_interfere [OF s(1) e s' cl(1) this] s(1) s' cl(2) show ?thesis by blast
qed

end
