(* ===== verification/Departures.thy ===== *)
theory Departures
  imports Callers Process_Life
begin

section \<open>Where the code departs from its specifications\<close>

text \<open>
  The requirements under \<^verbatim>\<open>openspec/specs\<close> describe what the server shall do. Most of them are what the other theories
  prove; the lemmas here state what the code does where a requirement says otherwise.
\<close>

subsection \<open>The size of the read surface\<close>

text \<open>
  \<^verbatim>\<open>read-tools\<close>: with the write tier disabled the number of exposed tools does not exceed ten. There are fifteen.
\<close>

lemma fifteen_tools_without_writes: "length (ms_tools (NewMCPServer html (cfg\<lparr>sv_enable_writes := False\<rparr>) True)) = 15"
proof -
  have "length (map tl_name (ms_tools (NewMCPServer html (cfg\<lparr>sv_enable_writes := False\<rparr>) True))) = 15"
    unfolding tool_names by simp
  then show ?thesis by simp
qed

subsection \<open>Rolling back\<close>

text \<open>
  \<^verbatim>\<open>write-tools\<close>: a rollback of an app with no version to roll back to is refused without starting a job. The tool asks only
  whether the app exists, and then starts the job whatever the target would say about its versions.
\<close>

definition app_rollback_op :: write_op where
  "app_rollback_op = AppWrites ! 5"

lemma rollback_ignores_versions:
  assumes "input_target inp \<noteq> []" and "mw tr (target_query (input_target inp)) = Inr (Some (JArr [x]))"
  shows "wo_name app_rollback_op = RollbackToolName \<and>
    snd (write_tool app_rollback_op mw None inp tr) =
      tr @ [target_query (input_target inp), \<lparr>mc_method = ''app.rollback'', mc_params = input_params inp (input_target inp)\<rparr>]"
proof -
  let ?t = "input_target inp" and ?w = app_rollback_op
  have w: "?w \<in> set WriteOps" "wo_target_arg ?w = ''app_name''" "\<not> wo_synchronous ?w" "wo_method ?w = ''app.rollback''"
    "wo_name ?w = RollbackToolName"
    by (simp_all add: app_rollback_op_def AppWrites_def WriteOps_def write_zero_def RollbackToolName_def)
  have "one_match (mw tr (target_query ?t))" using assms(2) by (simp add: one_match_def)
  with resolveTarget_app [OF w(2), of mw ?t tr] have r: "resolveTarget mw ?w ?t tr = (None, tr @ [target_query ?t])"
    by (metis prod.collapse)
  show ?thesis
    using CallJob_trace [of mw "''app.rollback''" "input_params inp ?t" "tr @ [target_query ?t]"]
    by (cases "CallJob mw ''app.rollback'' (input_params inp ?t) (tr @ [target_query ?t])")
      (simp add: write_tool_permitted [OF w(1) assms(1)] r w split: sum.split)
qed

subsection \<open>Reconnecting\<close>

text \<open>
  \<^verbatim>\<open>truenas-connection\<close>: attempts that fail continuously are spaced by a backoff. A provider whose session is dead makes an
  attempt on every call, however many have failed before.
\<close>

lemma dead_session_attempts:
  assumes "pv_opened p" and "pv_error p = None" and "pv_session p = Some x" and "\<not> alive x" and "attempt (pv_attempts p) = Inl e"
  shows "provide attempt alive i p m = (Inl e, [], p\<lparr>pv_attempts := Suc (pv_attempts p)\<rparr>, m)"
  using assms by (simp add: provide_def open_once_def)

lemma no_backoff:
  assumes "pv_opened p" and "pv_error p = None" and "pv_session p = Some x" and "\<not> alive x" and "\<And>k. attempt k = Inl e"
  shows "((\<lambda>q. fst (snd (snd (provide attempt alive i q m)))) ^^ n) p = p\<lparr>pv_attempts := pv_attempts p + n\<rparr>"
proof (induction n)
  case (Suc n)
  have "provide attempt alive i (p\<lparr>pv_attempts := pv_attempts p + n\<rparr>) m =
      (Inl e, [], p\<lparr>pv_attempts := pv_attempts p + Suc n\<rparr>, m)"
    using dead_session_attempts [of "p\<lparr>pv_attempts := pv_attempts p + n\<rparr>" x alive attempt e i m] assms by simp
  with Suc.IH show ?case by simp
qed simp

text \<open>
  \<^verbatim>\<open>mcp-transport\<close>: after its key is revoked a session does not go on using a connection that was established before. A live
  connection is handed out without asking the target again, so it ends only when the target severs it.
\<close>

lemma live_session_not_rechecked:
  assumes "pv_opened p" and "pv_error p = None" and "pv_session p = Some x" and "alive x"
  shows "provide attempt alive i p m = (Inr (Some x), [], p, m)"
  using assms by (simp add: provide_def open_once_def)

subsection \<open>Callers that are never released\<close>

text \<open>
  \<^verbatim>\<open>mcp-transport\<close>: a session with a rejected credential is refused, and the middleware session of an MCP session that ends is
  released. A handler is made for any credential before the target has seen it, and no step of the server ever
  removes a caller or a tracked session; only the exit of the process closes them.
\<close>

lemma handler_before_login:
  assumes "CredentialFromRequest cy oauthKeys now apiKeyHeader auth = Inr key"
  shows "mh_callers (arrive cy oauthKeys html cfg apiKeyHeader auth now s) (credentialID cy key) \<noteq> None \<and>
    mh_conns (arrive cy oauthKeys html cfg apiKeyHeader auth now s) = mh_conns s"
  using assms by (auto simp: arrive_def caller_for_def Let_def split: option.split)

lemma provide_tracks_more:
  "provide attempt alive i p m = (res, shut, p', m') \<Longrightarrow> dom (map_of m) \<subseteq> dom (map_of m')"
  by (auto simp: provide_def open_once_def Track_def map_of_map_put split: if_splits option.splits sum.splits)

lemma callers_never_released:
  assumes "callers_perform cy oauthKeys html cfg e s = Ran s'"
  shows "dom (mh_callers s) \<subseteq> dom (mh_callers s') \<and> dom (map_of (mh_table s)) \<subseteq> dom (map_of (mh_table s'))"
proof (cases "\<exists>h a t. e = Arrives h a t")
  case True
  with assms show ?thesis
    by (auto simp: arrive_def caller_for_def Let_def split: sum.splits option.splits)
next
  case not_arriving: False
  show ?thesis
  proof (cases "\<exists>k d mw. e = Consents k d mw")
    case True
    with assms show ?thesis by auto
  next
    case False
    with not_arriving assms obtain cl where cl: "caller_of s (request_of e) = Some cl" "callers_step cfg e cl s = Ran s'"
      by (cases e) (auto split: option.splits)
    have asks: "dom (mh_callers s) \<subseteq> dom (mh_callers s') \<and> dom (map_of (mh_table s)) \<subseteq> dom (map_of (mh_table s'))"
      if "ask_session r dials targets alive cl s = Ran s'" for r dials targets alive
    proof -
      obtain res shut p table where pr: "provide (attempts dials targets (cl_key cl) (pv_attempts (cl_provider cl)) (length (mh_conns s)))
          alive (in_caller (mh_requests s ! r)) (cl_provider cl) (mh_table s) = (res, shut, p, table)" by (metis prod_cases4)
      from that provide_tracks_more [OF pr] show ?thesis
        by (auto simp: ask_session_def Let_def pr split: sum.splits option.splits)
    qed
    with cl(2) show ?thesis
      by (cases e) (auto simp: Let_def set_tasks_def split: prod.splits)
  qed
qed

subsection \<open>Health\<close>

text \<open>
  \<^verbatim>\<open>container-deployment\<close>: the health signal reports unhealthy while the target is unreachable. No request changes what the signal
  tells, whether or not it could open a session; a server that waits for requests is healthy even if no attempt ever succeeds.
\<close>

lemma healthy_without_target:
  assumes "runs process_enabled (process_perform (\<lambda>i k. Inl unreachable)) n (process_start version) s" and "ps_phase s = Selecting"
  shows "hr_status (ServeHTTP_health (ps_health s)) = 200 \<and>
    ps_health (process_step (\<lambda>i k. Inl unreachable) (Request i alive) s) = ps_health s"
proof
  show "hr_status (ServeHTTP_health (ps_health s)) = 200"
    using health_tells_phase [OF assms(1)] assms(2) by simp
  show "ps_health (process_step (\<lambda>i k. Inl unreachable) (Request i alive) s) = ps_health s"
    by (simp split: prod.split)
qed

end
