(* ===== verification/Caller_Logins.thy ===== *)
theory Caller_Logins
  imports Callers
begin

section \<open>How often the server logs in\<close>

text \<open>
  The target limits the rate of logins, and \<^verbatim>\<open>openspec/specs/mcp-transport\<close> asks that a middleware session is established
  once per caller and reused. This theory counts the connections a running server dials, over the events of a run.
\<close>

subsection \<open>One connection each\<close>

text \<open>An event that finds every session alive.\<close>

definition finds_alive :: "callers_event \<Rightarrow> bool" where
  "finds_alive e \<longleftrightarrow> (case e of AsksSession r dials targets alive \<Rightarrow> (\<forall>c. alive c) | _ \<Rightarrow> True)"

definition is_consent :: "callers_event \<Rightarrow> bool" where
  "is_consent e \<longleftrightarrow> (case e of Consents k d mw \<Rightarrow> True | _ \<Rightarrow> False)"

text \<open>The callers whose provider has made its first attempt.\<close>

definition asked :: "callers \<Rightarrow> string set" where
  "asked s = {i. \<exists>cl. mh_callers s i = Some cl \<and> pv_opened (cl_provider cl)}"

definition one_login_each :: "nat \<Rightarrow> callers \<Rightarrow> bool" where
  "one_login_each consents s \<longleftrightarrow> finite (dom (mh_callers s)) \<and> length (mh_conns s) = card (asked s) + consents"

lemma asked_finite: "finite (dom (mh_callers s)) \<Longrightarrow> finite (asked s)"
  by (rule finite_subset [of _ "dom (mh_callers s)"]) (auto simp: asked_def)

lemma asked_card: "one_login_each consents s \<Longrightarrow> length (mh_conns s) \<le> card (dom (mh_callers s)) + consents"
  using card_mono [of "dom (mh_callers s)" "asked s"] by (auto simp: one_login_each_def asked_def)

lemma asked_same:
  assumes "mh_callers s i = Some cl" and "pv_opened (cl_provider cl') = pv_opened (cl_provider cl)"
  shows "asked (s\<lparr>mh_callers := (mh_callers s)(i \<mapsto> cl')\<rparr>) = asked s"
  using assms by (auto simp: asked_def)

lemma provide_alive:
  assumes "\<forall>c. alive c" and "provide attempt alive i p m = (res, shut, p', m')"
  shows "pv_opened p' \<and> pv_attempts p' = (if pv_opened p then pv_attempts p else Suc (pv_attempts p))"
  using assms by (auto simp: provide_def open_once_def split: if_splits option.splits sum.splits)

lemma ask_session_login:
  assumes "one_login_each consents s" and "\<forall>c. alive c" and cl: "mh_callers s (in_caller (mh_requests s ! r)) = Some cl"
    and "ask_session r dials targets alive cl s = Ran s'"
  shows "one_login_each consents s'"
proof -
  let ?i = "in_caller (mh_requests s ! r)"
  obtain res shut p table where pr: "provide (attempts dials targets (cl_key cl) (pv_attempts (cl_provider cl)) (length (mh_conns s)))
      alive ?i (cl_provider cl) (mh_table s) = (res, shut, p, table)" by (metis prod_cases4)
  note alive = provide_alive [OF assms(2) pr]
  from assms(4) have callers: "mh_callers s' = (mh_callers s)(?i \<mapsto> cl\<lparr>cl_provider := p\<rparr>)"
    and len: "length (mh_conns s') = length (mh_conns s) + (pv_attempts p - pv_attempts (cl_provider cl))"
    by (auto simp: ask_session_def Let_def pr split: sum.splits option.splits)
  have fin: "finite (dom (mh_callers s'))" using assms(1) by (simp add: callers one_login_each_def)
  show ?thesis
  proof (cases "pv_opened (cl_provider cl)")
    case True
    with alive cl callers have "asked s' = asked s" by (auto simp: asked_def)
    with True alive assms(1) fin len show ?thesis by (simp add: one_login_each_def)
  next
    case False
    with cl have new: "?i \<notin> asked s" by (simp add: asked_def)
    have "asked s' = insert ?i (asked s)" using alive cl callers False by (auto simp: asked_def)
    with new False alive assms(1) fin len asked_finite show ?thesis by (simp add: one_login_each_def)
  qed
qed

lemma on_connection_login [simp]: "one_login_each consents (on_connection q f s) = one_login_each consents s"
  by (simp add: one_login_each_def asked_def on_connection_def split: option.split sum.split)

lemma set_tasks_login:
  assumes "mh_callers s i = Some cl"
  shows "one_login_each consents (set_tasks i cl tasks s) = one_login_each consents s"
  using asked_same [OF assms, of "cl\<lparr>cl_tasks := tasks\<rparr>"] assms
  by (simp add: one_login_each_def set_tasks_def insert_absorb domI)

lemma made_login [simp]: "one_login_each consents (s\<lparr>mh_made := made\<rparr>) = one_login_each consents s"
  by (simp add: one_login_each_def asked_def)

lemma arrive_login:
  "one_login_each consents s \<Longrightarrow> one_login_each consents (arrive cy oauthKeys html cfg apiKeyHeader auth now s)"
proof (cases "CredentialFromRequest cy oauthKeys now apiKeyHeader auth")
  case (Inr key)
  assume "one_login_each consents s"
  moreover have "asked (arrive cy oauthKeys html cfg apiKeyHeader auth now s) = asked s"
    by (auto simp: asked_def arrive_def Inr caller_for_def Let_def new_caller_def NewSessionProvider_def split: option.splits if_splits)
  moreover have "mh_conns (arrive cy oauthKeys html cfg apiKeyHeader auth now s) = mh_conns s"
    by (simp add: arrive_def Inr split: prod.split)
  moreover have "finite (dom (mh_callers (arrive cy oauthKeys html cfg apiKeyHeader auth now s))) = finite (dom (mh_callers s))"
    by (auto simp: arrive_def Inr caller_for_def Let_def split: option.split)
  ultimately show ?thesis by (simp add: one_login_each_def)
qed (simp add: arrive_def)

lemma request_step:
  assumes "\<nexists>h a t. e = Arrives h a t" and "\<nexists>k d mw. e = Consents k d mw"
    and "callers_perform cy oauthKeys html cfg e s = Ran s'"
  shows "\<exists>cl. mh_callers s (in_caller (mh_requests s ! request_of e)) = Some cl \<and> callers_step cfg e cl s = Ran s'"
proof -
  from assms obtain cl where "caller_of s (request_of e) = Some cl" "callers_step cfg e cl s = Ran s'"
    by (cases e) (auto split: option.splits)
  then show ?thesis by (auto simp: caller_of_def split: if_splits)
qed

lemma perform_login:
  assumes "one_login_each consents s" and "finds_alive e" and "callers_perform cy oauthKeys html cfg e s = Ran s'"
  shows "one_login_each (if is_consent e then Suc consents else consents) s'"
proof (cases "\<exists>h a t. e = Arrives h a t")
  case True
  with assms(1,3) arrive_login show ?thesis by (auto simp: is_consent_def)
next
  case not_arriving: False
  show ?thesis
  proof (cases "\<exists>k d mw. e = Consents k d mw")
    case True
    with assms(1,3) show ?thesis by (auto simp: is_consent_def one_login_each_def asked_def)
  next
    case False
    from request_step [OF not_arriving False assms(3)] obtain cl where
      at_i: "mh_callers s (in_caller (mh_requests s ! request_of e)) = Some cl" and step: "callers_step cfg e cl s = Ran s'" by blast
    have "\<not> is_consent e" using False by (auto simp: is_consent_def split: callers_event.splits)
    moreover have "one_login_each consents s'"
    proof (cases e)
      case (AsksSession r dials targets alive)
      with ask_session_login [OF assms(1), of alive r cl dials targets s'] assms(2) step at_i show ?thesis
        by (simp add: finds_alive_def)
    qed (use step at_i assms(1) in \<open>auto simp: Let_def set_tasks_login split: prod.splits\<close>)
    ultimately show ?thesis by simp
  qed
qed

lemma run_logins:
  "run_events callers_enabled (callers_perform cy oauthKeys html cfg) es s = Ran s' \<Longrightarrow> list_all finds_alive es \<Longrightarrow>
   one_login_each consents s \<Longrightarrow> one_login_each (consents + length (filter is_consent es)) s'"
proof (induction es arbitrary: s consents)
  case (Cons e es)
  from Cons.prems(1) obtain t where t: "callers_perform cy oauthKeys html cfg e s = Ran t"
    "run_events callers_enabled (callers_perform cy oauthKeys html cfg) es t = Ran s'"
    by (auto simp: and_then_Ran split: if_splits)
  from Cons.prems(2) have "finds_alive e" "list_all finds_alive es" by simp_all
  with Cons.IH [OF t(2) _ perform_login [OF Cons.prems(3) _ t(1)]] show ?case
    by (simp split: if_splits)
qed simp

subsection \<open>The session is shared\<close>

text \<open>Every session a request was given is the one its caller's provider holds.\<close>

definition holds_session :: "callers \<Rightarrow> incoming \<Rightarrow> bool" where
  "holds_session s q \<longleftrightarrow>
     (case in_session q of
        Some (Inr c) \<Rightarrow>
          (case mh_callers s (in_caller q) of
             None \<Rightarrow> False
           | Some cl \<Rightarrow> pv_opened (cl_provider cl) \<and> pv_error (cl_provider cl) = None \<and> pv_session (cl_provider cl) = Some c)
      | _ \<Rightarrow> True)"

definition sessions_shared :: "callers \<Rightarrow> bool" where
  "sessions_shared s \<longleftrightarrow> (\<forall>q \<in> set (mh_requests s). holds_session s q)"

lemma provide_alive_keeps:
  assumes "\<forall>c. alive c" and "provide attempt alive i p m = (res, shut, p', m')"
  shows "pv_opened p \<Longrightarrow> p' = p"
    and "res = Inr (Some c) \<Longrightarrow> pv_opened p' \<and> pv_error p' = None \<and> pv_session p' = Some c"
  using assms by (auto simp: provide_def open_once_def split: if_splits option.splits sum.splits)

lemma ask_session_shared:
  assumes "sessions_shared s" and "\<forall>c. alive c" and cl: "mh_callers s (in_caller (mh_requests s ! r)) = Some cl"
    and "ask_session r dials targets alive cl s = Ran s'"
  shows "sessions_shared s'"
proof -
  let ?q = "mh_requests s ! r"
  obtain res shut p table where pr: "provide (attempts dials targets (cl_key cl) (pv_attempts (cl_provider cl)) (length (mh_conns s)))
      alive (in_caller ?q) (cl_provider cl) (mh_table s) = (res, shut, p, table)" by (metis prod_cases4)
  note keeps = provide_alive_keeps [OF assms(2) pr]
  from assms(4) obtain x where callers: "mh_callers s' = (mh_callers s)(in_caller ?q \<mapsto> cl\<lparr>cl_provider := p\<rparr>)"
    and requests: "mh_requests s' = (mh_requests s)[r := ?q\<lparr>in_session := Some x\<rparr>]"
    and x: "case x of Inl e \<Rightarrow> True | Inr c \<Rightarrow> res = Inr (Some c)"
    by (auto simp: ask_session_def Let_def pr split: sum.splits option.splits)
  have old: "holds_session s' q" if "q \<in> set (mh_requests s)" for q
    using assms(1) that cl keeps(1)
    by (auto simp: sessions_shared_def holds_session_def callers split: option.splits sum.splits)
  have "holds_session s' (?q\<lparr>in_session := Some x\<rparr>)"
    using x keeps(2) by (auto simp: holds_session_def callers split: sum.splits)
  with old set_update_subset_insert [of "mh_requests s" r "?q\<lparr>in_session := Some x\<rparr>"] show ?thesis
    by (auto simp: sessions_shared_def requests)
qed

lemma shared_same [simp]:
  "sessions_shared (on_connection q f s) = sessions_shared s" "sessions_shared (s\<lparr>mh_made := made\<rparr>) = sessions_shared s"
  "sessions_shared (s\<lparr>mh_conns := conns\<rparr>) = sessions_shared s"
  by (simp_all add: sessions_shared_def holds_session_def on_connection_def split: option.split sum.split)

lemma set_tasks_shared:
  assumes "mh_callers s i = Some cl" and "sessions_shared s"
  shows "sessions_shared (set_tasks i cl tasks s)"
  using assms by (auto simp: sessions_shared_def holds_session_def set_tasks_def split: option.splits sum.splits)

lemma arrive_shared: "sessions_shared s \<Longrightarrow> sessions_shared (arrive cy oauthKeys html cfg apiKeyHeader auth now s)"
proof (cases "CredentialFromRequest cy oauthKeys now apiKeyHeader auth")
  case (Inr key)
  assume "sessions_shared s"
  with Inr show ?thesis
    by (auto simp: sessions_shared_def holds_session_def arrive_def caller_for_def Let_def split: option.splits sum.splits)
qed (simp add: arrive_def)

lemma perform_shared:
  assumes "sessions_shared s" and "finds_alive e" and "callers_perform cy oauthKeys html cfg e s = Ran s'"
  shows "sessions_shared s'"
proof (cases "\<exists>h a t. e = Arrives h a t")
  case True
  with assms(1,3) arrive_shared show ?thesis by auto
next
  case not_arriving: False
  show ?thesis
  proof (cases "\<exists>k d mw. e = Consents k d mw")
    case True
    with assms(1,3) show ?thesis by auto
  next
    case False
    from request_step [OF not_arriving False assms(3)] obtain cl where
      step: "mh_callers s (in_caller (mh_requests s ! request_of e)) = Some cl" "callers_step cfg e cl s = Ran s'" by blast
    show ?thesis
    proof (cases e)
      case (AsksSession r dials targets alive)
      with ask_session_shared [OF assms(1), of alive r cl dials targets s'] assms(2) step show ?thesis
        by (simp add: finds_alive_def)
    qed (use step assms(1) in \<open>auto simp: Let_def set_tasks_shared split: prod.splits\<close>)
  qed
qed

lemma run_shared:
  "run_events callers_enabled (callers_perform cy oauthKeys html cfg) es s = Ran s' \<Longrightarrow> list_all finds_alive es \<Longrightarrow>
   sessions_shared s \<Longrightarrow> sessions_shared s'"
  by (induction es arbitrary: s) (auto simp: and_then_Ran perform_shared split: if_splits)

subsection \<open>Properties\<close>

text \<open>
  C27. The server logs in once per credential. However many requests arrive and whatever their tools do, as long as
  the sessions stay alive the server dials no more connections than it has callers, besides the one on which
  each key typed into the consent page is tried; and all requests of one caller that were given a session were given the same.
\<close>

theorem one_login_per_credential:
  assumes "run_events callers_enabled (callers_perform cy oauthKeys html cfg) es no_callers = Ran s"
    and "list_all finds_alive es"
  shows "length (mh_conns s) \<le> card (dom (mh_callers s)) + length (filter is_consent es) \<and>
    (\<forall>q \<in> set (mh_requests s). \<forall>q' \<in> set (mh_requests s). \<forall>c c'.
       in_caller q = in_caller q' \<and> in_session q = Some (Inr c) \<and> in_session q' = Some (Inr c') \<longrightarrow> c = c')"
proof
  have "one_login_each 0 no_callers" by (simp add: one_login_each_def no_callers_def asked_def)
  from asked_card [OF run_logins [OF assms this]]
  show "length (mh_conns s) \<le> card (dom (mh_callers s)) + length (filter is_consent es)" by simp
  have "sessions_shared no_callers" by (simp add: sessions_shared_def no_callers_def)
  note shared = run_shared [OF assms this]
  have "c = c'" if "q \<in> set (mh_requests s)" "q' \<in> set (mh_requests s)" "in_caller q = in_caller q'"
    "in_session q = Some (Inr c)" "in_session q' = Some (Inr c')" for q q' c c'
  proof -
    have "holds_session s q" "holds_session s q'" using shared that(1,2) by (simp_all add: sessions_shared_def)
    with that(3-5) show ?thesis by (auto simp: holds_session_def split: option.splits)
  qed
  then show "\<forall>q \<in> set (mh_requests s). \<forall>q' \<in> set (mh_requests s). \<forall>c c'.
       in_caller q = in_caller q' \<and> in_session q = Some (Inr c) \<and> in_session q' = Some (Inr c') \<longrightarrow> c = c'"
    by blast
qed

lemma one_login_per_credential_witness:
  "\<exists>s. run_events callers_enabled (callers_perform example_crypto None [] example_writing) two_callers no_callers = Ran s \<and>
     length (mh_conns s) = 2 \<and> length (mh_conns s) \<le> card (dom (mh_callers s)) + length (filter is_consent two_callers)"
proof -
  obtain s where s: "run_events callers_enabled (callers_perform example_crypto None [] example_writing) two_callers no_callers = Ran s"
    "mh_conns s = [[login_call ''1-abc'', version_call], [login_call ''2-def'', version_call]]"
    using two_callers_run by blast
  have "list_all finds_alive two_callers" by (simp add: two_callers_def finds_alive_def)
  from one_login_per_credential [OF s(1) this] s show ?thesis by (intro exI [of _ s]) simp
qed

end
