(* ===== verification/Instructions.thy ===== *)
theory Instructions
  imports MCP_Server
begin

section \<open>What a client is told first\<close>

text \<open>
  The instructions of \<^verbatim>\<open>internal/server/mcp.go\<close>, which a client reads before it sees any tool, and that they lead
  somewhere: every tool they tell the client to call is there.
\<close>

definition instruction_lines :: "string list" where
  "instruction_lines =
     [''This server manages one TrueNAS instance through its middleware API.'',
      [],
      ''Call server_info first. It reports which instance you are connected to, which'',
      ''build is running, and whether mutating tools are exposed at all.'',
      [],
      ''Reads are grouped into concern tools that take an `op` argument. Mutations are'',
      ''separate tools, one per operation, registered only when the write tier is'',
      ''enabled -- a mutating tool you cannot see is switched off, not hidden.'',
      [],
      ''If no tool covers what you need, search before concluding the capability is'',
      ''missing. These tools are a curated fraction of roughly 800 middleware methods.'',
      ''search_methods finds one by name, describe_method shows what it takes, and'',
      ''call_method runs it. Creating a directory, pulling a container image, reading'',
      ''an ACL and much else are middleware methods whether or not a tool names them.'',
      [],
      ''Prefer this API over a shell on the target. A middleware call is validated'',
      ''against the method's schema, bounded by the privileges of the caller's own API'',
      ''key, and recorded in the target's audit log with that key's identity attached.'',
      ''A change made over SSH has none of that: it does not appear in the box's own'',
      ''record of what happened to it.'',
      [],
      ''Operations that take time return a job id immediately rather than blocking.'',
      ''Follow one with jobs(op=\"show\", job_id=...).'',
      [],
      ''Resources under truenas:// carry documentation the tool descriptions do not'',
      ''repeat, including the middleware's query filter syntax.'']"

definition serverInstructions :: string where
  "serverInstructions = join_str [CHR 0x0A] instruction_lines"

lemma join_str_splits: "l \<in> set ls \<Longrightarrow> \<exists>pre post. join_str sep ls = pre @ l @ post"
proof (induction ls rule: induct_list012)
  case (2 y)
  then show ?case by (intro exI [of _ "[]"]) simp
next
  case (3 y z zs)
  show ?case
  proof (cases "l = y")
    case True
    then show ?thesis by (intro exI [of _ "[]"] exI [of _ "sep @ join_str sep (z # zs)"]) simp
  next
    case False
    with 3 obtain pre post where "join_str sep (z # zs) = pre @ l @ post" by auto
    then show ?thesis by (intro exI [of _ "y @ sep @ pre"] exI [of _ post]) simp
  qed
qed simp

lemma join_str_contains: "l \<in> set ls \<Longrightarrow> contains_str x l \<Longrightarrow> contains_str x (join_str sep ls)"
  using join_str_splits [of l ls sep] unfolding contains_str_iff by (metis append.assoc)

lemma tool_there: "find_tool srv name \<noteq> None \<longleftrightarrow> name \<in> set (map tl_name (ms_tools srv))"
  by (auto simp: find_tool_def find_None_iff)

text \<open>
  The instructions send the client to tools that exist. Whatever the configuration, each tool they name to start with, to
  search, to describe, to call and to follow a job is in the text and on the server; and the resource on filters
  they promise is served.
\<close>

theorem instructions_lead_somewhere:
  "list_all (\<lambda>name. contains_str name serverInstructions \<and> find_tool (NewMCPServer html cfg True) name \<noteq> None)
     [''server_info'', ''search_methods'', ''describe_method'', ''call_method'', ''jobs''] \<and>
   contains_str ''truenas://'' serverInstructions \<and> has_prefix ''truenas://'' uriDocFilter \<and>
   uriDocFilter \<in> set (map rs_uri (ms_resources (NewMCPServer html cfg True)))"
proof (intro conjI)
  have named: "contains_str x serverInstructions" if "list_ex (contains_str x) instruction_lines" for x
    using that unfolding serverInstructions_def list_ex_iff by (blast intro: join_str_contains)
  have "list_ex (contains_str ''server_info'') instruction_lines" "list_ex (contains_str ''search_methods'') instruction_lines"
    "list_ex (contains_str ''describe_method'') instruction_lines" "list_ex (contains_str ''call_method'') instruction_lines"
    "list_ex (contains_str ''jobs'') instruction_lines" and uri: "list_ex (contains_str ''truenas://'') instruction_lines"
    by code_simp+
  with named show "list_all (\<lambda>name. contains_str name serverInstructions \<and> find_tool (NewMCPServer html cfg True) name \<noteq> None)
     [''server_info'', ''search_methods'', ''describe_method'', ''call_method'', ''jobs'']"
    unfolding tool_there tool_names by simp
  show "contains_str ''truenas://'' serverInstructions" by (rule named [OF uri])
  show "has_prefix ''truenas://'' uriDocFilter" by (simp add: has_prefix_def uriDocFilter_def)
  show "uriDocFilter \<in> set (map rs_uri (ms_resources (NewMCPServer html cfg True)))"
    by (simp add: NewMCPServer_def registerResources_def doc_resources_def)
qed

end
