(* ===== verification/Spec2Isabelle.thy ===== *)
theory Spec2Isabelle
  imports Http_Flow Call_Mailbox Subscribers Departures Caller_Logins Instructions
begin

text \<open>
  A verification development for the TrueNAS MCP server: a Go program that offers a TrueNAS appliance to MCP
  clients, over HTTP or over stdin and stdout, by calling the appliance's middleware under each caller's own API key.

  \<^bold>\<open>How the program is put together.\<close> \<^verbatim>\<open>cmd/truenas-mcp/main.go\<close> loads the configuration (\<^verbatim>\<open>internal/config\<close>) and starts one of two
  transports. Over HTTP a mux serves a health endpoint, an OAuth authorization server (\<^verbatim>\<open>internal/oauth\<close>) when an issuer is
  configured, and the MCP handler (\<^verbatim>\<open>internal/server/mcp.go\<close>), which reads the credential of a request, a key or a token the
  authorization server sealed a key into, and keeps one MCP server and one session provider per credential. A session
  (\<^verbatim>\<open>internal/server/session.go\<close>) is a logged-in connection of the middleware client (\<^verbatim>\<open>internal/truenas\<close>), shared by all
  requests of that credential. The tools are in three tiers: reads dispatched over tables of operations
  (\<^verbatim>\<open>internal/tools/concerns.go\<close>), writes and configuration writes registered only when the operator enables them, and a
  discovery surface that can call any method that the allowlist (\<^verbatim>\<open>internal/tools/discovery.go\<close>) and the denylist
  (\<^verbatim>\<open>internal/tools/safety.go\<close>) let through.

  \<^bold>\<open>Which theory models what.\<close>
    \<^item> \<open>Go_Prelude\<close>: the shared vocabulary: strings as byte lists with the functions of Go's \<^verbatim>\<open>strings\<close> that are used, JSON
      trees with the decoders of \<^verbatim>\<open>encoding/json\<close>, maps as association lists, formatting. \<open>Utf8\<close>: validity of text.
    \<^item> \<open>Safety\<close>, \<open>Dispatch\<close>, \<open>Concerns\<close>, \<open>Discovery\<close>, \<open>Writes\<close>: the tables and gates of \<^verbatim>\<open>internal/tools\<close>.
    \<^item> \<open>Middleware\<close>, \<open>Jobs\<close>, \<open>Client\<close>, \<open>Call_Mailbox\<close>, \<open>Subscribers\<close>: \<^verbatim>\<open>internal/truenas\<close>: errors, calls as a function of the
      calls before, jobs, the version floor; the connection itself, with its channels, as a machine of atomic steps, the mailbox
      it refines, and the goroutines of event subscriptions over it.
    \<^item> \<open>Dispatch_IO\<close>, \<open>Log_Collector\<close>, \<open>Read_File\<close>, \<open>Concern_Tool\<close>, \<open>Write_Tool\<close>, \<open>Config_Write_Tool\<close>,
      \<open>Method_Metadata\<close>, \<open>Discovery_Tool\<close>, \<open>Tasks\<close>, \<open>Inventory\<close>, \<open>Resources\<close>: the handlers of \<^verbatim>\<open>internal/server\<close>, each from its
      decoded input to its answer and the calls it makes. \<open>Apps\<close>: \<^verbatim>\<open>internal/apps\<close>.
    \<^item> \<open>Replay_Cache\<close>, \<open>Base64\<close>, \<open>OAuth_Tokens\<close>, \<open>OAuth_Server\<close>, \<open>Consent\<close>: \<^verbatim>\<open>internal/oauth\<close>. \<open>Html\<close> and \<open>Url_Query\<close> are what these
      use of \<^verbatim>\<open>html/template\<close>, \<^verbatim>\<open>net/url\<close> and \<^verbatim>\<open>net/http\<close>, with a reader of markup as the specification of escaping;
      \<open>Json_Codec\<close> is the codec of the examples.
    \<^item> \<open>Session\<close>: credentials, sessions, providers and handlers per credential. \<open>MCP_Server\<close>: the tool list as a function of
      the configuration and what a request can make the server call. \<open>Callers\<close>: the MCP handler with what it keeps per credential
      and the requests in flight, \<open>Caller_Logins\<close>: how often it logs in. \<open>Instructions\<close>: what a client is told first. \<open>Departures\<close>: where the code does other than
      the requirements under \<^verbatim>\<open>openspec/specs\<close>.
    \<^item> \<open>Config\<close>, \<open>Health\<close>, \<open>Process_Life\<close>, \<open>Main_Process\<close>: configuration, health signal and probe, the life of the
      process, and the wiring of the whole. \<open>Http_Flow\<close>: the authorization flow over the running server.
    \<^item> \<open>Step_Machine\<close>: machines whose steps may panic or block, their runs and the invariant rule, and tables of objects owned by
      one key.

  \<^bold>\<open>How it is modelled.\<close> The target is a function from the calls made so far and the next call to its answer, and every handler
  returns the calls it has made, so that what reaches the appliance is part of each statement. Errors are values with the
  structure that \<^verbatim>\<open>errors.Is\<close> and \<^verbatim>\<open>errors.As\<close> see. Concurrent code is modelled by its critical sections as atomic steps: the
  steps of the client's goroutines and callers in \<open>Client\<close> and \<open>Subscribers\<close>, those of the process in \<open>Process_Life\<close>, those of the requests
  of many callers in \<open>Callers\<close>; the concurrent calls of the
  inventory run in an arbitrary order. Request ids are 64-bit words, sizes and limits wrap or are refused as in Go. Loops
  whose end depends on the world take a schedule of what the world does next, and are proved to end when their
  deadline is on it.

  \<^bold>\<open>Interfaces.\<close> \<open>deny_gate\<close> and \<open>discovery_gate\<close> state what the tools rely on of the denylist and the allowlist, \<open>op_table\<close> what
  they rely on of dispatch, \<open>expiring_map\<close> what the replay cache and the task registry share, \<open>single_use\<close> what the code grant
  relies on of the replay cache, and \<open>machine\<close> the invariant rule that the connection, its subscribers, the process and the callers use. Each is interpreted on the
  program's own definitions in the theory that provides them.

  \<^bold>\<open>What the lemmas show.\<close>
    \<^item> Safety of the tool surface: the gates decide exactly as documented, read tools stay in their tables, mutating tools exist
      only with the write tier, annotations are honest, writes reach the target once, in a permitted shape, after
      their target was confirmed.
    \<^item> Many callers on one server: no connection ever carries a call the denylist refuses, every request's tools run on a connection logged in
      with its own key, a task leads only to the job it was handed out for, to the same key, no step for one
      caller touches another, and while sessions stay alive a caller costs one login. Keys are told apart by their identifiers, eight bytes of SHA-256; that no two keys in use share one
      is a hypothesis where it is needed.
    \<^item> The connection never panics or blocks, refines a mailbox per request, wakes everyone when it dies, and bounds every stream. A stream ends with its context, streams
      of one source never overlap, and whoever waits to subscribe can go on; the connection below the subscribers is
      one the connection's own machine reaches (\<open>subscribers_run_connection\<close>).
    \<^item> The authorization server: sealed values open only for their purpose and until they expire, codes are issued after
      consent and redeem once, the discovery documents, challenges and routes agree. The consent page cannot be
      changed by what it shows, it delivers the code where it says, and the whole flow, over HTTP, serves the typed key.
    \<^item> The process: a configuration that loads is safe to start, its log shows no key, it can always be stopped, and
      every session it opened is closed when it exits.
    \<^item> Answers: arguments reach the target, bounded and projected answers say so, files and logs are bounded, tasks and
      job resources lead to the job they stand for, inventory sections fail independently.
    \<^item> Some lemmas record behaviour that departs from the documentation or looks unintended; each is stated as a fact about the
      code: \<open>call_method_reaches_recursive_acl\<close>, \<open>code_redeemable_again\<close>, \<open>first_failure_is_final\<close>, \<open>call_after_failure_waits\<close>,
      \<open>healthcheck_fails_under_tls\<close>, \<open>failed_section_is_empty\<close>, \<open>unparsable_bool_is_false\<close>, and the lemmas of \<open>Departures\<close>.

  \<^bold>\<open>Bounds.\<close> The lemmas on the connection and its subscribers hold for fewer than \<open>2 ^ 64 - 1\<close> steps, so that no 64-bit request id is used twice. The other
  machines have no bound. Loops carry their own termination proofs; the schedules of the log collector end the
  collection by the deadline they contain.

  \<^bold>\<open>Parameters.\<close> Code that is not in the repository is an argument with its documented laws as hypotheses: AES-GCM, HMAC, SHA-256
  and the JSON encoder of sealed values (\<open>crypto_ok\<close>), Go's parsers of URLs and durations, the HTTP and websocket
  transports, the MCP SDK's validation of inputs against schemas, clocks, and randomness. The escaping of \<^verbatim>\<open>html/template\<close> and
  the query codec of \<^verbatim>\<open>net/url\<close> are standard library and modelled.

  \<^bold>\<open>Not modelled.\<close> The HTML of the inventory view; the input schemas, which
  are inferred by the SDK; the transport that carries MCP messages in HTTP requests, which is the SDK's; socket input and output, TLS, and timeouts other than as events of the world.
\<close>

end
